(* ===== verification/ClearSync_Prelude.thy ===== *)
theory ClearSync_Prelude
  imports Main
    "HOL-Library.Word"
    "HOL-Library.Char_ord"
    "HOL-Library.List_Lexorder"
begin

text \<open>
  Shared vocabulary of the ClearSync development.

  \<^item> Machine integers of the x86-64 Linux build: \<open>u8\<close>, \<open>u16\<close>, \<open>u32\<close>, \<open>u64\<close>; \<open>time_t\<close>
    is a 64-bit word read with \<open>sint\<close>.
  \<^item> Exceptions (\<open>include/clearsync/csexception.h\<close>) as values.
  \<^item> \<open>outcome\<close>: what running a piece of C++ code can come to: a value, a C++ exception, a
    thread that blocks for ever on a mutex, or undefined behaviour (a dangling or null
    pointer that is used). Every outcome but the last carries the state it leaves behind.
  \<^item> The pieces of the C and C++ library that the sources use: \<open>c_str\<close>, \<open>strcasecmp\<close>,
    \<open>isprint\<close>, little-endian object representations, \<open>std::map\<close> as an association list
    sorted by key, \<open>std::vector\<close> search-and-erase.
\<close>

section \<open>Collections of facts\<close>

named_theorems cs_simps \<open>unfolding rules of the model's operations\<close>
named_theorems outcome_simps \<open>rewriting of outcomes\<close>

section \<open>Machine types\<close>

type_synonym u8 = "8 word"
type_synonym u16 = "16 word"
type_synonym u32 = "32 word"
type_synonym u64 = "64 word"
type_synonym time_t = "64 word"
type_synonym bytes = "8 word list"

lemma sint_dec_u64:
  fixes v :: u64
  assumes "- (2 ^ 63) < sint v"
  shows "sint (v - 1) = sint v - 1"
proof -
  have "sint v < 2 ^ 63" using sint_lt [of v] by simp
  then have "signed_take_bit 63 (sint v - 1) = sint v - 1"
    using assms by (intro signed_take_bit_int_eq_self) auto
  then show ?thesis by (simp add: sint_word_ariths(2))
qed

lemma unat_of_nat_u64 [simp]: "n < 2 ^ 64 \<Longrightarrow> unat (of_nat n :: u64) = n"
  by (simp add: unat_of_nat)

lemma of_nat_u64_zero [simp]: "n < 2 ^ 64 \<Longrightarrow> (of_nat n :: u64) = 0 \<longleftrightarrow> n = 0"
  by (drule unat_of_nat_u64) (simp flip: unat_eq_zero)

section \<open>Exceptions\<close>

text \<open>
  \<open>eint\<close> and \<open>estring\<close> are the fields of \<open>csException\<close>; \<open>what()\<close> is the argument given to
  \<open>runtime_error\<close>: either a text or \<open>strerror(e)\<close>. The subclasses carry their own fields.
\<close>

datatype what_text = WhatString string | WhatStrerror int

datatype exception_class =
    ClassException
  | ClassDebugException int string
  | ClassXmlParseException u32 u32 u8
  | ClassXmlKeyNotFound
  | ClassUsageException
  | ClassDumpStateException
  | ClassInvalidOptionException
  | ClassSocketTimeout
  | ClassSocketConnecting
  | ClassSocketHangup
  | ClassBadAlloc

record cs_exception =
  exc_class :: exception_class
  exc_what :: what_text
  eint :: int
  estring :: string

definition csException0 :: cs_exception where
  "csException0 = \<lparr>exc_class = ClassException, exc_what = WhatString ''csException'',
     eint = -1, estring = ''csException''\<rparr>"

definition csException_s :: "string \<Rightarrow> cs_exception" where
  "csException_s s = \<lparr>exc_class = ClassException, exc_what = WhatString ''csException'',
     eint = -1, estring = s\<rparr>"

definition csException_e :: "int \<Rightarrow> cs_exception" where
  "csException_e e = \<lparr>exc_class = ClassException, exc_what = WhatStrerror e,
     eint = e, estring = ''csException''\<rparr>"

definition csException_es :: "int \<Rightarrow> string \<Rightarrow> cs_exception" where
  "csException_es e s = \<lparr>exc_class = ClassException, exc_what = WhatStrerror e,
     eint = e, estring = s\<rparr>"

definition csException_ss :: "string \<Rightarrow> string \<Rightarrow> cs_exception" where
  "csException_ss s es = \<lparr>exc_class = ClassException, exc_what = WhatString s,
     eint = 0, estring = es\<rparr>"

definition csDebugException :: "int \<Rightarrow> string \<Rightarrow> int \<Rightarrow> string \<Rightarrow> cs_exception" where
  "csDebugException e s l f = (csException_es e s)\<lparr>exc_class := ClassDebugException l f\<rparr>"

text \<open>\<open>std::bad_alloc\<close>, which \<open>new\<close> throws, is not a \<open>csException\<close>.\<close>

definition bad_alloc :: cs_exception where
  "bad_alloc = \<lparr>exc_class = ClassBadAlloc, exc_what = WhatString ''std::bad_alloc'',
     eint = 0, estring = []\<rparr>"

text \<open>The errno values of Linux that the sources name.\<close>

definition EINTR :: int where "EINTR = 4"
definition EAGAIN :: int where "EAGAIN = 11"
definition EWOULDBLOCK :: int where "EWOULDBLOCK = 11"
definition EEXIST :: int where "EEXIST = 17"
definition EINVAL :: int where "EINVAL = 22"
definition EISCONN :: int where "EISCONN = 106"
definition ETIMEDOUT :: int where "ETIMEDOUT = 110"
definition EALREADY :: int where "EALREADY = 114"
definition EINPROGRESS :: int where "EINPROGRESS = 115"

section \<open>Outcomes\<close>

datatype ('s, 'a) outcome =
    Return 'a 's
  | Throw cs_exception 's
  | Block 's
  | Undef

text \<open>Sequencing: the next piece runs only after a normal return.\<close>

fun bindO :: "('s, 'a) outcome \<Rightarrow> ('a \<Rightarrow> 's \<Rightarrow> ('s, 'b) outcome) \<Rightarrow> ('s, 'b) outcome" where
  "bindO (Return a s) f = f a s"
| "bindO (Throw e s) f = Throw e s"
| "bindO (Block s) f = Block s"
| "bindO Undef f = Undef"

fun returns :: "('s, 'a) outcome \<Rightarrow> bool" where
  "returns (Return a s) = True"
| "returns _ = False"

text \<open>The state an outcome leaves behind.\<close>

fun run_state :: "('s, 'a) outcome \<Rightarrow> 's option" where
  "run_state (Return a s) = Some s"
| "run_state (Throw e s) = Some s"
| "run_state (Block s) = Some s"
| "run_state Undef = None"

lemma bindO_assoc [outcome_simps]:
  "bindO (bindO m f) g = bindO m (\<lambda>a s. bindO (f a s) g)"
  by (cases m) auto

lemma bindO_Return_iff:
  "bindO m f = Return b t \<longleftrightarrow> (\<exists>a s. m = Return a s \<and> f a s = Return b t)"
  by (cases m) auto

lemma run_state_bindO:
  "run_state (bindO m f) = Some t \<longleftrightarrow> (\<exists>a s. m = Return a s \<and> run_state (f a s) = Some t) \<or>
     ((\<forall>a s. m \<noteq> Return a s) \<and> run_state m = Some t)"
  by (cases m) auto

lemma bindO_cong_Return [fundef_cong]:
  "m = m' \<Longrightarrow> (\<And>a s. m' = Return a s \<Longrightarrow> f a s = g a s) \<Longrightarrow> bindO m f = bindO m' g"
  by (cases m') auto

section \<open>Characters and C strings\<close>

text \<open>
  The program never calls \<open>setlocale\<close>, so the C locale's tables apply: \<open>tolower\<close> changes
  A to Z only and \<open>isprint\<close> holds from space to tilde.
\<close>

definition tolower :: "char \<Rightarrow> char" where
  "tolower c = (if 65 \<le> (of_char c :: nat) \<and> (of_char c :: nat) \<le> 90
                then char_of ((of_char c :: nat) + 32) else c)"

definition isprint :: "u8 \<Rightarrow> bool" where
  "isprint b \<longleftrightarrow> 32 \<le> unat b \<and> unat b \<le> 126"

definition c_str :: "string \<Rightarrow> string" where
  "c_str s = takeWhile (\<lambda>c. c \<noteq> CHR 0x00) s"

text \<open>\<open>strcasecmp\<close> is only ever tested against zero, that is for equality.\<close>

definition strcasecmp_eq :: "string \<Rightarrow> string \<Rightarrow> bool" where
  "strcasecmp_eq a b \<longleftrightarrow> map tolower (c_str a) = map tolower (c_str b)"

lemma strcasecmp_eq_refl [simp]: "strcasecmp_eq a a"
  by (simp add: strcasecmp_eq_def)

lemma strcasecmp_eq_sym: "strcasecmp_eq a b \<longleftrightarrow> strcasecmp_eq b a"
  by (auto simp: strcasecmp_eq_def)

lemma strcasecmp_eq_trans: "strcasecmp_eq a b \<Longrightarrow> strcasecmp_eq b c \<Longrightarrow> strcasecmp_eq a c"
  by (simp add: strcasecmp_eq_def)

definition byte_of_char :: "char \<Rightarrow> u8" where
  "byte_of_char c = of_nat (of_char c)"

definition char_of_byte :: "u8 \<Rightarrow> char" where
  "char_of_byte b = char_of (unat b)"

lemma char_of_byte_of_char [simp]: "char_of_byte (byte_of_char c) = c"
proof -
  have "(of_char c :: nat) < 256" by simp
  then show ?thesis by (simp add: char_of_byte_def byte_of_char_def unat_of_nat)
qed

lemma byte_of_char_of_byte [simp]: "byte_of_char (char_of_byte b) = b"
proof -
  have "unat b < 256" using unsigned_less [of b, where ?'a = nat] by simp
  then show ?thesis by (simp add: char_of_byte_def byte_of_char_def)
qed

lemma map_char_of_byte_inverse [simp]: "map char_of_byte (map byte_of_char s) = s"
  by (induction s) auto

section \<open>Little-endian object representations\<close>

fun le_bytes :: "nat \<Rightarrow> nat \<Rightarrow> bytes" where
  "le_bytes 0 v = []"
| "le_bytes (Suc n) v = of_nat (v mod 256) # le_bytes n (v div 256)"

fun le_value :: "bytes \<Rightarrow> nat" where
  "le_value [] = 0"
| "le_value (b # bs) = unat b + 256 * le_value bs"

lemma length_le_bytes [simp]: "length (le_bytes n v) = n"
  by (induction n arbitrary: v) auto

lemma le_value_le_bytes: "le_value (le_bytes n v) = v mod 256 ^ n"
proof (induction n arbitrary: v)
  case 0
  then show ?case by simp
next
  case (Suc n)
  have "unat (of_nat (v mod 256) :: u8) = v mod 256" by (simp add: unat_of_nat)
  then show ?case using Suc.IH [of "v div 256"] by (simp add: mod_mult2_eq)
qed

lemma le_value_bound: "le_value bs < 256 ^ length bs"
proof (induction bs)
  case Nil
  then show ?case by simp
next
  case (Cons b bs)
  have "unat b < 256" using unsigned_less [of b, where ?'a = nat] by simp
  moreover have "Suc (le_value bs) \<le> 256 ^ length bs" using Cons by simp
  then have "256 * Suc (le_value bs) \<le> 256 * 256 ^ length bs" by (rule mult_le_mono2)
  ultimately show ?case by simp
qed

lemma le_bytes_le_value: "length bs = n \<Longrightarrow> le_bytes n (le_value bs) = bs"
proof (induction bs arbitrary: n)
  case Nil
  then show ?case by simp
next
  case (Cons b bs)
  have "unat b < 256" using unsigned_less [of b, where ?'a = nat] by simp
  with Cons show ?case by (cases n) auto
qed

text \<open>\<open>size_t\<close> and \<open>unsigned long\<close> take eight bytes, \<open>float\<close> four.\<close>

definition put_u64 :: "u64 \<Rightarrow> bytes" where
  "put_u64 w = le_bytes 8 (unat w)"

definition get_u64 :: "bytes \<Rightarrow> u64" where
  "get_u64 bs = of_nat (le_value bs)"

definition put_u32 :: "u32 \<Rightarrow> bytes" where
  "put_u32 w = le_bytes 4 (unat w)"

definition get_u32 :: "bytes \<Rightarrow> u32" where
  "get_u32 bs = of_nat (le_value bs)"

lemma length_put_u64 [simp]: "length (put_u64 w) = 8"
  by (simp add: put_u64_def)

lemma length_put_u32 [simp]: "length (put_u32 w) = 4"
  by (simp add: put_u32_def)

lemma get_put_u64 [simp]: "get_u64 (put_u64 w) = w"
  using unsigned_less [of w, where ?'a = nat] by (simp add: get_u64_def put_u64_def le_value_le_bytes)

lemma get_put_u32 [simp]: "get_u32 (put_u32 w) = w"
  using unsigned_less [of w, where ?'a = nat] by (simp add: get_u32_def put_u32_def le_value_le_bytes)

end
