(* ===== verification/Cs_Text.thy ===== *)
theory Cs_Text
  imports ClearSync_Prelude
begin

text \<open>
  Text output of the C library as far as the sources use it: numbers in base ten and sixteen
  and the formatter behind \<open>vfprintf\<close>, \<open>vsyslog\<close> and \<open>sprintf\<close>, for the directives
  \<open>%[0][width][.precision][h|l](d|u|x|s|p)\<close> and \<open>%%\<close>. A directive without a matching
  argument has undefined behaviour in C; the formatter then gives \<open>None\<close>.
\<close>

section \<open>Numbers\<close>

definition digit_char :: "nat \<Rightarrow> char" where
  "digit_char d = ''0123456789abcdef'' ! (d mod 16)"

text \<open>The digits of \<open>n\<close> in base \<open>b\<close>, most significant first; \<open>b\<close> is 10 or 16.\<close>

fun show_base :: "nat \<Rightarrow> nat \<Rightarrow> string" where
  "show_base b n = (if b < 2 \<or> n < b then [digit_char n]
     else show_base b (n div b) @ [digit_char (n mod b)])"

declare show_base.simps [simp del]

definition show_int :: "int \<Rightarrow> string" where
  "show_int i = (if i < 0 then CHR ''-'' # show_base 10 (nat (- i)) else show_base 10 (nat i))"

text \<open>Reading digits back.\<close>

definition digit_value :: "char \<Rightarrow> nat" where
  "digit_value c = (let n = of_char c in
     if 48 \<le> n \<and> n \<le> 57 then n - 48
     else if 97 \<le> n \<and> n \<le> 102 then n - 87
     else if 65 \<le> n \<and> n \<le> 70 then n - 55 else 16)"

definition read_base :: "nat \<Rightarrow> string \<Rightarrow> nat" where
  "read_base b s = foldl (\<lambda>n c. b * n + digit_value c) 0 s"

lemma digit_value_char: "d < 16 \<Longrightarrow> digit_value (digit_char d) = d"
proof -
  assume "d < 16"
  then have "d \<in> set [0..<16]" by simp
  then show ?thesis by (auto simp: upt_rec digit_char_def digit_value_def)
qed

lemma show_base_nonempty [simp]: "show_base b n \<noteq> []"
  by (subst show_base.simps) simp

lemma read_show_base: "2 \<le> b \<Longrightarrow> b \<le> 16 \<Longrightarrow> read_base b (show_base b n) = n"
proof (induction b n rule: show_base.induct)
  case (1 b n)
  show ?case
  proof (cases "n < b")
    case True
    with "1.prems" show ?thesis by (subst show_base.simps) (simp add: read_base_def digit_value_char)
  next
    case False
    have "n mod b < b" using "1.prems" by simp
    then have "n mod b < 16" using "1.prems" by linarith
    moreover have "read_base b (show_base b (n div b)) = n div b" using "1" False by simp
    ultimately show ?thesis using "1.prems" False
      by (subst show_base.simps) (simp add: read_base_def digit_value_char)
  qed
qed

section \<open>Formatted output\<close>

datatype fmt_arg = ArgS string | ArgI int | ArgP nat

definition pad_left :: "char \<Rightarrow> nat \<Rightarrow> string \<Rightarrow> string" where
  "pad_left c w s = replicate (w - length s) c @ s"

definition is_digit :: "char \<Rightarrow> bool" where
  "is_digit c \<longleftrightarrow> 48 \<le> (of_char c :: nat) \<and> (of_char c :: nat) \<le> 57"

record fmt_spec =
  fs_zero :: bool
  fs_width :: nat
  fs_prec :: "nat option"

text \<open>One conversion with its argument.\<close>

definition convert_arg :: "fmt_spec \<Rightarrow> char \<Rightarrow> fmt_arg \<Rightarrow> string option" where
  "convert_arg f c a = map_option (pad_left (if fs_zero f then CHR ''0'' else CHR '' '') (fs_width f))
     (case a of
        ArgS s \<Rightarrow> if c = CHR ''s'' then Some (case fs_prec f of None \<Rightarrow> s | Some p \<Rightarrow> take p s) else None
      | ArgI i \<Rightarrow> if c = CHR ''d'' \<or> c = CHR ''u'' then Some (show_int i)
                  else if c = CHR ''x'' then Some (show_base 16 (nat i)) else None
      | ArgP p \<Rightarrow> if c = CHR ''p'' then Some (''0x'' @ show_base 16 p) else None)"

text \<open>The flags, the width, the precision and the length modifiers after a \<open>%\<close>.\<close>

definition parse_spec :: "string \<Rightarrow> fmt_spec \<times> string" where
  "parse_spec s = (let z = (s \<noteq> [] \<and> hd s = CHR ''0'');
       w = takeWhile is_digit s; r = dropWhile is_digit s;
       p = (if r \<noteq> [] \<and> hd r = CHR ''.'' then Some (takeWhile is_digit (tl r)) else None);
       r' = (if p = None then r else dropWhile is_digit (tl r))
     in (\<lparr>fs_zero = z, fs_width = read_base 10 w, fs_prec = map_option (read_base 10) p\<rparr>,
         dropWhile (\<lambda>c. c = CHR ''l'' \<or> c = CHR ''h'') r'))"

lemma length_parse_spec: "length (snd (parse_spec s)) \<le> length s"
proof -
  have 1: "length (dropWhile P xs) \<le> length xs" for P and xs :: string by (simp add: length_dropWhile_le)
  have 2: "length (dropWhile P (tl xs)) \<le> length xs" for P and xs :: string
    using 1 [of P "tl xs"] by (cases xs) auto
  show ?thesis unfolding parse_spec_def Let_def
    by (auto intro: order_trans [OF 1] order_trans [OF 2] 1)
qed

function vformat :: "string \<Rightarrow> fmt_arg list \<Rightarrow> string option" where
  "vformat [] args = Some []"
| "vformat (c # cs) args =
     (if c \<noteq> CHR ''%'' then map_option ((#) c) (vformat cs args)
      else case parse_spec cs of (f, []) \<Rightarrow> None
        | (f, d # rest) \<Rightarrow>
            if d = CHR ''%'' then map_option ((#) (CHR ''%'')) (vformat rest args)
            else case args of [] \<Rightarrow> None
              | a # args' \<Rightarrow> (case convert_arg f d a of None \<Rightarrow> None
                  | Some t \<Rightarrow> map_option ((@) t) (vformat rest args')))"
  by pat_completeness auto

termination
proof (relation "measure (length \<circ> fst)", goal_cases)
  case (3 c cs args f d rest x)
  then show ?case using length_parse_spec [of cs] by (metis fst_conv in_measure length_Cons o_apply
        snd_conv Suc_le_lessD le_imp_less_Suc less_Suc_eq)
next
  case (4 c cs args x1 x2 x3 x4 x5 x6 x7)
  then show ?case using length_parse_spec [of cs] by (metis fst_conv in_measure length_Cons o_apply
        snd_conv Suc_le_lessD le_imp_less_Suc less_Suc_eq)
qed auto

text \<open>A text without a percent sign is copied, whatever the arguments.\<close>

lemma vformat_plain: "CHR ''%'' \<notin> set s \<Longrightarrow> vformat s args = Some s"
  by (induction s) auto

lemma vformat_plain_append:
  "CHR ''%'' \<notin> set s \<Longrightarrow> vformat (s @ t) args = map_option ((@) s) (vformat t args)"
proof (induction s)
  case Nil
  then show ?case by (cases "vformat t args") auto
next
  case (Cons c s)
  then show ?case by (cases "vformat t args") auto
qed

text \<open>A percent sign that starts a directive needs an argument.\<close>

lemma vformat_no_args:
  assumes "CHR ''%'' \<notin> set s" and "snd (parse_spec t) = [] \<or> hd (snd (parse_spec t)) \<noteq> CHR ''%''"
  shows "vformat (s @ CHR ''%'' # t) [] = None"
  using assms by (auto simp: vformat_plain_append split: prod.splits list.splits)

end
