(* ===== verification/Cs_Sync.thy ===== *)
theory Cs_Sync
  imports ClearSync_Prelude
begin

text \<open>
  Mutexes and the process-wide critical section (\<open>csCriticalSection\<close> of \<open>csutil.cpp\<close>).

  A mutex variable is what the code's \<open>pthread_mutex_t *\<close> can be: null, free or held.
  Locking a held mutex blocks for ever (default pthread mutexes do not recurse, and the
  operations of the model run one at a time, so nobody else is left to release it); using a
  null pointer is undefined. The locale \<open>singleton\<close> is the protocol of the three classes
  with a static \<open>instance\<close> pointer: \<open>csCriticalSection\<close>, \<open>csThreadTimer\<close> and
  \<open>csThreadNetlink\<close>.
\<close>

section \<open>Mutexes\<close>

datatype mutex = MutexNull | MutexFree | MutexHeld

definition mutex_lock ::
  "('s \<Rightarrow> mutex) \<Rightarrow> ((mutex \<Rightarrow> mutex) \<Rightarrow> 's \<Rightarrow> 's) \<Rightarrow> 's \<Rightarrow> ('s, unit) outcome" where
  "mutex_lock get upd s = (case get s of
       MutexNull \<Rightarrow> Undef
     | MutexFree \<Rightarrow> Return () (upd (\<lambda>_. MutexHeld) s)
     | MutexHeld \<Rightarrow> Block s)"

definition mutex_unlock ::
  "('s \<Rightarrow> mutex) \<Rightarrow> ((mutex \<Rightarrow> mutex) \<Rightarrow> 's \<Rightarrow> 's) \<Rightarrow> 's \<Rightarrow> ('s, unit) outcome" where
  "mutex_unlock get upd s = (case get s of
       MutexNull \<Rightarrow> Undef
     | _ \<Rightarrow> Return () (upd (\<lambda>_. MutexFree) s))"

lemma mutex_lock_free [outcome_simps]:
  "get s = MutexFree \<Longrightarrow> mutex_lock get upd s = Return () (upd (\<lambda>_. MutexHeld) s)"
  by (simp add: mutex_lock_def)

lemma mutex_lock_held [outcome_simps]: "get s = MutexHeld \<Longrightarrow> mutex_lock get upd s = Block s"
  by (simp add: mutex_lock_def)

lemma mutex_lock_null [outcome_simps]: "get s = MutexNull \<Longrightarrow> mutex_lock get upd s = Undef"
  by (simp add: mutex_lock_def)

lemma mutex_unlock_held [outcome_simps]:
  "get s = MutexHeld \<Longrightarrow> mutex_unlock get upd s = Return () (upd (\<lambda>_. MutexFree) s)"
  by (simp add: mutex_unlock_def)

section \<open>Running an operation on a part of the state\<close>

definition zoomO ::
  "('w \<Rightarrow> 's) \<Rightarrow> (('s \<Rightarrow> 's) \<Rightarrow> 'w \<Rightarrow> 'w) \<Rightarrow> ('s \<Rightarrow> ('s, 'a) outcome) \<Rightarrow> 'w \<Rightarrow> ('w, 'a) outcome"
where
  "zoomO get upd op w = (case op (get w) of
       Return a s \<Rightarrow> Return a (upd (\<lambda>_. s) w)
     | Throw e s \<Rightarrow> Throw e (upd (\<lambda>_. s) w)
     | Block s \<Rightarrow> Block (upd (\<lambda>_. s) w)
     | Undef \<Rightarrow> Undef)"

lemma zoomO_simps [outcome_simps]:
  "op (get w) = Return a s \<Longrightarrow> zoomO get upd op w = Return a (upd (\<lambda>_. s) w)"
  "op (get w) = Throw e s \<Longrightarrow> zoomO get upd op w = Throw e (upd (\<lambda>_. s) w)"
  "op (get w) = Block s \<Longrightarrow> zoomO get upd op w = Block (upd (\<lambda>_. s) w)"
  "op (get w) = Undef \<Longrightarrow> zoomO get upd op w = Undef"
  by (simp_all add: zoomO_def)

section \<open>Singletons\<close>

locale singleton =
  fixes inst :: "'s \<Rightarrow> 'p option"
    and create :: "'p \<Rightarrow> 's \<Rightarrow> ('s, unit) outcome"
    and destroy :: "'p \<Rightarrow> 's \<Rightarrow> ('s, unit) outcome"
    and ready :: "'p \<Rightarrow> 's \<Rightarrow> bool"
  assumes create_registers: "ready p s \<Longrightarrow> create p s = Return () t \<Longrightarrow> inst s = None \<and> inst t = Some p"
    and create_refused: "ready p s \<Longrightarrow> inst s \<noteq> None \<Longrightarrow> \<exists>e t. create p s = Throw e t \<and> eint e = EEXIST"
    and destroy_keeps: "destroy p s = Return () t \<Longrightarrow> inst t = inst s"
begin

text \<open>
  Nothing ever clears the instance pointer: the first object is also the last one. \<open>ready\<close> is
  what the steps before the test of the pointer need in order to succeed.
\<close>

lemma created_once:
  assumes "ready p s" and "create p s = Return () t" and "destroy q t = Return () u" and "ready r u"
  shows "\<exists>e v. create r u = Throw e v \<and> eint e = EEXIST"
proof -
  have "inst u = Some p"
    using assms create_registers destroy_keeps by metis
  then show ?thesis using create_refused [OF assms(4)] by simp
qed

end

section \<open>The critical section\<close>

record critical_section =
  cs_instance :: "nat option"
  cs_mutex :: mutex

definition critical_init :: critical_section where
  "critical_init = \<lparr>cs_instance = None, cs_mutex = MutexNull\<rparr>"

definition csCriticalSection_ctor ::
  "nat \<Rightarrow> critical_section \<Rightarrow> (critical_section, unit) outcome" where
  "csCriticalSection_ctor this s =
     (if cs_instance s \<noteq> None then Throw (csException_es EEXIST ''csCriticalSection'') s
      else Return () (s\<lparr>cs_mutex := MutexFree, cs_instance := Some this\<rparr>))"

definition csCriticalSection_dtor ::
  "nat \<Rightarrow> critical_section \<Rightarrow> (critical_section, unit) outcome" where
  "csCriticalSection_dtor this s =
     (if cs_instance s \<noteq> Some this then Return () s
      else Return () (s\<lparr>cs_mutex := MutexNull\<rparr>))"

definition csCriticalSection_Lock ::
  "critical_section \<Rightarrow> (critical_section, unit) outcome" where
  "csCriticalSection_Lock s =
     (if cs_instance s \<noteq> None \<and> cs_mutex s \<noteq> MutexNull
      then mutex_lock cs_mutex cs_mutex_update s else Return () s)"

definition csCriticalSection_Unlock ::
  "critical_section \<Rightarrow> (critical_section, unit) outcome" where
  "csCriticalSection_Unlock s =
     (if cs_instance s \<noteq> None \<and> cs_mutex s \<noteq> MutexNull
      then mutex_unlock cs_mutex cs_mutex_update s else Return () s)"

interpretation crit_single: singleton cs_instance csCriticalSection_ctor csCriticalSection_dtor
  "\<lambda>_ _. True"
  by unfold_locales
    (auto simp: csCriticalSection_ctor_def csCriticalSection_dtor_def csException_es_def
      split: if_splits)

text \<open>With no critical section object, or with one that is free, a lock is matched by an unlock.\<close>

definition critical_free :: "critical_section \<Rightarrow> bool" where
  "critical_free s \<longleftrightarrow> cs_mutex s \<noteq> MutexHeld"

lemma critical_lock_unlock:
  assumes "critical_free s"
  shows "\<exists>t. csCriticalSection_Lock s = Return () t \<and> csCriticalSection_Unlock t = Return () s"
  using assms
  by (cases "cs_mutex s")
    (auto simp: critical_free_def csCriticalSection_Lock_def csCriticalSection_Unlock_def
      mutex_lock_def mutex_unlock_def)

end
