(* ===== verification/Cs_Containers.thy ===== *)
theory Cs_Containers
  imports ClearSync_Prelude
begin

text \<open>
  The standard containers behind the ClearSync state.

  \<^item> \<open>std::map\<close>: an association list sorted strictly by key, so that iteration order is the
    list order. The locale \<open>std_map\<close> is the contract the sources rely on (\<open>find\<close>,
    \<open>operator[]\<close> assignment, iteration); it is interpreted on the sorted lists here.
  \<^item> The static vectors of object pointers (\<open>event_client\<close>, \<open>timer_vector\<close>, \<open>logger\<close>): the
    locale \<open>registry\<close> is the contract of \<open>push_back\<close> and of the search-and-erase loop; each
    component interprets it on its own state.
\<close>

section \<open>Ordered maps\<close>

type_synonym ('k, 'v) omap = "('k \<times> 'v) list"

fun omap_update :: "'k::linorder \<Rightarrow> 'v \<Rightarrow> ('k, 'v) omap \<Rightarrow> ('k, 'v) omap" where
  "omap_update k v [] = [(k, v)]"
| "omap_update k v ((l, u) # m) =
     (if k < l then (k, v) # (l, u) # m
      else if l < k then (l, u) # omap_update k v m
      else (k, v) # m)"

definition omap_lookup :: "('k::linorder, 'v) omap \<Rightarrow> 'k \<Rightarrow> 'v option" where
  "omap_lookup m k = map_of m k"

definition omap_ok :: "('k::linorder, 'v) omap \<Rightarrow> bool" where
  "omap_ok m \<longleftrightarrow> sorted_wrt (<) (map fst m)"

lemma omap_lookup_simps [simp]:
  "omap_lookup [] k = None"
  "omap_lookup ((l, u) # m) k = (if k = l then Some u else omap_lookup m k)"
  by (simp_all add: omap_lookup_def)

lemma keys_omap_update: "fst ` set (omap_update k v m) = insert k (fst ` set m)"
  by (induction m rule: omap_update.induct) auto

lemma omap_lookup_update: "omap_lookup (omap_update k v m) = (omap_lookup m)(k \<mapsto> v)"
  by (induction m rule: omap_update.induct) (auto simp: fun_eq_iff)

lemma omap_ok_Nil [simp]: "omap_ok []"
  by (simp add: omap_ok_def)

lemma omap_ok_Cons: "omap_ok (p # m) \<longleftrightarrow> (\<forall>q \<in> set m. fst p < fst q) \<and> omap_ok m"
  by (auto simp: omap_ok_def)

lemma omap_ok_update: "omap_ok m \<Longrightarrow> omap_ok (omap_update k v m)"
proof (induction k v m rule: omap_update.induct)
  case (1 k v)
  then show ?case by (simp add: omap_ok_Cons)
next
  case (2 k v l u m)
  show ?case
  proof (cases "k < l")
    case True
    with "2.prems" show ?thesis by (fastforce simp: omap_ok_Cons)
  next
    case notless: False
    show ?thesis
    proof (cases "l < k")
      case True
      have ok: "omap_ok (omap_update k v m)" using "2.IH" "2.prems" notless True
        by (simp add: omap_ok_Cons)
      have "l < fst q" if "q \<in> set (omap_update k v m)" for q
      proof -
        from that have "fst q \<in> insert k (fst ` set m)"
          using keys_omap_update [of k v m] by (metis imageI)
        with True "2.prems" show ?thesis by (auto simp: omap_ok_Cons)
      qed
      with ok notless True show ?thesis by (simp add: omap_ok_Cons)
    next
      case False
      with notless have "k = l" by simp
      with "2.prems" show ?thesis by (simp add: omap_ok_Cons)
    qed
  qed
qed

lemma omap_ok_sorted: "omap_ok m \<Longrightarrow> sorted_wrt (<) (map fst m)"
  by (simp add: omap_ok_def)

lemma omap_ok_distinct: "omap_ok m \<Longrightarrow> distinct (map fst m)"
  by (simp add: omap_ok_def strict_sorted_iff)

lemma map_of_rev: "distinct (map fst xs) \<Longrightarrow> map_of (rev xs) = map_of xs"
  using map_of_inject_set [of "rev xs" xs] by (simp add: rev_map [symmetric])

lemma alist_rebuild:
  assumes "distinct (map fst xs)"
  shows "map (\<lambda>k. (k, the (map_of xs k))) (map fst xs) = xs"
  using assms by (auto simp: comp_def intro!: map_idI)

text \<open>The contract of \<open>std::map\<close>: lookups after an assignment, and iteration in key order.\<close>

locale std_map =
  fixes empty :: 'm
    and update :: "'k::linorder \<Rightarrow> 'v \<Rightarrow> 'm \<Rightarrow> 'm"
    and lookup :: "'m \<Rightarrow> 'k \<Rightarrow> 'v option"
    and entries :: "'m \<Rightarrow> ('k \<times> 'v) list"
    and ok :: "'m \<Rightarrow> bool"
  assumes lookup_empty: "lookup empty k = None"
    and lookup_update: "ok m \<Longrightarrow> lookup (update k v m) = (lookup m)(k \<mapsto> v)"
    and ok_empty: "ok empty"
    and ok_update: "ok m \<Longrightarrow> ok (update k v m)"
    and entries_lookup: "ok m \<Longrightarrow> map_of (entries m) = lookup m"
    and entries_sorted: "ok m \<Longrightarrow> sorted_wrt (<) (map fst (entries m))"
    and entries_inj: "ok m \<Longrightarrow> ok m' \<Longrightarrow> entries m = entries m' \<Longrightarrow> m = m'"
begin

lemma entries_distinct: "ok m \<Longrightarrow> distinct (map fst (entries m))"
  using entries_sorted strict_sorted_iff by blast

lemma lookup_same: "ok m \<Longrightarrow> lookup (update k v m) k = Some v"
  by (simp add: lookup_update)

lemma lookup_other: "ok m \<Longrightarrow> l \<noteq> k \<Longrightarrow> lookup (update k v m) l = lookup m l"
  by (simp add: lookup_update)

text \<open>Two maps with the same lookups are the same map: iteration order is no information.\<close>

lemma lookup_ext:
  assumes "ok m" "ok m'" "lookup m = lookup m'"
  shows "m = m'"
proof -
  have eq: "map_of (entries m) = map_of (entries m')"
    using assms entries_lookup by metis
  have d: "distinct (map fst (entries m))" "distinct (map fst (entries m'))"
    using assms entries_distinct by auto
  then have sets: "set (entries m) = set (entries m')"
    using eq by (metis map_of_inject_set)
  have "map fst (entries m) = map fst (entries m')"
    using assms sets strict_sorted_equal [of "map fst (entries m)" "map fst (entries m')"]
    by (simp add: entries_sorted)
  then have "entries m = entries m'"
    using eq d alist_rebuild [of "entries m"] alist_rebuild [of "entries m'"] by simp
  then show ?thesis using assms entries_inj by blast
qed

text \<open>Assigning the pairs of a list one after the other, as a loop that reads records does.\<close>

lemma ok_assign_all: "ok m \<Longrightarrow> ok (fold (\<lambda>(k, v). update k v) kvs m)"
  by (induction kvs arbitrary: m) (auto simp: ok_update)

lemma lookup_assign_all:
  "ok m \<Longrightarrow> lookup (fold (\<lambda>(k, v). update k v) kvs m) = lookup m ++ map_of (rev kvs)"
proof (induction kvs arbitrary: m)
  case Nil
  then show ?case by simp
next
  case (Cons p kvs)
  then show ?case by (cases p) (simp add: ok_update lookup_update fun_eq_iff map_add_def
        split: option.splits)
qed

lemma assign_entries:
  assumes "ok m"
  shows "fold (\<lambda>(k, v). update k v) (entries m) empty = m"
proof -
  let ?r = "fold (\<lambda>(k, v). update k v) (entries m) empty"
  have "lookup empty = Map.empty" by (simp add: fun_eq_iff lookup_empty)
  then have "lookup ?r = Map.empty ++ map_of (rev (entries m))"
    by (simp add: lookup_assign_all [OF ok_empty])
  also have "\<dots> = map_of (entries m)"
    using entries_distinct [OF assms] by (simp add: map_of_rev)
  finally have "lookup ?r = lookup m" using assms by (simp add: entries_lookup)
  then show ?thesis using assms ok_assign_all [OF ok_empty] lookup_ext by blast
qed

end

interpretation om: std_map "[]" omap_update omap_lookup "\<lambda>m. m" omap_ok
  by unfold_locales
    (auto simp: omap_lookup_update omap_ok_update omap_ok_sorted omap_lookup_def fun_eq_iff)

section \<open>Vectors of registered objects\<close>

text \<open>
  \<open>push_back(p)\<close> on construction; on destruction a loop that skips the entries different
  from \<open>p\<close>, erases the first equal one and breaks.
\<close>

fun erase_first :: "'p \<Rightarrow> 'p list \<Rightarrow> 'p list" where
  "erase_first p [] = []"
| "erase_first p (q # qs) = (if q \<noteq> p then q # erase_first p qs else qs)"

lemma erase_first_remove1: "erase_first p qs = remove1 p qs"
  by (induction qs) auto

locale registry =
  fixes vec :: "'s \<Rightarrow> 'p list"
    and add :: "'p \<Rightarrow> 's \<Rightarrow> 's"
    and remove :: "'p \<Rightarrow> 's \<Rightarrow> 's"
  assumes vec_add: "vec (add p s) = vec s @ [p]"
    and vec_remove: "vec (remove p s) = erase_first p (vec s)"
begin

lemma distinct_add: "distinct (vec s) \<Longrightarrow> p \<notin> set (vec s) \<Longrightarrow> distinct (vec (add p s))"
  by (simp add: vec_add)

lemma distinct_remove: "distinct (vec s) \<Longrightarrow> distinct (vec (remove p s))"
  by (simp add: vec_remove erase_first_remove1)

lemma set_remove: "distinct (vec s) \<Longrightarrow> set (vec (remove p s)) = set (vec s) - {p}"
  by (simp add: vec_remove erase_first_remove1)

lemma add_then_remove: "p \<notin> set (vec s) \<Longrightarrow> vec (remove p (add p s)) = vec s"
  by (simp add: vec_add vec_remove erase_first_remove1 remove1_append)

end

end
