(* ===== verification/Cs_Log.thy ===== *)
theory Cs_Log
  imports Cs_Text Cs_Sync Cs_Containers
begin

unbundle bit_operations_syntax

text \<open>
  Logging (\<open>cslog.cpp\<close>, \<open>include/clearsync/cslog.h\<close>).

  The logger objects live in a store; \<open>logger\<close> is the static vector, \<open>logger_mutex\<close> the
  mutex that exists only while a logger does, \<open>logger_mask\<close> the level mask. What reaches a
  stream or the syslog is collected in \<open>lg_out\<close>, oldest first. The clock and the C library's
  time conversion are an argument, \<open>log_env\<close>.

  The lemmas: the invariant \<open>log_ok\<close> (a mutex exactly while there are loggers, so that
  \<open>logger.back()\<close> is never taken of an empty vector; at most one syslog logger; the syslog
  connection is open exactly while there is one) and that every operation keeps it; where a
  message goes.
\<close>

section \<open>State\<close>

datatype log_type = StdOut | LogFile | Syslog

definition Level_Info :: u32 where "Level_Info = 0x01"
definition Level_Warning :: u32 where "Level_Warning = 0x02"
definition Level_Error :: u32 where "Level_Error = 0x04"
definition Level_Debug :: u32 where "Level_Debug = 0x08"

definition Level_Everything :: u32 where
  "Level_Everything = Level_Info OR Level_Warning OR Level_Error OR Level_Debug"

lemmas level_values = Level_Info_def Level_Warning_def Level_Error_def Level_Debug_def
  Level_Everything_def

definition LOG_ERR :: int where "LOG_ERR = 3"
definition LOG_WARNING :: int where "LOG_WARNING = 4"
definition LOG_INFO :: int where "LOG_INFO = 6"
definition LOG_DEBUG :: int where "LOG_DEBUG = 7"

text \<open>A stream of the C library: the standard ones and the opened files, by number.\<close>

datatype log_sink = Sink_stdout | Sink_stderr | Sink_file nat | Sink_syslog int

record csLog =
  lg_type :: log_type
  lg_filename :: "string option"
  lg_fh :: "nat option"
  lg_ident :: "string option"
  lg_option :: int
  lg_facility :: int

record log_world =
  lg_heap :: "nat \<rightharpoonup> csLog"
  logger :: "nat list"
  logger_mutex :: mutex
  logger_mask :: u32
  lg_syslog_open :: bool
  lg_out :: "(log_sink \<times> string) list"

definition log_init :: log_world where
  "log_init = \<lparr>lg_heap = Map.empty, logger = [], logger_mutex = MutexNull,
     logger_mask = Level_Everything, lg_syslog_open = False, lg_out = []\<rparr>"

text \<open>
  \<open>le_localtime\<close>: whether \<open>localtime_r\<close> converts the current time; \<open>le_strerror\<close>: the text of
  its error; \<open>le_timestamp\<close>: what \<open>strftime\<close> writes, empty when it returns zero.
\<close>

record log_env =
  le_localtime :: bool
  le_strerror :: string
  le_timestamp :: string

text \<open>
  The other components record their calls of \<open>csLog::Log\<close>: level, format and arguments, oldest
  call first.
\<close>

type_synonym log_call = "u32 \<times> string \<times> fmt_arg list"

section \<open>Member functions\<close>

definition logger_lock :: "log_world \<Rightarrow> (log_world, unit) outcome" where
  "logger_lock = mutex_lock logger_mutex logger_mutex_update"

definition logger_unlock :: "log_world \<Rightarrow> (log_world, unit) outcome" where
  "logger_unlock = mutex_unlock logger_mutex logger_mutex_update"

definition logger_push :: "nat \<Rightarrow> log_world \<Rightarrow> log_world" where
  "logger_push p w = w\<lparr>logger := logger w @ [p]\<rparr>"

definition logger_erase :: "nat \<Rightarrow> log_world \<Rightarrow> log_world" where
  "logger_erase p w = w\<lparr>logger := erase_first p (logger w)\<rparr>"

interpretation lg_vec: registry logger logger_push logger_erase
  by unfold_locales (simp_all add: logger_push_def logger_erase_def)

definition Initialize :: "nat \<Rightarrow> log_world \<Rightarrow> (log_world, unit) outcome" where
  "Initialize this w =
     bindO (Return () (if logger_mutex w = MutexNull then w\<lparr>logger_mutex := MutexFree\<rparr> else w)) (\<lambda>_ w.
     bindO (logger_lock w) (\<lambda>_ w. logger_unlock (logger_push this w)))"

text \<open>Counting the loggers of type \<open>Syslog\<close>: \<open>(*i)->GetType()\<close> reads every registered object.\<close>

fun count_syslog :: "(nat \<rightharpoonup> csLog) \<Rightarrow> nat list \<Rightarrow> nat option" where
  "count_syslog h [] = Some 0"
| "count_syslog h (p # ps) = (case h p of None \<Rightarrow> None
     | Some l \<Rightarrow> map_option (\<lambda>n. if lg_type l = Syslog then Suc n else n) (count_syslog h ps))"

definition log_new :: "nat \<Rightarrow> csLog \<Rightarrow> log_world \<Rightarrow> log_world" where
  "log_new this l w = w\<lparr>lg_heap := (lg_heap w)(this \<mapsto> l)\<rparr>"

definition csLog_ctor_stdout :: "nat \<Rightarrow> log_world \<Rightarrow> (log_world, unit) outcome" where
  "csLog_ctor_stdout this w = Initialize this (log_new this
     \<lparr>lg_type = StdOut, lg_filename = None, lg_fh = None, lg_ident = None, lg_option = -1, lg_facility = -1\<rparr> w)"

text \<open>\<open>fopen_append\<close> is \<open>fopen(filename, "a+")\<close>: a stream or an errno value.\<close>

definition csLog_ctor_file :: "(string \<Rightarrow> int + nat) \<Rightarrow> string \<Rightarrow> nat \<Rightarrow> log_world \<Rightarrow> (log_world, unit) outcome" where
  "csLog_ctor_file fopen_append filename this w = (case fopen_append filename of
       Inl err \<Rightarrow> Throw (csException_es err ''fopen'') w
     | Inr fh \<Rightarrow> Initialize this (log_new this
         \<lparr>lg_type = LogFile, lg_filename = Some filename, lg_fh = Some fh, lg_ident = None, lg_option = -1, lg_facility = -1\<rparr> w))"

definition csLog_ctor_syslog ::
  "string \<Rightarrow> int \<Rightarrow> int \<Rightarrow> nat \<Rightarrow> log_world \<Rightarrow> (log_world, unit) outcome" where
  "csLog_ctor_syslog ident option facility this w =
     bindO (if logger_mutex w \<noteq> MutexNull
            then bindO (logger_lock w) (\<lambda>_ w. case count_syslog (lg_heap w) (logger w) of
                   None \<Rightarrow> Undef
                 | Some n \<Rightarrow> bindO (logger_unlock w) (\<lambda>_ w. Return n w))
            else Return 0 w) (\<lambda>syslog_count w.
     if syslog_count \<noteq> 0 then Throw (csException_s ''Syslog logger already exists.'') w
     else Initialize this (log_new this \<lparr>lg_type = Syslog, lg_filename = None, lg_fh = None, lg_ident = Some ident,
            lg_option = option, lg_facility = facility\<rparr> (w\<lparr>lg_syslog_open := True\<rparr>)))"

text \<open>
  The destructor. A stream that is closed is dropped from the object with the object itself;
  \<open>closelog\<close> ends the syslog connection.
\<close>

definition csLog_dtor :: "nat \<Rightarrow> log_world \<Rightarrow> (log_world, unit) outcome" where
  "csLog_dtor this w = (case lg_heap w this of None \<Rightarrow> Undef | Some l \<Rightarrow>
     bindO (if logger_mutex w \<noteq> MutexNull
            then bindO (logger_lock w) (\<lambda>_ w.
                 let w = logger_erase this w in
                 case count_syslog (lg_heap w) (logger w) of
                   None \<Rightarrow> Undef
                 | Some n \<Rightarrow> let logger_count = length (logger w) in
                     bindO (logger_unlock w) (\<lambda>_ w.
                     Return n (if logger_count = 0 then w\<lparr>logger_mutex := MutexNull\<rparr> else w)))
            else Return 0 w) (\<lambda>syslog_count w.
     let w = (case lg_type l of
                 Syslog \<Rightarrow> if syslog_count = 0 then w\<lparr>lg_syslog_open := False\<rparr> else w
               | _ \<Rightarrow> w)
     in Return () (w\<lparr>lg_heap := (lg_heap w)(this := None)\<rparr>)))"

definition SetMask :: "u32 \<Rightarrow> log_world \<Rightarrow> log_world" where
  "SetMask m w = w\<lparr>logger_mask := m\<rparr>"

definition lg_emit :: "log_sink \<Rightarrow> string \<Rightarrow> log_world \<Rightarrow> log_world" where
  "lg_emit k t w = w\<lparr>lg_out := lg_out w @ [(k, t)]\<rparr>"

definition level_tag :: "u32 \<Rightarrow> string" where
  "level_tag level =
     (if level AND Level_Warning \<noteq> 0 then ''[Warning]: ''
      else if level AND Level_Error \<noteq> 0 then ''[Error]: ''
      else if level AND Level_Debug \<noteq> 0 then ''[Debug]: '' else [])"

definition level_priority :: "u32 \<Rightarrow> int" where
  "level_priority level =
     (if level AND Level_Warning \<noteq> 0 then LOG_WARNING
      else if level AND Level_Error \<noteq> 0 then LOG_ERR
      else if level AND Level_Debug \<noteq> 0 then LOG_DEBUG else LOG_INFO)"

text \<open>
  The body for a stream logger. When \<open>localtime_r\<close> fails the code prints the error and goes on
  with an uninitialised \<open>struct tm\<close>: using it for a timestamp is undefined.
\<close>

definition Log_stream ::
  "log_env \<Rightarrow> u32 \<Rightarrow> string \<Rightarrow> fmt_arg list \<Rightarrow> csLog \<Rightarrow> log_world \<Rightarrow> (log_world, unit) outcome" where
  "Log_stream env level format args handler w =
     (let stream = (case lg_type handler of
            LogFile \<Rightarrow> map_option Sink_file (lg_fh handler)
          | _ \<Rightarrow> Some (if level AND (Level_Info OR Level_Warning) \<noteq> 0 then Sink_stdout else Sink_stderr));
          w = (if le_localtime env then w
               else lg_emit Sink_stderr (''Error converting local time: '' @ le_strerror env) w);
          stamped = (lg_type handler = LogFile \<or> Level_Debug AND logger_mask w \<noteq> 0)
      in case stream of None \<Rightarrow> Undef | Some k \<Rightarrow>
         if stamped \<and> \<not> le_localtime env then Undef
         else case vformat format args of None \<Rightarrow> Undef | Some t \<Rightarrow>
           Return () (lg_emit k
             ((if stamped \<and> le_timestamp env \<noteq> [] then le_timestamp env @ '' '' else [])
              @ level_tag level @ t @ [CHR 0x0A]) w))"

definition Log ::
  "log_env \<Rightarrow> u32 \<Rightarrow> string \<Rightarrow> fmt_arg list \<Rightarrow> log_world \<Rightarrow> (log_world, unit) outcome" where
  "Log env level format args w =
     (if level AND logger_mask w = 0 \<or> logger_mutex w = MutexNull then Return () w
      else bindO (logger_lock w) (\<lambda>_ w.
        if logger w = [] then Undef
        else let p = last (logger w) in
          if p = 0 then logger_unlock w
          else case lg_heap w p of None \<Rightarrow> Undef | Some handler \<Rightarrow>
            bindO (case lg_type handler of
                 Syslog \<Rightarrow> (case vformat format args of None \<Rightarrow> Undef
                   | Some t \<Rightarrow> Return () (lg_emit (Sink_syslog (level_priority level)) t w))
               | _ \<Rightarrow> Log_stream env level format args handler w) (\<lambda>_ w.
            logger_unlock w)))"

text \<open>The overload that takes a \<open>string\<close> passes it on as the format.\<close>

definition Log_string :: "log_env \<Rightarrow> u32 \<Rightarrow> string \<Rightarrow> log_world \<Rightarrow> (log_world, unit) outcome" where
  "Log_string env level message w = Log env level (c_str message) [] w"

section \<open>The invariant\<close>

definition syslog_set :: "(nat \<rightharpoonup> csLog) \<Rightarrow> nat set" where
  "syslog_set h = {p. \<exists>l. h p = Some l \<and> lg_type l = Syslog}"

definition log_ok :: "log_world \<Rightarrow> bool" where
  "log_ok w \<longleftrightarrow> logger_mutex w = (if logger w = [] then MutexNull else MutexFree) \<and>
     distinct (logger w) \<and> set (logger w) = dom (lg_heap w) \<and> lg_heap w 0 = None \<and>
     (\<forall>p l. lg_heap w p = Some l \<longrightarrow> (lg_type l = LogFile \<longleftrightarrow> lg_fh l \<noteq> None)) \<and>
     (\<forall>p \<in> syslog_set (lg_heap w). syslog_set (lg_heap w) = {p}) \<and>
     lg_syslog_open w = (syslog_set (lg_heap w) \<noteq> {})"

lemma syslog_set_add:
  "h p = None \<Longrightarrow> syslog_set (h(p \<mapsto> l)) = (if lg_type l = Syslog then insert p (syslog_set h) else syslog_set h)"
  by (auto simp: syslog_set_def)

lemma syslog_set_remove: "syslog_set (h(p := None)) = syslog_set h - {p}"
  by (auto simp: syslog_set_def)

lemma syslog_set_mem: "h p = Some l \<Longrightarrow> p \<in> syslog_set h \<longleftrightarrow> lg_type l = Syslog"
  by (auto simp: syslog_set_def)

lemma count_syslog_filter:
  "set ps \<subseteq> dom h \<Longrightarrow>
   count_syslog h ps = Some (length (filter (\<lambda>p. lg_type (the (h p)) = Syslog) ps))"
  by (induction ps) auto

lemma log_ok_init [simp]: "log_ok log_init"
  by (simp add: log_ok_def log_init_def syslog_set_def)

lemma Initialize_eq:
  assumes "logger_mutex w = (if logger w = [] then MutexNull else MutexFree)"
  shows "Initialize p w = Return () (w\<lparr>logger := logger w @ [p], logger_mutex := MutexFree\<rparr>)"
  using assms
  by (auto simp: Initialize_def logger_lock_def logger_unlock_def mutex_lock_def mutex_unlock_def
      logger_push_def)

lemma log_ok_fields:
  assumes "log_ok w"
  shows "logger_mutex w = (if logger w = [] then MutexNull else MutexFree)" "distinct (logger w)"
    "set (logger w) = dom (lg_heap w)" "lg_heap w 0 = None"
  using assms by (simp_all add: log_ok_def)

text \<open>Registering a new object whose class is not \<open>Syslog\<close>, or the first \<open>Syslog\<close> one.\<close>

definition log_added :: "nat \<Rightarrow> csLog \<Rightarrow> log_world \<Rightarrow> log_world" where
  "log_added p l w = w\<lparr>lg_heap := (lg_heap w)(p \<mapsto> l), logger := logger w @ [p],
     logger_mutex := MutexFree, lg_syslog_open := lg_syslog_open w \<or> lg_type l = Syslog\<rparr>"

definition log_removed :: "nat \<Rightarrow> log_world \<Rightarrow> log_world" where
  "log_removed p w = (let r = remove1 p (logger w) in
     w\<lparr>lg_heap := (lg_heap w)(p := None), logger := r,
       logger_mutex := (if r = [] then MutexNull else MutexFree),
       lg_syslog_open := lg_syslog_open w \<and> lg_type (the (lg_heap w p)) \<noteq> Syslog\<rparr>)"

lemma log_ok_added:
  assumes "log_ok w" "p \<noteq> 0" "p \<notin> dom (lg_heap w)" "lg_type l = LogFile \<longleftrightarrow> lg_fh l \<noteq> None"
    "lg_type l = Syslog \<Longrightarrow> \<not> lg_syslog_open w"
  shows "log_ok (log_added p l w)"
proof -
  have h: "lg_heap w p = None" using assms(3) by blast
  have "syslog_set ((lg_heap w)(p \<mapsto> l)) =
      (if lg_type l = Syslog then {p} else syslog_set (lg_heap w))"
    using assms(1,5) h by (auto simp: syslog_set_add log_ok_def)
  then show ?thesis using assms h unfolding log_ok_def log_added_def by (auto split: if_splits)
qed

lemma log_ok_removed:
  assumes "log_ok w" "p \<in> dom (lg_heap w)"
  shows "log_ok (log_removed p w)"
proof -
  obtain l where l: "lg_heap w p = Some l" using assms(2) by blast
  have "syslog_set ((lg_heap w)(p := None)) =
      (if lg_type l = Syslog then {} else syslog_set (lg_heap w))"
    using assms(1) l syslog_set_mem [of "lg_heap w", OF l] unfolding log_ok_def by (auto simp: syslog_set_remove)
  then show ?thesis
    using assms(1) l unfolding log_ok_def log_removed_def Let_def by (auto split: if_splits)
qed

lemma csLog_ctor_stdout_eq:
  assumes "log_ok w"
  shows "\<exists>l. lg_type l = StdOut \<and> lg_fh l = None \<and> csLog_ctor_stdout p w = Return () (log_added p l w)"
  using assms
  by (auto simp: csLog_ctor_stdout_def log_new_def Initialize_eq log_ok_fields log_added_def
      intro!: exI [of _ "\<lparr>lg_type = StdOut, lg_filename = None, lg_fh = None, lg_ident = None, lg_option = -1,
        lg_facility = -1\<rparr>"])

lemma csLog_ctor_file_eq:
  assumes "log_ok w" "fo filename = Inr f"
  shows "\<exists>l. lg_type l = LogFile \<and> lg_fh l = Some f \<and>
    csLog_ctor_file fo filename p w = Return () (log_added p l w)"
  using assms
  by (auto simp: csLog_ctor_file_def log_new_def Initialize_eq log_ok_fields log_added_def
      intro!: exI [of _ "\<lparr>lg_type = LogFile, lg_filename = Some filename, lg_fh = Some f, lg_ident = None, lg_option = -1,
        lg_facility = -1\<rparr>"])

lemma syslog_counted:
  assumes "log_ok w"
  shows "\<exists>n. count_syslog (lg_heap w) (logger w) = Some n \<and> (n = 0 \<longleftrightarrow> \<not> lg_syslog_open w)"
proof -
  have "set (logger w) = dom (lg_heap w)" using assms by (simp add: log_ok_fields)
  moreover from this have "filter (\<lambda>p. lg_type (the (lg_heap w p)) = Syslog) (logger w) = [] \<longleftrightarrow>
      \<not> lg_syslog_open w"
    using assms unfolding log_ok_def filter_empty_conv by (force simp: dom_def syslog_set_def)
  ultimately show ?thesis by (simp add: count_syslog_filter)
qed

lemma csLog_ctor_syslog_eq:
  assumes "log_ok w"
  shows "lg_syslog_open w \<Longrightarrow> csLog_ctor_syslog i opt fa p w =
      Throw (csException_s ''Syslog logger already exists.'') w"
    and "\<not> lg_syslog_open w \<Longrightarrow> \<exists>l. lg_type l = Syslog \<and> lg_fh l = None \<and>
      csLog_ctor_syslog i opt fa p w = Return () (log_added p l w)"
proof -
  obtain n where n: "count_syslog (lg_heap w) (logger w) = Some n" "n = 0 \<longleftrightarrow> \<not> lg_syslog_open w"
    using syslog_counted [OF assms] by blast
  have null: "logger w = [] \<Longrightarrow> \<not> lg_syslog_open w" using n by auto
  note ops = csLog_ctor_syslog_def logger_lock_def logger_unlock_def mutex_lock_def mutex_unlock_def
  show "csLog_ctor_syslog i opt fa p w = Throw (csException_s ''Syslog logger already exists.'') w"
    if "lg_syslog_open w"
    using that n null log_ok_fields(1) [OF assms] by (auto simp: ops)
  show "\<exists>l. lg_type l = Syslog \<and> lg_fh l = None \<and>
      csLog_ctor_syslog i opt fa p w = Return () (log_added p l w)" if "\<not> lg_syslog_open w"
    using that n null log_ok_fields(1) [OF assms]
    by (auto simp: ops log_new_def Initialize_eq log_added_def
      intro!: exI [of _ "\<lparr>lg_type = Syslog, lg_filename = None, lg_fh = None, lg_ident = Some i, lg_option = opt,
        lg_facility = fa\<rparr>"])
qed

lemma csLog_dtor_eq:
  assumes ok: "log_ok w" and p: "p \<in> dom (lg_heap w)"
  shows "csLog_dtor p w = Return () (log_removed p w)"
proof -
  obtain l where l: "lg_heap w p = Some l" using p by blast
  let ?r = "remove1 p (logger w)"
  let ?n = "length (filter (\<lambda>q. lg_type (the (lg_heap w q)) = Syslog) ?r)"
  have mem: "p \<in> set (logger w)" using ok p by (simp add: log_ok_fields)
  have cnt: "count_syslog (lg_heap w) ?r = Some ?n"
    using ok by (intro count_syslog_filter) (auto simp: log_ok_fields)
  have zero: "?n = 0" if "lg_type l = Syslog"
  proof -
    have "syslog_set (lg_heap w) = {p}" using ok that syslog_set_mem [of "lg_heap w", OF l] by (auto simp: log_ok_def)
    moreover have "set ?r = dom (lg_heap w) - {p}" using ok by (simp add: log_ok_fields)
    ultimately show ?thesis by (fastforce simp: filter_empty_conv syslog_set_def)
  qed
  have mx: "logger_mutex w = MutexFree" using mem log_ok_fields(1) [OF ok] by auto
  show ?thesis
    using l cnt zero mx
    by (cases "lg_type l")
      (auto simp: csLog_dtor_def logger_lock_def logger_unlock_def mutex_lock_def mutex_unlock_def
        logger_erase_def erase_first_remove1 log_removed_def Let_def)
qed

section \<open>Where a message goes\<close>

text \<open>The sink and the text of a message for a given logger object.\<close>

definition log_target :: "u32 \<Rightarrow> csLog \<Rightarrow> log_sink" where
  "log_target level l = (case lg_type l of
       StdOut \<Rightarrow> if level AND (Level_Info OR Level_Warning) \<noteq> 0 then Sink_stdout else Sink_stderr
     | LogFile \<Rightarrow> Sink_file (the (lg_fh l))
     | Syslog \<Rightarrow> Sink_syslog (level_priority level))"

definition log_text :: "log_env \<Rightarrow> u32 \<Rightarrow> u32 \<Rightarrow> csLog \<Rightarrow> string \<Rightarrow> string" where
  "log_text env m level l t =
     (let stamp = (if le_timestamp env = [] then [] else le_timestamp env @ '' '') in
      case lg_type l of
        StdOut \<Rightarrow> (if Level_Debug AND m \<noteq> 0 then stamp else []) @ level_tag level @ t @ [CHR 0x0A]
      | LogFile \<Rightarrow> stamp @ level_tag level @ t @ [CHR 0x0A]
      | Syslog \<Rightarrow> t)"

definition log_emits ::
  "log_env \<Rightarrow> u32 \<Rightarrow> string \<Rightarrow> log_world \<Rightarrow> (log_sink \<times> string) list" where
  "log_emits env level t w =
     (if level AND logger_mask w = 0 \<or> logger w = [] then []
      else let l = the (lg_heap w (last (logger w)))
           in [(log_target level l, log_text env (logger_mask w) level l t)])"

lemma Log_eq:
  assumes ok: "log_ok w" and env: "le_localtime env" and t: "vformat format args = Some t"
  shows "Log env level format args w = Return () (w\<lparr>lg_out := lg_out w @ log_emits env level t w\<rparr>)"
proof (cases "level AND logger_mask w = 0 \<or> logger w = []")
  case True
  then show ?thesis using log_ok_fields(1) [OF ok] by (auto simp: Log_def log_emits_def)
next
  case False
  have mx: "logger_mutex w = MutexFree" using False log_ok_fields(1) [OF ok] by simp
  have "last (logger w) \<in> dom (lg_heap w)" using False log_ok_fields(3) [OF ok] by fastforce
  then obtain l where l: "lg_heap w (last (logger w)) = Some l" by blast
  have nz: "last (logger w) \<noteq> 0" using l log_ok_fields(4) [OF ok] by (metis option.distinct(1))
  have fh: "lg_type l = LogFile \<longleftrightarrow> lg_fh l \<noteq> None" using ok l unfolding log_ok_def by blast
  have "w = w\<lparr>logger_mutex := MutexFree\<rparr>" using mx by simp
  then show ?thesis using False mx l nz fh env t
    by (cases "lg_type l")
      (auto simp: Log_def logger_lock_def logger_unlock_def mutex_lock_def mutex_unlock_def
        log_emits_def log_target_def log_text_def Log_stream_def lg_emit_def Let_def)
qed

section \<open>Reachable states\<close>

inductive log_step :: "log_world \<Rightarrow> log_world \<Rightarrow> bool" where
  new_stdout: "p \<noteq> 0 \<Longrightarrow> p \<notin> dom (lg_heap w) \<Longrightarrow> csLog_ctor_stdout p w = Return () w' \<Longrightarrow> log_step w w'"
| new_file: "p \<noteq> 0 \<Longrightarrow> p \<notin> dom (lg_heap w) \<Longrightarrow> csLog_ctor_file f filename p w = Return () w' \<Longrightarrow> log_step w w'"
| new_syslog: "p \<noteq> 0 \<Longrightarrow> p \<notin> dom (lg_heap w) \<Longrightarrow>
    csLog_ctor_syslog i opt fa p w = Return () w' \<Longrightarrow> log_step w w'"
| delete: "csLog_dtor p w = Return () w' \<Longrightarrow> log_step w w'"
| mask: "log_step w (SetMask m w)"
| log: "le_localtime env \<Longrightarrow> Log env level format args w = Return () w' \<Longrightarrow> log_step w w'"

inductive log_reachable :: "log_world \<Rightarrow> bool" where
  start: "log_reachable log_init"
| step: "log_reachable w \<Longrightarrow> log_step w w' \<Longrightarrow> log_reachable w'"

lemma log_ok_out [simp]: "log_ok (w\<lparr>lg_out := t\<rparr>) = log_ok w"
  by (simp add: log_ok_def)

lemma log_ok_mask [simp]: "log_ok (w\<lparr>logger_mask := m\<rparr>) = log_ok w"
  by (simp add: log_ok_def)

lemma Log_undef_format:
  assumes "log_ok w" "vformat format args = None" "Log env level format args w = Return () w'"
  shows "w' = w"
proof -
  have "level AND logger_mask w = 0 \<or> logger w = []"
  proof (rule ccontr)
    assume a: "\<not> (level AND logger_mask w = 0 \<or> logger w = [])"
    have "last (logger w) \<noteq> 0" using a log_ok_fields(3,4) [OF assms(1)] by (metis domIff last_in_set)
    with a assms log_ok_fields(1) [OF assms(1)] show False
      by (auto simp: Log_def logger_lock_def logger_unlock_def mutex_lock_def mutex_unlock_def
          Log_stream_def Let_def split: if_splits option.splits log_type.splits mutex.splits)
  qed
  then show ?thesis using assms(1,3) by (auto simp: Log_def log_ok_fields split: if_splits)
qed

lemma log_ok_step: "log_step w w' \<Longrightarrow> log_ok w \<Longrightarrow> log_ok w'"
proof (induction rule: log_step.induct)
  case (new_stdout p w w')
  then show ?case using csLog_ctor_stdout_eq [of w p] by (auto intro!: log_ok_added)
next
  case (new_file p w f filename w')
  then obtain s where "f filename = Inr s" by (cases "f filename") (auto simp: csLog_ctor_file_def)
  with new_file show ?case using csLog_ctor_file_eq [of w f filename s p] by (auto intro!: log_ok_added)
next
  case (new_syslog p w i opt fa w')
  then show ?case using csLog_ctor_syslog_eq [of w i opt fa p]
    by (cases "lg_syslog_open w") (auto intro!: log_ok_added)
next
  case (delete p w w')
  then have p: "p \<in> dom (lg_heap w)" by (auto simp: csLog_dtor_def split: option.splits)
  with delete show ?case using csLog_dtor_eq [of w p] log_ok_removed [of w p] by simp
next
  case (mask w m)
  then show ?case by (simp add: SetMask_def)
next
  case (log env level format args w w')
  then show ?case using Log_eq [of w env format args] Log_undef_format [of w format args env level w']
    by (cases "vformat format args") auto
qed

lemma log_reachable_ok: "log_reachable w \<Longrightarrow> log_ok w"
  by (induction rule: log_reachable.induct) (auto intro: log_ok_step)

section \<open>Properties\<close>

text \<open>
  C17. Logging in every reachable state. A message whose format fits its arguments is written
  exactly once, by the logger created last among those alive, with the tag or the syslog
  priority of its level, if its level is in the mask and a logger exists; otherwise nothing
  happens. No call blocks or touches the empty vector or a dead logger. There is never more
  than one syslog logger, and a second one is refused without changing anything.
\<close>

theorem logging_correct:
  assumes "log_reachable w" "le_localtime env" "vformat format args = Some t"
  shows "Log env level format args w =
      Return () (w\<lparr>lg_out := lg_out w @ log_emits env level t w\<rparr>) \<and>
    (logger_mutex w = MutexNull \<longleftrightarrow> logger w = []) \<and>
    (\<forall>p q. p \<in> syslog_set (lg_heap w) \<longrightarrow> q \<in> syslog_set (lg_heap w) \<longrightarrow> p = q) \<and>
    (syslog_set (lg_heap w) \<noteq> {} \<longrightarrow> csLog_ctor_syslog i opt fa p w =
       Throw (csException_s ''Syslog logger already exists.'') w)"
proof (intro conjI)
  have ok: "log_ok w" using assms(1) by (rule log_reachable_ok)
  show "Log env level format args w = Return () (w\<lparr>lg_out := lg_out w @ log_emits env level t w\<rparr>)"
    using ok assms(2,3) by (rule Log_eq)
  show "logger_mutex w = MutexNull \<longleftrightarrow> logger w = []" using log_ok_fields(1) [OF ok] by simp
  show "\<forall>p q. p \<in> syslog_set (lg_heap w) \<longrightarrow> q \<in> syslog_set (lg_heap w) \<longrightarrow> p = q"
    using ok unfolding log_ok_def by (metis singletonD)
  show "syslog_set (lg_heap w) \<noteq> {} \<longrightarrow> csLog_ctor_syslog i opt fa p w =
      Throw (csException_s ''Syslog logger already exists.'') w"
    using csLog_ctor_syslog_eq(1) [OF ok] ok by (simp add: log_ok_def)
qed

text \<open>
  A short-lived logger. Creating any logger at a fresh address and destroying it gives
  back the state as it was, so that the logger created before it is in charge again; the
  mutex is freed with the last logger.
\<close>

theorem logger_restored:
  assumes "log_reachable w" "p \<noteq> 0" "p \<notin> dom (lg_heap w)"
  shows "bindO (csLog_ctor_stdout p w) (\<lambda>_. csLog_dtor p) = Return () w \<and>
    bindO (csLog_ctor_file (\<lambda>_. Inr f) filename p w) (\<lambda>_. csLog_dtor p) = Return () w \<and>
    (syslog_set (lg_heap w) = {} \<longrightarrow>
      bindO (csLog_ctor_syslog i opt fa p w) (\<lambda>_. csLog_dtor p) = Return () w)"
proof -
  have ok: "log_ok w" using assms(1) by (rule log_reachable_ok)
  have fresh: "lg_heap w p = None" "p \<notin> set (logger w)" using assms(3) log_ok_fields(3) [OF ok] by auto
  have undo: "csLog_dtor p (log_added p l w) = Return () w"
    if "lg_type l = LogFile \<longleftrightarrow> lg_fh l \<noteq> None" "lg_type l = Syslog \<Longrightarrow> \<not> lg_syslog_open w" for l
  proof -
    have "log_ok (log_added p l w)" using log_ok_added [OF ok assms(2,3) that] .
    then have "csLog_dtor p (log_added p l w) = Return () (log_removed p (log_added p l w))"
      by (rule csLog_dtor_eq) (simp add: log_added_def)
    also have "log_removed p (log_added p l w) = w"
      using fresh that(2) log_ok_fields(1) [OF ok]
      by (cases w) (auto simp: log_removed_def log_added_def Let_def remove1_append fun_upd_idem)
    finally show ?thesis .
  qed
  have open_iff: "syslog_set (lg_heap w) = {} \<longleftrightarrow> \<not> lg_syslog_open w" using ok by (simp add: log_ok_def)
  show ?thesis
    using csLog_ctor_stdout_eq [OF ok, of p] csLog_ctor_file_eq [OF ok, of "\<lambda>_. Inr f" filename f p]
      csLog_ctor_syslog_eq(2) [OF ok, of i opt fa p] undo open_iff by force
qed

text \<open>
  The overload for strings. A message without a percent sign is logged as it is. A message
  in which the first percent sign starts a directive, as text from a plugin, a file name or a
  remote host may contain, makes \<open>vfprintf\<close> or \<open>vsyslog\<close> fetch an argument that was never
  passed: undefined behaviour, whenever the level is in the mask and a logger exists.
\<close>

theorem log_string_is_a_format:
  assumes "log_reachable w" "le_localtime env" "CHR 0x00 \<notin> set (s @ CHR ''%'' # r)" "CHR ''%'' \<notin> set s"
  shows "Log_string env level s w = Return () (w\<lparr>lg_out := lg_out w @ log_emits env level s w\<rparr>) \<and>
    (level AND logger_mask w \<noteq> 0 \<and> logger w \<noteq> [] \<and>
     (snd (parse_spec r) = [] \<or> hd (snd (parse_spec r)) \<noteq> CHR ''%'') \<longrightarrow>
     Log_string env level (s @ CHR ''%'' # r) w = Undef)"
proof -
  have ok: "log_ok w" using assms(1) by (rule log_reachable_ok)
  have cs: "c_str s = s" "c_str (s @ CHR ''%'' # r) = s @ CHR ''%'' # r"
    using assms(3) unfolding c_str_def takeWhile_eq_all_conv by auto
  have bad: "Log env level f [] w = Undef"
    if "vformat f [] = None" "level AND logger_mask w \<noteq> 0" "logger w \<noteq> []" for f
  proof -
    have "last (logger w) \<in> dom (lg_heap w)" using that(3) log_ok_fields(3) [OF ok] by fastforce
    moreover from this have "last (logger w) \<noteq> 0" using log_ok_fields(4) [OF ok] by (metis domIff)
    ultimately show ?thesis using that log_ok_fields(1) [OF ok]
      by (auto simp: Log_def logger_lock_def mutex_lock_def Log_stream_def Let_def
          split: option.splits log_type.splits)
  qed
  show ?thesis
    using Log_eq [OF ok assms(2) vformat_plain [OF assms(4)]] bad vformat_no_args [OF assms(4)]
    unfolding Log_string_def cs by blast
qed

section \<open>Witnesses\<close>

definition stdout_world :: log_world where
  "stdout_world = log_added 1 \<lparr>lg_type = StdOut, lg_filename = None, lg_fh = None, lg_ident = None, lg_option = -1,
     lg_facility = -1\<rparr> log_init"

definition clock_env :: log_env where
  "clock_env = \<lparr>le_localtime = True, le_strerror = [], le_timestamp = ''[01/Jan/2012:00:00:00 +0000]''\<rparr>"

lemma stdout_world_reachable: "log_reachable stdout_world"
proof -
  have "csLog_ctor_stdout 1 log_init = Return () stdout_world"
    by (simp add: csLog_ctor_stdout_def log_new_def Initialize_eq stdout_world_def log_added_def
        log_init_def)
  then show ?thesis
    by (intro log_reachable.step [OF log_reachable.start] log_step.new_stdout [of 1])
      (simp_all add: log_init_def)
qed

lemma stdout_world_simps [simp]:
  "logger stdout_world = [1]" "logger_mask stdout_world = Level_Everything"
  "syslog_set (lg_heap stdout_world) = {}" "lg_out stdout_world = []" "2 \<notin> dom (lg_heap stdout_world)"
  "\<exists>l. lg_heap stdout_world (Suc 0) = Some l \<and> lg_type l = StdOut"
  by (auto simp: stdout_world_def log_added_def log_init_def syslog_set_def split: if_splits)

theorem logging_correct_witness:
  "\<exists>w'. Log clock_env Level_Error ''Error %d'' [ArgI 5] stdout_world = Return () w' \<and>
    lg_out w' = [(Sink_stderr, ''[01/Jan/2012:00:00:00 +0000] [Error]: Error 5'' @ [CHR 0x0A])]"
proof -
  have t: "vformat ''Error %d'' [ArgI 5] = Some ''Error 5''"
    by (simp add: parse_spec_def is_digit_def convert_arg_def show_int_def show_base.simps
        digit_char_def pad_left_def read_base_def)
  show ?thesis
    using logging_correct [OF stdout_world_reachable, of clock_env _ _ _ Level_Error, OF _ t]
    by (auto simp: clock_env_def log_emits_def log_target_def log_text_def level_tag_def level_values
        stdout_world_def log_added_def log_init_def)
qed

theorem logger_restored_witness:
  "bindO (csLog_ctor_syslog ''clearsyncd'' 1 24 2 stdout_world) (\<lambda>_. csLog_dtor 2) = Return () stdout_world"
  using logger_restored [OF stdout_world_reachable, of 2] by simp

theorem log_string_is_a_format_witness:
  "Log_string clock_env Level_Info (''100'' @ CHR ''%'' # ''s'') stdout_world = Undef"
  using log_string_is_a_format [OF stdout_world_reachable, of clock_env "''100''" "''s''" Level_Info]
  by (simp add: clock_env_def level_values parse_spec_def is_digit_def)

end
