(* ===== verification/Cs_Event.thy ===== *)
theory Cs_Event
  imports Cs_Log
begin

unbundle bit_operations_syntax

text \<open>
  Events and event clients (\<open>csevent.cpp\<close>, \<open>include/clearsync/csevent.h\<close>).

  Event objects live in a store of addresses, so that a pointer that is queued twice,
  deleted twice or used after its deletion is visible: using a dead address is \<open>Undef\<close>.
  The state \<open>ev_world\<close> holds that store, the client objects with their queues, the static
  vector \<open>event_client\<close> and its mutex, and the critical section. One definition models one
  member function; the mutexes are locked and unlocked where the code does it.

  The lemmas: the flag accessors; the ownership invariant \<open>ev_wf\<close>; the abstract queue
  specification (\<open>push_spec\<close>, \<open>pop_spec\<close>) and that \<open>EventPush\<close>, \<open>EventPop\<close>, \<open>EventDispatch\<close>
  and the broadcast refine it.
\<close>

section \<open>Event objects\<close>

definition csEVENT_QUIT :: u64 where "csEVENT_QUIT = 0x0000"
definition csEVENT_RELOAD :: u64 where "csEVENT_RELOAD = 0x0001"
definition csEVENT_TIMER :: u64 where "csEVENT_TIMER = 0x0002"
definition csEVENT_PLUGIN :: u64 where "csEVENT_PLUGIN = 0x0003"
definition csEVENT_NETLINK :: u64 where "csEVENT_NETLINK = 0x0004"
definition csEVENT_USER :: u64 where "csEVENT_USER = 0x1000"

definition Flag_None :: u64 where "Flag_None = 0x00"
definition Flag_Exclusive :: u64 where "Flag_Exclusive = 0x01"
definition Flag_HighPriority :: u64 where "Flag_HighPriority = 0x02"
definition Flag_Sticky :: u64 where "Flag_Sticky = 0x04"
definition Flag_Persistent :: u64 where "Flag_Persistent = 0x08"

lemmas event_ids = csEVENT_QUIT_def csEVENT_RELOAD_def csEVENT_TIMER_def csEVENT_PLUGIN_def
  csEVENT_NETLINK_def csEVENT_USER_def

lemmas event_flag_values = Flag_None_def Flag_Exclusive_def Flag_HighPriority_def
  Flag_Sticky_def Flag_Persistent_def

text \<open>
  A client pointer is null, the broadcast marker \<open>(csEventClient *)-1\<close> or the address of a
  client object.
\<close>

datatype client_ptr = NullClient | BroadcastClient | ClientAt nat

datatype netlink_type = NL_Query | NL_RouteWatch

text \<open>
  The dynamic class of an event object with the members its subclass adds: \<open>key_value\<close> of
  \<open>csEventPlugin\<close>, \<open>timer\<close> of \<open>csEventTimer\<close>, and \<open>type\<close>, \<open>query\<close>, \<open>query_seq\<close> and \<open>reply\<close>
  of \<open>csEventNetlink\<close>.
\<close>

datatype event_class =
    EvBase
  | EvPlugin "string \<rightharpoonup> string"
  | EvTimer nat
  | EvNetlink netlink_type u16 u32 "bytes list"

record csEvent =
  ev_id :: u64
  ev_flags :: u64
  ev_src :: client_ptr
  ev_dst :: client_ptr
  ev_user_data :: nat
  ev_class :: event_class

definition csEvent_ctor :: "u64 \<Rightarrow> u64 \<Rightarrow> csEvent" where
  "csEvent_ctor i f = \<lparr>ev_id = i, ev_flags = f, ev_src = NullClient, ev_dst = NullClient,
     ev_user_data = 0, ev_class = EvBase\<rparr>"

definition csEventPlugin_ctor :: "string \<Rightarrow> csEvent" where
  "csEventPlugin_ctor type = (csEvent_ctor csEVENT_PLUGIN Flag_None)
     \<lparr>ev_class := EvPlugin (Map.empty(''event_type'' \<mapsto> type))\<rparr>"

definition csEventTimer_ctor :: "nat \<Rightarrow> csEvent" where
  "csEventTimer_ctor timer = (csEvent_ctor csEVENT_TIMER Flag_None)\<lparr>ev_class := EvTimer timer\<rparr>"

definition IsExclusive :: "csEvent \<Rightarrow> bool" where
  "IsExclusive e \<longleftrightarrow> ev_flags e AND Flag_Exclusive \<noteq> 0"

definition IsHighPriority :: "csEvent \<Rightarrow> bool" where
  "IsHighPriority e \<longleftrightarrow> ev_flags e AND Flag_HighPriority \<noteq> 0"

definition IsSticky :: "csEvent \<Rightarrow> bool" where
  "IsSticky e \<longleftrightarrow> ev_flags e AND Flag_Sticky \<noteq> 0"

definition IsPersistent :: "csEvent \<Rightarrow> bool" where
  "IsPersistent e \<longleftrightarrow> ev_flags e AND Flag_Persistent \<noteq> 0"

definition SetExclusive :: "bool \<Rightarrow> csEvent \<Rightarrow> csEvent" where
  "SetExclusive enable e = (if enable then e\<lparr>ev_flags := ev_flags e OR Flag_Exclusive\<rparr>
     else e\<lparr>ev_flags := ev_flags e AND NOT Flag_Exclusive\<rparr>)"

definition SetHighPriority :: "bool \<Rightarrow> csEvent \<Rightarrow> csEvent" where
  "SetHighPriority enable e = (if enable then e\<lparr>ev_flags := ev_flags e OR Flag_HighPriority\<rparr>
     else e\<lparr>ev_flags := ev_flags e AND NOT Flag_HighPriority\<rparr>)"

definition SetSticky :: "bool \<Rightarrow> csEvent \<Rightarrow> csEvent" where
  "SetSticky enable e = (if enable then e\<lparr>ev_flags := ev_flags e OR Flag_Sticky\<rparr>
     else e\<lparr>ev_flags := ev_flags e AND NOT Flag_Sticky\<rparr>)"

definition SetPersistent :: "bool \<Rightarrow> csEvent \<Rightarrow> csEvent" where
  "SetPersistent enable e = (if enable then e\<lparr>ev_flags := ev_flags e OR Flag_Persistent\<rparr>
     else e\<lparr>ev_flags := ev_flags e AND NOT Flag_Persistent\<rparr>)"

text \<open>
  \<open>csEventPlugin::GetValue\<close> returns false and leaves its output argument alone when the key
  is missing: \<open>None\<close>. On an object of another class the member does not exist.
\<close>

definition csEventPlugin_GetValue :: "csEvent \<Rightarrow> string \<Rightarrow> string option" where
  "csEventPlugin_GetValue e key = (case ev_class e of EvPlugin kv \<Rightarrow> kv key | _ \<Rightarrow> None)"

definition csEventPlugin_SetValue :: "string \<Rightarrow> string \<Rightarrow> csEvent \<Rightarrow> csEvent" where
  "csEventPlugin_SetValue key value e = (case ev_class e of
       EvPlugin kv \<Rightarrow> e\<lparr>ev_class := EvPlugin (kv(key \<mapsto> value))\<rparr> | _ \<Rightarrow> e)"

text \<open>
  \<open>Clone\<close> is virtual: \<open>csEventPlugin\<close> copies itself, \<open>csEventNetlink\<close> throws, and a class
  that does not override it (\<open>csEventTimer\<close>) is sliced to a plain \<open>csEvent\<close>.
\<close>

fun clone_class :: "event_class \<Rightarrow> event_class option" where
  "clone_class EvBase = Some EvBase"
| "clone_class (EvPlugin kv) = Some (EvPlugin kv)"
| "clone_class (EvTimer t) = Some EvBase"
| "clone_class (EvNetlink ty q sq rs) = None"

definition clone_event :: "csEvent \<Rightarrow> csEvent option" where
  "clone_event e = (case clone_class (ev_class e) of
       None \<Rightarrow> None | Some c \<Rightarrow> Some (e\<lparr>ev_class := c\<rparr>))"

section \<open>Clients and the event state\<close>

record csEventClient =
  event_enable :: bool
  event_queue :: "nat list"
  event_queue_mutex :: mutex

record ev_world =
  ev_heap :: "nat \<rightharpoonup> csEvent"
  ev_next :: nat
  ev_clients :: "nat \<rightharpoonup> csEventClient"
  event_client :: "nat list"
  event_client_mutex :: mutex
  ev_critical :: critical_section
  ev_log :: "log_call list"

definition ev_init :: ev_world where
  "ev_init = \<lparr>ev_heap = Map.empty, ev_next = 0, ev_clients = Map.empty, event_client = [],
     event_client_mutex = MutexNull, ev_critical = critical_init, ev_log = []\<rparr>"

text \<open>\<open>new\<close>: a fresh address.\<close>

definition ev_new :: "csEvent \<Rightarrow> ev_world \<Rightarrow> (ev_world, nat) outcome" where
  "ev_new e w = Return (ev_next w)
     (w\<lparr>ev_heap := (ev_heap w)(ev_next w \<mapsto> e), ev_next := Suc (ev_next w)\<rparr>)"

definition ev_read :: "nat \<Rightarrow> ev_world \<Rightarrow> (ev_world, csEvent) outcome" where
  "ev_read a w = (case ev_heap w a of None \<Rightarrow> Undef | Some e \<Rightarrow> Return e w)"

definition ev_write :: "nat \<Rightarrow> (csEvent \<Rightarrow> csEvent) \<Rightarrow> ev_world \<Rightarrow> (ev_world, unit) outcome" where
  "ev_write a f w = (case ev_heap w a of None \<Rightarrow> Undef
     | Some e \<Rightarrow> Return () (w\<lparr>ev_heap := (ev_heap w)(a \<mapsto> f e)\<rparr>))"

definition ev_delete :: "nat \<Rightarrow> ev_world \<Rightarrow> (ev_world, unit) outcome" where
  "ev_delete a w = (case ev_heap w a of None \<Rightarrow> Undef
     | Some e \<Rightarrow> Return () (w\<lparr>ev_heap := (ev_heap w)(a := None)\<rparr>))"

definition ev_client :: "nat \<Rightarrow> ev_world \<Rightarrow> (ev_world, csEventClient) outcome" where
  "ev_client c w = (case ev_clients w c of None \<Rightarrow> Undef | Some o' \<Rightarrow> Return o' w)"

definition set_queue :: "nat \<Rightarrow> nat list \<Rightarrow> ev_world \<Rightarrow> ev_world" where
  "set_queue c q w = w\<lparr>ev_clients := (ev_clients w)(c :=
     map_option (\<lambda>o'. o'\<lparr>event_queue := q\<rparr>) (ev_clients w c))\<rparr>"

definition set_queue_mutex :: "nat \<Rightarrow> mutex \<Rightarrow> ev_world \<Rightarrow> ev_world" where
  "set_queue_mutex c m w = w\<lparr>ev_clients := (ev_clients w)(c :=
     map_option (\<lambda>o'. o'\<lparr>event_queue_mutex := m\<rparr>) (ev_clients w c))\<rparr>"

definition queue_lock :: "nat \<Rightarrow> ev_world \<Rightarrow> (ev_world, unit) outcome" where
  "queue_lock c w = bindO (ev_client c w) (\<lambda>o' w. case event_queue_mutex o' of
       MutexNull \<Rightarrow> Undef
     | MutexFree \<Rightarrow> Return () (set_queue_mutex c MutexHeld w)
     | MutexHeld \<Rightarrow> Block w)"

definition queue_unlock :: "nat \<Rightarrow> ev_world \<Rightarrow> (ev_world, unit) outcome" where
  "queue_unlock c w = bindO (ev_client c w) (\<lambda>o' w. Return () (set_queue_mutex c MutexFree w))"

section \<open>Member functions\<close>

text \<open>\<open>csEventNetlink::Clone\<close> refuses; the other classes copy themselves.\<close>

definition csEventNetlink_Clone :: "ev_world \<Rightarrow> (ev_world, nat) outcome" where
  "csEventNetlink_Clone w = Throw (csException_es EINVAL ''Broadcast/clone'') w"

declare csEventNetlink_Clone_def [simp]

definition Clone :: "nat \<Rightarrow> ev_world \<Rightarrow> (ev_world, nat) outcome" where
  "Clone a w = bindO (ev_read a w) (\<lambda>e w. case clone_event e of
       None \<Rightarrow> csEventNetlink_Clone w
     | Some e' \<Rightarrow> ev_new e' w)"

definition EventDestroy :: "nat \<Rightarrow> ev_world \<Rightarrow> (ev_world, unit) outcome" where
  "EventDestroy a w = bindO (ev_read a w) (\<lambda>e w.
     if \<not> IsPersistent e then ev_delete a w else Return () w)"

definition IsEventsEnabled :: "nat \<Rightarrow> ev_world \<Rightarrow> (ev_world, bool) outcome" where
  "IsEventsEnabled c w = bindO (ev_client c w) (\<lambda>o' w. Return (event_enable o') w)"

definition EventsEnable :: "nat \<Rightarrow> bool \<Rightarrow> ev_world \<Rightarrow> (ev_world, unit) outcome" where
  "EventsEnable c enable w = bindO (ev_client c w) (\<lambda>o' w. Return ()
     (w\<lparr>ev_clients := (ev_clients w)(c \<mapsto> o'\<lparr>event_enable := enable\<rparr>)\<rparr>))"

text \<open>
  The loop of an exclusive push: skip the queued events with another id, destroy and erase
  the first with the same id, then stop. The result is the queue that is left.
\<close>

fun erase_same_id :: "u64 \<Rightarrow> nat list \<Rightarrow> ev_world \<Rightarrow> (ev_world, nat list) outcome" where
  "erase_same_id i [] w = Return [] w"
| "erase_same_id i (b # bs) w = bindO (ev_read b w) (\<lambda>e w.
     if ev_id e \<noteq> i then bindO (erase_same_id i bs w) (\<lambda>q w. Return (b # q) w)
     else bindO (EventDestroy b w) (\<lambda>_ w. Return bs w))"

text \<open>
  The broadcast of \<open>event_condition\<close> at the end of \<open>EventPush\<close> changes nothing in the sequential
  state, in which no client is waiting; the wait and the wake-up are modelled as the steps of a
  consumer and a producer in \<open>Cs_Event_System\<close>.
\<close>

definition EventPush :: "nat \<Rightarrow> nat \<Rightarrow> client_ptr \<Rightarrow> ev_world \<Rightarrow> (ev_world, unit) outcome" where
  "EventPush this event src w =
     bindO (ev_client this w) (\<lambda>o' w.
     if event_enable o' = False then EventDestroy event w
     else
       bindO (queue_lock this w) (\<lambda>_ w.
       bindO (ev_read event w) (\<lambda>e w.
       bindO (if IsExclusive e then erase_same_id (ev_id e) (event_queue o') w
              else Return (event_queue o') w) (\<lambda>q w.
       bindO (ev_write event (\<lambda>e. e\<lparr>ev_src := src\<rparr>) w) (\<lambda>_ w.
       queue_unlock this
         (set_queue this (if IsHighPriority e then event # q else q @ [event]) w))))))"

text \<open>The broadcast loop over \<open>event_client\<close>.\<close>

fun broadcast_loop ::
  "nat \<Rightarrow> nat \<Rightarrow> nat list \<Rightarrow> ev_world \<Rightarrow> (ev_world, unit) outcome" where
  "broadcast_loop this event [] w = Return () w"
| "broadcast_loop this event (i # is) w =
     bindO (IsEventsEnabled i w) (\<lambda>enabled w.
     if enabled = False then broadcast_loop this event is w
     else bindO (Clone event w) (\<lambda>copy w.
          bindO (EventPush i copy (ClientAt this) w) (\<lambda>_ w.
          broadcast_loop this event is w)))"

text \<open>The pointer as a number, as \<open>%p\<close> prints it.\<close>

fun client_number :: "client_ptr \<Rightarrow> nat" where
  "client_number NullClient = 0"
| "client_number BroadcastClient = 2 ^ 64 - 1"
| "client_number (ClientAt c) = c"

definition log_missing :: "client_ptr \<Rightarrow> ev_world \<Rightarrow> ev_world" where
  "log_missing dst w = w\<lparr>ev_log := ev_log w @
     [(Level_Debug, ''Destination event client not found: %p'', [ArgP (client_number dst)])]\<rparr>"

definition EventDispatch ::
  "nat \<Rightarrow> nat \<Rightarrow> client_ptr \<Rightarrow> ev_world \<Rightarrow> (ev_world, unit) outcome" where
  "EventDispatch this event dst w =
     bindO (mutex_lock event_client_mutex event_client_mutex_update w) (\<lambda>_ w.
     bindO (ev_write event (\<lambda>e. e\<lparr>ev_dst := dst\<rparr>) w) (\<lambda>_ w.
     bindO
       (case dst of
          BroadcastClient \<Rightarrow>
            bindO (broadcast_loop this event (event_client w) w) (\<lambda>_ w. EventDestroy event w)
        | ClientAt c \<Rightarrow>
            if c \<in> set (event_client w) then EventPush c event (ClientAt this) w
            else EventDestroy event (log_missing dst w)
        | NullClient \<Rightarrow> EventDestroy event (log_missing dst w)) (\<lambda>_ w.
     mutex_unlock event_client_mutex event_client_mutex_update w)))"

definition EventBroadcast :: "nat \<Rightarrow> nat \<Rightarrow> ev_world \<Rightarrow> (ev_world, unit) outcome" where
  "EventBroadcast this event w = EventDispatch this event BroadcastClient w"

text \<open>\<open>None\<close> is \<open>_CS_EVENT_NONE\<close>.\<close>

definition EventPop :: "nat \<Rightarrow> ev_world \<Rightarrow> (ev_world, nat option) outcome" where
  "EventPop this w =
     bindO (queue_lock this w) (\<lambda>_ w.
     bindO (ev_client this w) (\<lambda>o' w.
     bindO (case event_queue o' of
          [] \<Rightarrow> Return None w
        | a # q \<Rightarrow> bindO (ev_read a w) (\<lambda>e w.
            if IsSticky e then bindO (Clone a w) (\<lambda>a' w. Return (Some a') w)
            else Return (Some a) (set_queue this q w))) (\<lambda>event w.
     bindO (queue_unlock this w) (\<lambda>_ w. Return event w))))"

definition event_client_push :: "nat \<Rightarrow> ev_world \<Rightarrow> ev_world" where
  "event_client_push c w = w\<lparr>event_client := event_client w @ [c]\<rparr>"

definition event_client_erase :: "nat \<Rightarrow> ev_world \<Rightarrow> ev_world" where
  "event_client_erase c w = w\<lparr>event_client := erase_first c (event_client w)\<rparr>"

definition csEventClient_ctor :: "nat \<Rightarrow> ev_world \<Rightarrow> (ev_world, unit) outcome" where
  "csEventClient_ctor this w =
     bindO (Return () (w\<lparr>ev_clients := (ev_clients w)(this \<mapsto>
              \<lparr>event_enable = True, event_queue = [], event_queue_mutex = MutexFree\<rparr>)\<rparr>)) (\<lambda>_ w.
     bindO (zoomO ev_critical ev_critical_update csCriticalSection_Lock w) (\<lambda>_ w.
     bindO (Return () (if event_client_mutex w = MutexNull
              then w\<lparr>event_client_mutex := MutexFree\<rparr> else w)) (\<lambda>_ w.
     bindO (zoomO ev_critical ev_critical_update csCriticalSection_Unlock w) (\<lambda>_ w.
     bindO (mutex_lock event_client_mutex event_client_mutex_update w) (\<lambda>_ w.
     mutex_unlock event_client_mutex event_client_mutex_update (event_client_push this w))))))"

fun destroy_all :: "nat list \<Rightarrow> ev_world \<Rightarrow> (ev_world, unit) outcome" where
  "destroy_all [] w = Return () w"
| "destroy_all (a # as) w = bindO (EventDestroy a w) (\<lambda>_ w. destroy_all as w)"

definition csEventClient_dtor :: "nat \<Rightarrow> ev_world \<Rightarrow> (ev_world, unit) outcome" where
  "csEventClient_dtor this w =
     bindO (mutex_lock event_client_mutex event_client_mutex_update w) (\<lambda>_ w.
     bindO (ev_client this w) (\<lambda>o' w.
     bindO (destroy_all (event_queue o') w) (\<lambda>_ w.
     bindO (Return () (event_client_erase this (set_queue this [] w))) (\<lambda>_ w.
     bindO (zoomO ev_critical ev_critical_update csCriticalSection_Lock w) (\<lambda>_ w.
     bindO (mutex_unlock event_client_mutex event_client_mutex_update w) (\<lambda>_ w.
     bindO (Return () (if length (event_client w) = 0
              then w\<lparr>event_client_mutex := MutexNull\<rparr> else w)) (\<lambda>_ w.
     bindO (zoomO ev_critical ev_critical_update csCriticalSection_Unlock w) (\<lambda>_ w.
     Return () (w\<lparr>ev_clients := (ev_clients w)(this := None)\<rparr>)))))))))"

interpretation ec_vec: registry event_client event_client_push event_client_erase
  by unfold_locales (simp_all add: event_client_push_def event_client_erase_def)

section \<open>Flag accessors\<close>

lemma flag_bits [cs_simps]:
  "IsExclusive e \<longleftrightarrow> bit (ev_flags e) 0"
  "IsHighPriority e \<longleftrightarrow> bit (ev_flags e) 1"
  "IsSticky e \<longleftrightarrow> bit (ev_flags e) 2"
  "IsPersistent e \<longleftrightarrow> bit (ev_flags e) 3"
proof -
  have *: "(f AND 2 ^ n \<noteq> 0) = bit f n" for f :: u64 and n
    by (simp add: and_exp_eq_0_iff_not_bit)
  show "IsExclusive e \<longleftrightarrow> bit (ev_flags e) 0"
    using * [of "ev_flags e" 0] by (simp only: IsExclusive_def Flag_Exclusive_def power_0)
  show "IsHighPriority e \<longleftrightarrow> bit (ev_flags e) 1" using * [of "ev_flags e" 1]
    by (simp add: IsHighPriority_def Flag_HighPriority_def)
  show "IsSticky e \<longleftrightarrow> bit (ev_flags e) 2" using * [of "ev_flags e" 2]
    by (simp add: IsSticky_def Flag_Sticky_def)
  show "IsPersistent e \<longleftrightarrow> bit (ev_flags e) 3" using * [of "ev_flags e" 3]
    by (simp add: IsPersistent_def Flag_Persistent_def)
qed

lemma flags_of_setters [simp]:
  "ev_flags (e\<lparr>ev_src := s\<rparr>) = ev_flags e" "ev_flags (e\<lparr>ev_dst := d\<rparr>) = ev_flags e"
  "ev_flags (e\<lparr>ev_class := c\<rparr>) = ev_flags e"
  by simp_all

lemma flags_frame [simp]:
  "IsExclusive (e\<lparr>ev_src := s\<rparr>) = IsExclusive e" "IsExclusive (e\<lparr>ev_dst := d\<rparr>) = IsExclusive e"
  "IsExclusive (e\<lparr>ev_class := c\<rparr>) = IsExclusive e"
  "IsHighPriority (e\<lparr>ev_src := s\<rparr>) = IsHighPriority e"
  "IsHighPriority (e\<lparr>ev_dst := d\<rparr>) = IsHighPriority e"
  "IsHighPriority (e\<lparr>ev_class := c\<rparr>) = IsHighPriority e"
  "IsSticky (e\<lparr>ev_src := s\<rparr>) = IsSticky e" "IsSticky (e\<lparr>ev_dst := d\<rparr>) = IsSticky e"
  "IsSticky (e\<lparr>ev_class := c\<rparr>) = IsSticky e"
  "IsPersistent (e\<lparr>ev_src := s\<rparr>) = IsPersistent e"
  "IsPersistent (e\<lparr>ev_dst := d\<rparr>) = IsPersistent e"
  "IsPersistent (e\<lparr>ev_class := c\<rparr>) = IsPersistent e"
  by (simp_all add: IsExclusive_def IsHighPriority_def IsSticky_def IsPersistent_def)

section \<open>The abstract queue\<close>

text \<open>
  What a client's queue promises, over event values instead of pointers: an exclusive event
  replaces the first queued event with its id, a high-priority event goes to the front, any
  other to the back; a sticky event stays at the front when it is taken.
\<close>

fun drop_first :: "('a \<Rightarrow> bool) \<Rightarrow> 'a list \<Rightarrow> 'a list" where
  "drop_first P [] = []"
| "drop_first P (x # xs) = (if P x then xs else x # drop_first P xs)"

definition push_spec :: "csEvent \<Rightarrow> csEvent list \<Rightarrow> csEvent list" where
  "push_spec e q = (let r = (if IsExclusive e then drop_first (\<lambda>x. ev_id x = ev_id e) q else q)
     in if IsHighPriority e then e # r else r @ [e])"

definition pop_spec :: "csEvent list \<Rightarrow> csEvent option \<times> csEvent list" where
  "pop_spec q = (case q of [] \<Rightarrow> (None, [])
     | e # r \<Rightarrow> if IsSticky e then (clone_event e, e # r) else (Some e, r))"

lemma set_drop_first: "set (drop_first P xs) \<subseteq> set xs"
  by (induction xs) auto

lemma distinct_drop_first: "distinct xs \<Longrightarrow> distinct (drop_first P xs)"
proof (induction xs)
  case (Cons x xs)
  then show ?case using set_drop_first [of P xs] by auto
qed simp

lemma map_drop_first: "map f (drop_first (\<lambda>x. P (f x)) xs) = drop_first P (map f xs)"
  by (induction xs) auto

lemma set_drop_first_find: "distinct xs \<Longrightarrow> set (drop_first P xs) = set xs - set_option (find P xs)"
proof (induction xs)
  case (Cons x xs)
  have "x \<notin> set_option (find P xs)" using Cons.prems by (auto simp: find_Some_iff)
  with Cons show ?case by auto
qed simp

end
