(* ===== verification/Cs_Event_Queue.thy ===== *)
theory Cs_Event_Queue
  imports Cs_Event
begin

text \<open>
  Correctness of the event queues of \<open>csevent.cpp\<close>: the ownership invariant, one equation
  per operation under it, and the refinement of the abstract queue.

  \<open>ev_core\<close> says that the client objects are exactly the registered ones, that their queues
  hold live events, each in one queue once, and that no queue mutex is held; \<open>ev_wf\<close> adds
  the registry mutex between two operations. \<open>loose\<close> events are alive but in no queue: the
  ones a thread holds between \<open>new\<close> or \<open>EventPop\<close> and \<open>EventDispatch\<close> or \<open>EventDestroy\<close>.
\<close>

section \<open>The invariant\<close>

definition queued :: "ev_world \<Rightarrow> nat set" where
  "queued w = (\<Union>ob \<in> ran (ev_clients w). set (event_queue ob))"

definition loose :: "ev_world \<Rightarrow> nat set" where
  "loose w = dom (ev_heap w) - queued w"

definition ev_core :: "ev_world \<Rightarrow> bool" where
  "ev_core w \<longleftrightarrow>
     dom (ev_clients w) = set (event_client w) \<and> distinct (event_client w) \<and>
     critical_free (ev_critical w) \<and>
     (\<forall>a \<in> dom (ev_heap w). a < ev_next w) \<and>
     (\<forall>c ob. ev_clients w c = Some ob \<longrightarrow> event_queue_mutex ob = MutexFree \<and>
        distinct (event_queue ob) \<and> set (event_queue ob) \<subseteq> dom (ev_heap w)) \<and>
     (\<forall>c d o1 o2. ev_clients w c = Some o1 \<longrightarrow> ev_clients w d = Some o2 \<longrightarrow> c \<noteq> d \<longrightarrow>
        set (event_queue o1) \<inter> set (event_queue o2) = {})"

definition ev_wf :: "ev_world \<Rightarrow> bool" where
  "ev_wf w \<longleftrightarrow> ev_core w \<and>
     event_client_mutex w = (if event_client w = [] then MutexNull else MutexFree)"

lemma queued_iff:
  "b \<in> queued w \<longleftrightarrow> (\<exists>c ob. ev_clients w c = Some ob \<and> b \<in> set (event_queue ob))"
  by (auto simp: queued_def ran_def)

lemma queued_split:
  assumes "ev_clients w c = Some ob"
  shows "b \<in> queued w \<longleftrightarrow> b \<in> set (event_queue ob) \<or>
    (\<exists>d o2. d \<noteq> c \<and> ev_clients w d = Some o2 \<and> b \<in> set (event_queue o2))"
  unfolding queued_iff using assms by (metis option.inject)

lemma ev_coreD:
  assumes "ev_core w" "ev_clients w c = Some ob"
  shows "event_queue_mutex ob = MutexFree" "distinct (event_queue ob)"
    "set (event_queue ob) \<subseteq> dom (ev_heap w)" "set (event_queue ob) \<subseteq> queued w"
  using assms by (auto simp: ev_core_def queued_def ran_def)

lemma ev_core_fields:
  assumes "ev_core w"
  shows "dom (ev_clients w) = set (event_client w)" "distinct (event_client w)"
    "critical_free (ev_critical w)" "dom (ev_heap w) \<subseteq> {..<ev_next w}"
  using assms by (auto simp: ev_core_def)

lemma ev_coreI:
  assumes "dom (ev_clients w) = set (event_client w)" "distinct (event_client w)"
    "critical_free (ev_critical w)" "dom (ev_heap w) \<subseteq> {..<ev_next w}"
    and "\<And>c ob. ev_clients w c = Some ob \<Longrightarrow> event_queue_mutex ob = MutexFree"
    and "\<And>c ob. ev_clients w c = Some ob \<Longrightarrow> distinct (event_queue ob)"
    and "\<And>c ob. ev_clients w c = Some ob \<Longrightarrow> set (event_queue ob) \<subseteq> dom (ev_heap w)"
    and "\<And>c d o1 o2. ev_clients w c = Some o1 \<Longrightarrow> ev_clients w d = Some o2 \<Longrightarrow> c \<noteq> d \<Longrightarrow>
        set (event_queue o1) \<inter> set (event_queue o2) = {}"
  shows "ev_core w"
  unfolding ev_core_def using assms by blast

lemma ev_core_disjoint:
  assumes "ev_core w" "ev_clients w c = Some o1" "ev_clients w d = Some o2" "c \<noteq> d"
  shows "set (event_queue o1) \<inter> set (event_queue o2) = {}"
  using assms by (auto simp: ev_core_def)

lemma queued_live: "ev_core w \<Longrightarrow> queued w \<subseteq> dom (ev_heap w)"
  using ev_coreD(3) by (fastforce simp: queued_def ran_def)

lemma ev_next_fresh: "ev_core w \<Longrightarrow> ev_heap w (ev_next w) = None"
  by (auto simp: ev_core_def)

lemma ev_next_not_queued: "ev_core w \<Longrightarrow> ev_next w \<notin> queued w"
  using queued_live ev_next_fresh by fastforce

lemma ev_core_registered: "ev_core w \<Longrightarrow> c \<in> set (event_client w) \<longleftrightarrow> (\<exists>ob. ev_clients w c = Some ob)"
  by (auto simp: ev_core_def)

text \<open>The abstraction: each client's queue as a list of event values.\<close>

definition abs_queue :: "ev_world \<Rightarrow> nat \<Rightarrow> csEvent list option" where
  "abs_queue w c = map_option (\<lambda>ob. map (\<lambda>a. the (ev_heap w a)) (event_queue ob)) (ev_clients w c)"

definition enabled :: "ev_world \<Rightarrow> nat \<Rightarrow> bool" where
  "enabled w c \<longleftrightarrow> (\<exists>ob. ev_clients w c = Some ob \<and> event_enable ob)"

section \<open>What the primitives return\<close>

lemma client_mutex_same [simp]:
  "event_queue_mutex ob = MutexFree \<Longrightarrow> ob\<lparr>event_queue_mutex := MutexFree\<rparr> = ob"
  by (cases ob) simp

lemmas ev_prims = ev_new_def ev_read_def ev_write_def ev_delete_def ev_client_def
  set_queue_def set_queue_mutex_def queue_lock_def queue_unlock_def

definition kill :: "nat \<Rightarrow> (nat \<rightharpoonup> csEvent) \<Rightarrow> (nat \<rightharpoonup> csEvent)" where
  "kill a h = (if \<exists>e. h a = Some e \<and> \<not> IsPersistent e then h(a := None) else h)"

definition kill_option :: "nat option \<Rightarrow> (nat \<rightharpoonup> csEvent) \<Rightarrow> (nat \<rightharpoonup> csEvent)" where
  "kill_option v h = (case v of None \<Rightarrow> h | Some a \<Rightarrow> kill a h)"

lemma EventDestroy_eq:
  "ev_heap w a = Some e \<Longrightarrow> EventDestroy a w = Return () (w\<lparr>ev_heap := kill a (ev_heap w)\<rparr>)"
  by (simp add: EventDestroy_def ev_prims kill_def)

lemma EventDestroy_dead: "ev_heap w a = None \<Longrightarrow> EventDestroy a w = Undef"
  by (simp add: EventDestroy_def ev_prims)

lemma Clone_eq:
  "ev_heap w a = Some e \<Longrightarrow> clone_event e = Some e' \<Longrightarrow> Clone a w = Return (ev_next w)
     (w\<lparr>ev_heap := (ev_heap w)(ev_next w \<mapsto> e'), ev_next := Suc (ev_next w)\<rparr>)"
  by (simp add: Clone_def ev_prims)

lemma erase_same_id_eq:
  assumes "set q \<subseteq> dom (ev_heap w)"
  shows "erase_same_id i q w =
    Return (drop_first (\<lambda>b. ev_id (the (ev_heap w b)) = i) q)
      (w\<lparr>ev_heap := kill_option (find (\<lambda>b. ev_id (the (ev_heap w b)) = i) q) (ev_heap w)\<rparr>)"
  using assms
proof (induction q)
  case Nil
  then show ?case by (simp add: kill_option_def)
next
  case (Cons b q)
  then obtain e where e: "ev_heap w b = Some e" by auto
  show ?case
  proof (cases "ev_id e = i")
    case True
    with e show ?thesis by (simp add: ev_read_def EventDestroy_eq kill_option_def)
  next
    case False
    with e Cons show ?thesis by (simp add: ev_read_def)
  qed
qed

lemma kill_other [simp]: "a \<noteq> b \<Longrightarrow> kill b h a = h a"
  by (simp add: kill_def)

lemma kill_option_other [simp]: "a \<notin> set_option v \<Longrightarrow> kill_option v h a = h a"
  by (cases v) (auto simp: kill_option_def)

lemma dom_kill_subset: "dom (kill_option v h) \<subseteq> dom h"
  by (cases v) (auto simp: kill_option_def kill_def)

section \<open>EventPush\<close>

definition push_victim :: "csEvent \<Rightarrow> nat list \<Rightarrow> (nat \<rightharpoonup> csEvent) \<Rightarrow> nat option" where
  "push_victim e q h = (if IsExclusive e then find (\<lambda>b. ev_id (the (h b)) = ev_id e) q else None)"

definition push_rest :: "csEvent \<Rightarrow> nat list \<Rightarrow> (nat \<rightharpoonup> csEvent) \<Rightarrow> nat list" where
  "push_rest e q h =
     (if IsExclusive e then drop_first (\<lambda>b. ev_id (the (h b)) = ev_id e) q else q)"

definition pushed :: "nat \<Rightarrow> nat \<Rightarrow> client_ptr \<Rightarrow> csEvent \<Rightarrow> csEventClient \<Rightarrow> ev_world \<Rightarrow> ev_world" where
  "pushed c a src e ob w =
     (let r = push_rest e (event_queue ob) (ev_heap w) in
      w\<lparr>ev_heap := (kill_option (push_victim e (event_queue ob) (ev_heap w)) (ev_heap w))
                     (a \<mapsto> e\<lparr>ev_src := src\<rparr>),
        ev_clients := (ev_clients w)(c \<mapsto> ob\<lparr>event_queue :=
           (if IsHighPriority e then a # r else r @ [a])\<rparr>)\<rparr>)"

lemma push_victim_in: "v \<in> set_option (push_victim e q h) \<Longrightarrow> v \<in> set q"
  by (auto simp: push_victim_def find_Some_iff split: if_splits)

lemma set_push_rest: "distinct q \<Longrightarrow> set (push_rest e q h) = set q - set_option (push_victim e q h)"
  by (simp add: push_rest_def push_victim_def set_drop_first_find)

lemma distinct_push_rest: "distinct q \<Longrightarrow> distinct (push_rest e q h)"
  by (simp add: push_rest_def distinct_drop_first)

lemma EventPush_eq:
  assumes "ev_core w" "ev_clients w c = Some ob" "event_enable ob" "ev_heap w a = Some e"
    "a \<notin> set (event_queue ob)"
  shows "EventPush c a src w = Return () (pushed c a src e ob w)"
proof -
  note [simp] = ev_coreD [OF assms(1,2)]
  let ?h = "kill_option (push_victim e (event_queue ob) (ev_heap w)) (ev_heap w)"
  have "a \<notin> set_option (push_victim e (event_queue ob) (ev_heap w))"
    using assms(5) push_victim_in by blast
  then have keep: "?h a = Some e" using assms(4) by simp
  have step: "(if IsExclusive e then erase_same_id (ev_id e) (event_queue ob) w2
      else Return (event_queue ob) w2) = Return (push_rest e (event_queue ob) (ev_heap w))
        (w2\<lparr>ev_heap := ?h\<rparr>)"
    if "ev_heap w2 = ev_heap w" for w2 :: ev_world
    using that erase_same_id_eq [of "event_queue ob" w2 "ev_id e"]
    by (auto simp: push_rest_def push_victim_def kill_option_def)
  show ?thesis
    using assms keep
    by (simp add: step EventPush_def ev_prims pushed_def Let_def split del: if_split)
qed

lemma EventPush_disabled:
  assumes "ev_clients w c = Some ob" "\<not> event_enable ob" "ev_heap w a = Some e"
  shows "EventPush c a src w = Return () (w\<lparr>ev_heap := kill a (ev_heap w)\<rparr>)"
  using assms by (simp add: EventPush_def ev_client_def EventDestroy_eq)

text \<open>The pushed event and the replaced one apart, nothing in the store changes.\<close>

lemma pushed_frame [simp]:
  "event_client (pushed c a src e ob w) = event_client w"
  "event_client_mutex (pushed c a src e ob w) = event_client_mutex w"
  "ev_critical (pushed c a src e ob w) = ev_critical w"
  "ev_next (pushed c a src e ob w) = ev_next w"
  "ev_heap (pushed c a src e ob w) a = Some (e\<lparr>ev_src := src\<rparr>)"
  by (simp_all add: pushed_def Let_def)

lemma pushed_heap_other:
  "b \<noteq> a \<Longrightarrow> b \<notin> set_option (push_victim e (event_queue ob) (ev_heap w)) \<Longrightarrow>
     ev_heap (pushed c a src e ob w) b = ev_heap w b"
  by (simp add: pushed_def Let_def)

lemma pushed_heap_unqueued:
  assumes "ev_clients w c = Some ob" "b \<noteq> a" "b \<notin> queued w"
  shows "ev_heap (pushed c a src e ob w) b = ev_heap w b"
  using assms push_victim_in [of b e "event_queue ob" "ev_heap w"]
  by (intro pushed_heap_other) (auto simp: queued_def ran_def)

lemma dom_pushed: "ev_heap w a = Some e \<Longrightarrow> dom (ev_heap (pushed c a src e ob w)) \<subseteq> dom (ev_heap w)"
  using dom_kill_subset [of "push_victim e (event_queue ob) (ev_heap w)" "ev_heap w"]
  by (auto simp: pushed_def Let_def)

lemma pushed_clients:
  "ev_clients (pushed c a src e ob w) d = (if d = c then Some (ob\<lparr>event_queue :=
     (if IsHighPriority e then a # push_rest e (event_queue ob) (ev_heap w)
      else push_rest e (event_queue ob) (ev_heap w) @ [a])\<rparr>) else ev_clients w d)"
  by (simp add: pushed_def Let_def)

lemma enabled_pushed [simp]:
  "ev_clients w c = Some ob \<Longrightarrow> enabled (pushed c a src e ob w) d = enabled w d"
  by (auto simp: enabled_def pushed_clients)

lemma pushed_queue_heap:
  assumes "ev_core w" "ev_clients w c = Some ob" "a \<notin> queued w" "ev_clients w d = Some o2"
    and "b \<in> set (if d = c then push_rest e (event_queue ob) (ev_heap w) else event_queue o2)"
  shows "ev_heap (pushed c a src e ob w) b = ev_heap w b"
proof (rule pushed_heap_other)
  have q: "b \<in> set (event_queue o2)"
    using assms set_push_rest [OF ev_coreD(2) [OF assms(1,2)]] by (auto split: if_splits)
  then show "b \<noteq> a" using assms ev_coreD(4) by blast
  show "b \<notin> set_option (push_victim e (event_queue ob) (ev_heap w))"
  proof (cases "d = c")
    case True
    with assms show ?thesis using set_push_rest [OF ev_coreD(2) [OF assms(1,2)]] by auto
  next
    case False
    with assms q ev_core_disjoint [OF assms(1,2,4)] push_victim_in show ?thesis by blast
  qed
qed

lemma queued_pushed:
  assumes "ev_core w" "ev_clients w c = Some ob"
  shows "queued (pushed c a src e ob w) =
    insert a (queued w - set_option (push_victim e (event_queue ob) (ev_heap w)))" (is "?L = ?R")
proof (rule set_eqI)
  fix b
  let ?v = "set_option (push_victim e (event_queue ob) (ev_heap w))"
  have new: "set (if IsHighPriority e then a # push_rest e (event_queue ob) (ev_heap w)
      else push_rest e (event_queue ob) (ev_heap w) @ [a]) = insert a (set (event_queue ob) - ?v)"
    using set_push_rest [OF ev_coreD(2) [OF assms]] by auto
  have "b \<in> ?L \<longleftrightarrow> (b = a \<or> b \<in> set (event_queue ob) - ?v) \<or>
      (\<exists>d o2. d \<noteq> c \<and> ev_clients w d = Some o2 \<and> b \<in> set (event_queue o2))"
  proof
    assume "b \<in> ?L"
    then obtain d o2 where "ev_clients (pushed c a src e ob w) d = Some o2" "b \<in> set (event_queue o2)"
      unfolding queued_iff by blast
    then show "(b = a \<or> b \<in> set (event_queue ob) - ?v) \<or>
      (\<exists>d o2. d \<noteq> c \<and> ev_clients w d = Some o2 \<and> b \<in> set (event_queue o2))"
      using new by (cases "d = c") (auto simp: pushed_clients)
  next
    assume "(b = a \<or> b \<in> set (event_queue ob) - ?v) \<or>
      (\<exists>d o2. d \<noteq> c \<and> ev_clients w d = Some o2 \<and> b \<in> set (event_queue o2))"
    then show "b \<in> ?L"
    proof
      assume "b = a \<or> b \<in> set (event_queue ob) - ?v"
      then show ?thesis using new unfolding queued_iff
        by (intro exI [of _ c]) (auto simp: pushed_clients)
    next
      assume "\<exists>d o2. d \<noteq> c \<and> ev_clients w d = Some o2 \<and> b \<in> set (event_queue o2)"
      then show ?thesis unfolding queued_iff by (metis pushed_clients)
    qed
  qed
  also have "\<dots> \<longleftrightarrow> b \<in> ?R"
  proof -
    note q = queued_split [OF assms(2), of b]
    have v: "b \<in> ?v \<Longrightarrow> b \<in> set (event_queue ob)" using push_victim_in by blast
    have "b \<in> ?v \<Longrightarrow> d \<noteq> c \<Longrightarrow> ev_clients w d = Some o2 \<Longrightarrow> b \<notin> set (event_queue o2)" for d o2
      using v ev_core_disjoint [OF assms(1) assms(2)] by blast
    with q v show ?thesis by blast
  qed
  finally show "b \<in> ?L \<longleftrightarrow> b \<in> ?R" .
qed

lemma pushed_queue_set:
  assumes "ev_core w" "ev_clients w c = Some ob" "a \<notin> queued w"
    "ev_clients (pushed c a src e ob w) d = Some o2"
  shows "event_queue_mutex o2 = MutexFree" "distinct (event_queue o2)"
    "set (event_queue o2) \<subseteq> dom (ev_heap (pushed c a src e ob w))"
proof -
  note ob = ev_coreD [OF assms(1,2)]
  have rest: "set (push_rest e (event_queue ob) (ev_heap w)) \<subseteq> set (event_queue ob)"
    using set_push_rest [OF ob(2)] by blast
  have a: "a \<notin> set (event_queue ob)" using assms(3) ob(4) by blast
  show "event_queue_mutex o2 = MutexFree"
    using assms ob(1) ev_coreD(1) by (auto simp: pushed_clients split: if_splits)
  show "distinct (event_queue o2)"
    using assms(4) ev_coreD(2) [OF assms(1)] distinct_push_rest [OF ob(2)] rest a
    by (auto simp: pushed_clients split: if_splits)
  show "set (event_queue o2) \<subseteq> dom (ev_heap (pushed c a src e ob w))"
  proof
    fix b
    assume b: "b \<in> set (event_queue o2)"
    show "b \<in> dom (ev_heap (pushed c a src e ob w))"
    proof (cases "b = a")
      case False
      obtain o3 where o3: "ev_clients w d = Some o3"
        using assms(2,4) by (auto simp: pushed_clients split: if_splits)
      have "b \<in> set (if d = c then push_rest e (event_queue ob) (ev_heap w) else event_queue o3)"
        using assms(4) b False o3 by (auto simp: pushed_clients split: if_splits)
      then have "ev_heap (pushed c a src e ob w) b = ev_heap w b" "b \<in> set (event_queue o3)"
        using pushed_queue_heap [OF assms(1-3) o3] rest assms(2) o3 by (auto split: if_splits)
      then show ?thesis using ev_coreD(3) [OF assms(1) o3] by auto
    qed auto
  qed
qed

lemma ev_core_pushed:
  assumes "ev_core w" "ev_clients w c = Some ob" "ev_heap w a = Some e" "a \<notin> queued w"
  shows "ev_core (pushed c a src e ob w)"
proof -
  let ?w = "pushed c a src e ob w"
  have disj: "set (event_queue o1) \<inter> set (event_queue o2) = {}"
    if d: "ev_clients ?w d = Some o1" "ev_clients ?w f = Some o2" "d \<noteq> f" for d f o1 o2
  proof -
    have sub: "\<exists>p. ev_clients w x = Some p \<and> set (event_queue q) \<subseteq>
        (if x = c then insert a (set (event_queue p)) else set (event_queue p))"
      if "ev_clients ?w x = Some q" for x q
      using that assms(2) set_push_rest [OF ev_coreD(2) [OF assms(1,2)]]
      by (auto simp: pushed_clients split: if_splits)
    obtain p1 p2 where p: "ev_clients w d = Some p1" "ev_clients w f = Some p2"
      "set (event_queue o1) \<subseteq> (if d = c then insert a (set (event_queue p1)) else set (event_queue p1))"
      "set (event_queue o2) \<subseteq> (if f = c then insert a (set (event_queue p2)) else set (event_queue p2))"
      using sub [OF d(1)] sub [OF d(2)] by blast
    have "a \<notin> set (event_queue p1)" "a \<notin> set (event_queue p2)"
      using assms(4) p(1,2) by (auto simp: queued_iff)
    moreover have "set (event_queue p1) \<inter> set (event_queue p2) = {}"
      using ev_core_disjoint [OF assms(1) p(1,2) d(3)] .
    ultimately show ?thesis using p(3,4) d(3) by (auto split: if_splits)
  qed
  have dom: "dom (ev_clients ?w) = dom (ev_clients w)"
    using assms(2) by (auto simp: pushed_clients dom_def split: if_splits)
  show ?thesis
  proof (rule ev_coreI)
    show "dom (ev_heap ?w) \<subseteq> {..<ev_next ?w}"
      using dom_pushed [OF assms(3)] ev_core_fields(4) [OF assms(1)] by fastforce
  qed (use dom disj pushed_queue_set [OF assms(1,2,4)] ev_core_fields [OF assms(1)] in auto)
qed

lemma abs_pushed:
  assumes "ev_core w" "ev_clients w c = Some ob" "ev_heap w a = Some e" "a \<notin> queued w"
  shows "abs_queue (pushed c a src e ob w) =
    (abs_queue w)(c \<mapsto> push_spec (e\<lparr>ev_src := src\<rparr>) (the (abs_queue w c)))"
proof
  fix d
  let ?w = "pushed c a src e ob w"
  have vals: "map (\<lambda>b. the (ev_heap ?w b)) bs = map (\<lambda>b. the (ev_heap w b)) bs"
    if "ev_clients w x = Some o2"
      "set bs \<subseteq> set (if x = c then push_rest e (event_queue ob) (ev_heap w) else event_queue o2)"
    for x o2 bs
    using pushed_queue_heap [OF assms(1,2,4) that(1)] that(2) by (auto intro!: map_cong)
  show "abs_queue ?w d =
    ((abs_queue w)(c \<mapsto> push_spec (e\<lparr>ev_src := src\<rparr>) (the (abs_queue w c)))) d"
  proof (cases "d = c")
    case True
    have "map (\<lambda>b. the (ev_heap w b)) (push_rest e (event_queue ob) (ev_heap w)) =
        (if IsExclusive e then drop_first (\<lambda>x. ev_id x = ev_id e)
           (map (\<lambda>b. the (ev_heap w b)) (event_queue ob))
         else map (\<lambda>b. the (ev_heap w b)) (event_queue ob))"
      using map_drop_first [of "\<lambda>b. the (ev_heap w b)" "\<lambda>x. ev_id x = ev_id e" "event_queue ob"]
      by (auto simp: push_rest_def)
    with True assms(2) vals [OF assms(2), of "push_rest e (event_queue ob) (ev_heap w)"]
    show ?thesis by (simp add: abs_queue_def pushed_clients push_spec_def Let_def)
  next
    case False
    then show ?thesis
      using vals [of d] by (auto simp: abs_queue_def pushed_clients map_option_case
          simp del: map_eq_conv split: option.splits)
  qed
qed

text \<open>No leak: an event that is loose after the push was loose before, or was kept for being persistent.\<close>

lemma loose_pushed:
  assumes "ev_core w" "ev_clients w c = Some ob" "b \<in> loose (pushed c a src e ob w)"
    "ev_heap w a = Some e"
  shows "b \<noteq> a \<and> (b \<in> loose w \<or> (\<exists>e'. ev_heap w b = Some e' \<and> IsPersistent e'))"
proof -
  let ?v = "push_victim e (event_queue ob) (ev_heap w)"
  have q: "b \<noteq> a" "b \<in> queued w \<Longrightarrow> b \<in> set_option ?v"
    using assms(3) unfolding loose_def queued_pushed [OF assms(1,2)] by blast+
  have d: "b \<in> dom (ev_heap w)"
    using assms(3) dom_pushed [OF assms(4)] unfolding loose_def by blast
  show ?thesis
  proof (cases "b \<in> queued w")
    case True
    then have "?v = Some b" using q(2) by auto
    moreover have "b \<in> dom (kill_option ?v (ev_heap w))"
      using assms(3) q(1) by (auto simp: loose_def pushed_def Let_def)
    ultimately show ?thesis using q(1) d by (auto simp: kill_option_def kill_def split: if_splits)
  next
    case False
    with q d show ?thesis by (simp add: loose_def)
  qed
qed

section \<open>Ownership of loose events\<close>

text \<open>
  \<open>ev_moves X Y w w'\<close>: the operation from \<open>w\<close> to \<open>w'\<close> takes the loose events \<open>X\<close> over and
  hands the loose events \<open>Y\<close> out; every other loose event stays as it is, and nothing else
  becomes loose but persistent events, which the code never deletes. The set of clients,
  their enable switches and the registry mutex stay.
\<close>

definition persistent_at :: "ev_world \<Rightarrow> nat \<Rightarrow> bool" where
  "persistent_at w b \<longleftrightarrow> (\<exists>e. ev_heap w b = Some e \<and> IsPersistent e)"

definition ev_moves :: "nat set \<Rightarrow> nat set \<Rightarrow> ev_world \<Rightarrow> ev_world \<Rightarrow> bool" where
  "ev_moves X Y w w' \<longleftrightarrow>
     event_client w' = event_client w \<and> event_client_mutex w' = event_client_mutex w \<and>
     enabled w' = enabled w \<and>
     (\<forall>b \<in> loose w - X. b \<in> loose w' \<and> ev_heap w' b = ev_heap w b) \<and>
     (\<forall>b \<in> loose w'. b \<in> loose w - X \<or> b \<in> Y \<or> persistent_at w' b)"

lemma ev_moves_refl: "ev_moves {} {} w w"
  by (auto simp: ev_moves_def)

lemma ev_moves_trans:
  assumes "ev_moves X Y w w'" "ev_moves X' Y' w' w''"
  shows "ev_moves (X \<union> X') (Y - X' \<union> Y') w w''"
proof -
  have "b \<in> loose w - (X \<union> X') \<or> b \<in> Y - X' \<union> Y' \<or> persistent_at w'' b" if "b \<in> loose w''" for b
  proof (cases "b \<in> loose w' - X'")
    case True
    then have "ev_heap w'' b = ev_heap w' b" using assms(2) by (simp add: ev_moves_def)
    then show ?thesis using assms(1) True by (auto simp: ev_moves_def persistent_at_def)
  next
    case False
    then show ?thesis using assms(2) that by (auto simp: ev_moves_def)
  qed
  then show ?thesis using assms by (auto simp: ev_moves_def)
qed

lemma ev_moves_cong:
  "ev_moves X Y w w' \<Longrightarrow> loose w \<inter> X = loose w \<inter> X' \<Longrightarrow> Y \<subseteq> Y' \<Longrightarrow> ev_moves X' Y' w w'"
  unfolding ev_moves_def by blast

lemma ev_moves_pushed:
  assumes "ev_core w" "ev_clients w c = Some ob" "ev_heap w a = Some e" "a \<notin> queued w"
  shows "ev_moves {a} {} w (pushed c a src e ob w)"
proof -
  let ?w = "pushed c a src e ob w"
  have "b \<in> loose ?w \<and> ev_heap ?w b = ev_heap w b" if "b \<in> loose w - {a}" for b
    using that pushed_heap_unqueued [OF assms(2), of b a] queued_pushed [OF assms(1,2)]
    by (auto simp: loose_def)
  moreover have "b \<in> loose w - {a} \<or> persistent_at ?w b" if "b \<in> loose ?w" for b
  proof -
    have b: "b \<noteq> a" "b \<in> loose w \<or> (\<exists>e'. ev_heap w b = Some e' \<and> IsPersistent e')"
      using loose_pushed [OF assms(1,2) that assms(3)] by auto
    have "ev_heap ?w b = ev_heap w b" if "ev_heap w b = Some e'" "IsPersistent e'" for e'
      using that b(1) by (cases "push_victim e (event_queue ob) (ev_heap w)")
        (auto simp: pushed_def Let_def kill_option_def kill_def)
    then show ?thesis using b by (auto simp: persistent_at_def)
  qed
  ultimately show ?thesis using assms(2) by (auto simp: ev_moves_def fun_eq_iff)
qed

text \<open>Changing loose events only: the queues do not notice.\<close>

lemma heap_change:
  assumes "ev_core w" "ev_clients w' = ev_clients w" "event_client w' = event_client w"
    "ev_critical w' = ev_critical w" "\<And>b. b \<in> queued w \<Longrightarrow> ev_heap w' b = ev_heap w b"
    "dom (ev_heap w') \<subseteq> {..<ev_next w'}"
  shows "ev_core w'" "abs_queue w' = abs_queue w" "queued w' = queued w" "enabled w' = enabled w"
proof -
  have q: "b \<in> set (event_queue ob) \<Longrightarrow> ev_heap w' b = ev_heap w b"
    if "ev_clients w c = Some ob" for c ob b
    using assms(5) that by (auto simp: queued_iff)
  show "ev_core w'"
  proof (rule ev_coreI)
    fix c ob assume c: "ev_clients w' c = Some ob"
    then show "set (event_queue ob) \<subseteq> dom (ev_heap w')"
      using ev_coreD(3) [OF assms(1), of c ob] q [of c ob] assms(2) by (fastforce simp: dom_def)
    show "event_queue_mutex ob = MutexFree" "distinct (event_queue ob)"
      using c assms(2) ev_coreD(1,2) [OF assms(1), of c ob] by auto
  qed (use assms ev_core_fields [OF assms(1)] ev_core_disjoint [OF assms(1)] in auto)
  show "abs_queue w' = abs_queue w"
    unfolding abs_queue_def assms(2) using q by (auto simp: fun_eq_iff intro!: option.map_cong)
  show "queued w' = queued w" "enabled w' = enabled w"
    by (simp_all add: queued_def enabled_def fun_eq_iff assms(2))
qed

lemma abs_queue_dom: "abs_queue w c = None \<longleftrightarrow> ev_clients w c = None"
  by (simp add: abs_queue_def)

lemma kill_loose:
  assumes "ev_core w" "a \<notin> queued w"
  shows "ev_core (w\<lparr>ev_heap := kill a (ev_heap w)\<rparr>)"
    "abs_queue (w\<lparr>ev_heap := kill a (ev_heap w)\<rparr>) = abs_queue w"
    "ev_moves {a} {} w (w\<lparr>ev_heap := kill a (ev_heap w)\<rparr>)"
proof -
  let ?w = "w\<lparr>ev_heap := kill a (ev_heap w)\<rparr>"
  have "dom (kill a (ev_heap w)) \<subseteq> dom (ev_heap w)" by (auto simp: kill_def split: if_splits)
  then have dom: "dom (ev_heap ?w) \<subseteq> {..<ev_next ?w}"
    using ev_core_fields(4) [OF assms(1)] by auto
  have keep: "ev_heap ?w b = ev_heap w b" if "b \<in> queued w" for b
    using that assms(2) by (cases "b = a") auto
  note hc = heap_change [of w ?w, OF assms(1) _ _ _ keep dom, simplified]
  show "ev_core ?w" "abs_queue ?w = abs_queue w" by (fact hc)+
  show "ev_moves {a} {} w ?w"
    using hc(3,4) by (auto simp: ev_moves_def loose_def persistent_at_def kill_def split: if_splits)
qed

lemma new_event:
  fixes w :: ev_world and e :: csEvent
  assumes "ev_core w"
  defines "w' \<equiv> w\<lparr>ev_heap := (ev_heap w)(ev_next w \<mapsto> e), ev_next := Suc (ev_next w)\<rparr>"
  shows "ev_core w'" "abs_queue w' = abs_queue w" "queued w' = queued w"
    "ev_moves {} {ev_next w} w w'"
proof -
  have keep: "ev_heap w' b = ev_heap w b" if "b \<in> queued w" for b
    using that ev_next_not_queued [OF assms(1)] by (auto simp: w'_def)
  have dom: "dom (ev_heap w') \<subseteq> {..<ev_next w'}"
    using ev_core_fields(4) [OF assms(1)] by (auto simp: w'_def)
  note hc = heap_change [of w w', OF assms(1) _ _ _ keep dom, unfolded w'_def, simplified]
  show "ev_core w'" "abs_queue w' = abs_queue w" "queued w' = queued w"
    unfolding w'_def by (fact hc)+
  show "ev_moves {} {ev_next w} w w'"
    using hc(3,4) ev_next_fresh [OF assms(1)]
    by (auto simp: ev_moves_def loose_def persistent_at_def w'_def)
qed

lemma write_loose:
  fixes w :: ev_world and e :: csEvent and f :: "csEvent \<Rightarrow> csEvent"
  assumes "ev_core w" "a \<notin> queued w" "ev_heap w a = Some e"
  defines "w' \<equiv> w\<lparr>ev_heap := (ev_heap w)(a \<mapsto> f e)\<rparr>"
  shows "ev_core w'" "abs_queue w' = abs_queue w" "queued w' = queued w" "enabled w' = enabled w"
    "ev_moves {a} {a} w w'"
proof -
  have keep: "ev_heap w' b = ev_heap w b" if "b \<in> queued w" for b
    using that assms(2) by (auto simp: w'_def)
  have dom: "dom (ev_heap w') \<subseteq> {..<ev_next w'}"
    using ev_core_fields(4) [OF assms(1)] assms(3) by (auto simp: w'_def)
  note hc = heap_change [of w w', OF assms(1) _ _ _ keep dom, unfolded w'_def, simplified]
  show "ev_core w'" "abs_queue w' = abs_queue w" "queued w' = queued w" "enabled w' = enabled w"
    unfolding w'_def by (fact hc)+
  show "ev_moves {a} {a} w w'"
    using hc(3,4) assms(3) by (auto simp: ev_moves_def loose_def persistent_at_def w'_def)
qed

section \<open>Broadcast\<close>

text \<open>One turn of the broadcast loop for an enabled client: clone, then push the copy.\<close>

lemma broadcast_turn:
  assumes "ev_core w" "ev_clients w c = Some ob" "event_enable ob"
    and "ev_heap w a = Some e" "a \<notin> queued w" "clone_event e = Some e'"
  obtains w' where
    "bindO (Clone a w) (\<lambda>copy w. EventPush c copy (ClientAt this) w) = Return () w'"
    "ev_core w'" "ev_moves {} {} w w'"
    "abs_queue w' = (abs_queue w)(c \<mapsto> push_spec (e'\<lparr>ev_src := ClientAt this\<rparr>) (the (abs_queue w c)))"
    "ev_heap w' a = Some e" "a \<notin> queued w'"
proof -
  let ?n = "ev_next w"
  let ?w1 = "w\<lparr>ev_heap := (ev_heap w)(?n \<mapsto> e'), ev_next := Suc ?n\<rparr>"
  let ?w2 = "pushed c ?n (ClientAt this) e' ob ?w1"
  note new = new_event [OF assms(1), of e']
  have nq: "?n \<notin> queued ?w1" using new(3) ev_next_not_queued [OF assms(1)] by simp
  have ob1: "ev_clients ?w1 c = Some ob" and h1: "ev_heap ?w1 ?n = Some e'"
    using assms(2) by simp_all
  have na: "a \<noteq> ?n" using assms(4) ev_next_fresh [OF assms(1)] by auto
  have notin: "?n \<notin> set (event_queue ob)" using nq ob1 by (auto simp: queued_iff)
  have run: "bindO (Clone a w) (\<lambda>copy w. EventPush c copy (ClientAt this) w) = Return () ?w2"
    using EventPush_eq [OF new(1) ob1 assms(3) h1 notin, of "ClientAt this"]
    by (simp add: Clone_eq [OF assms(4,6)])
  have "ev_moves ({} \<union> {?n}) ({?n} - {?n} \<union> {}) w ?w2"
    using ev_moves_trans [OF new(4) ev_moves_pushed [OF new(1) ob1 h1 nq]] .
  moreover have "?n \<notin> loose w" using ev_next_fresh [OF assms(1)] by (auto simp: loose_def)
  ultimately have mv: "ev_moves {} {} w ?w2" by (elim ev_moves_cong) auto
  have aq: "a \<notin> queued ?w1" "ev_heap ?w1 a = Some e" using new(3) assms(4,5) na by simp_all
  show thesis
  proof (rule that [OF run])
    show "ev_core ?w2" using ev_core_pushed [OF new(1) ob1 h1 nq] .
    show "abs_queue ?w2 = (abs_queue w)(c \<mapsto>
        push_spec (e'\<lparr>ev_src := ClientAt this\<rparr>) (the (abs_queue w c)))"
      using abs_pushed [OF new(1) ob1 h1 nq, of "ClientAt this"] new(2) by simp
    show "ev_heap ?w2 a = Some e" using pushed_heap_unqueued [OF ob1 na aq(1)] aq(2) by simp
    show "a \<notin> queued ?w2" using queued_pushed [OF new(1) ob1] aq(1) na by simp
  qed (rule mv)
qed

definition broadcast_spec :: "csEvent \<Rightarrow> (nat \<Rightarrow> bool) \<Rightarrow> (nat \<Rightarrow> csEvent list option) \<Rightarrow> nat \<Rightarrow> csEvent list option" where
  "broadcast_spec e on qs c = (if on c then Some (push_spec e (the (qs c))) else qs c)"

lemma broadcast_loop_spec:
  assumes "ev_core w" "set is \<subseteq> dom (ev_clients w)" "distinct is"
    and "ev_heap w a = Some e" "a \<notin> queued w" "clone_event e = Some e'"
  shows "\<exists>w'. broadcast_loop this a is w = Return () w' \<and> ev_core w' \<and> ev_moves {} {} w w' \<and>
    abs_queue w' = broadcast_spec (e'\<lparr>ev_src := ClientAt this\<rparr>)
      (\<lambda>c. c \<in> set is \<and> enabled w c) (abs_queue w) \<and>
    ev_heap w' a = Some e \<and> a \<notin> queued w'"
  using assms
proof (induction "is" arbitrary: w)
  case Nil
  then show ?case by (auto simp: broadcast_spec_def ev_moves_refl fun_eq_iff)
next
  case (Cons i "is")
  then obtain ob where ob: "ev_clients w i = Some ob" by auto
  let ?e = "e'\<lparr>ev_src := ClientAt this\<rparr>"
  show ?case
  proof (cases "event_enable ob")
    case False
    then have "\<not> enabled w i" using ob by (simp add: enabled_def)
    moreover have "broadcast_loop this a (i # is) w = broadcast_loop this a is w"
      using ob False by (simp add: IsEventsEnabled_def ev_client_def)
    ultimately show ?thesis using Cons.IH [of w] Cons.prems
      by (auto simp: broadcast_spec_def fun_eq_iff)
  next
    case True
    obtain w1 where w1: "bindO (Clone a w) (\<lambda>copy w. EventPush i copy (ClientAt this) w) = Return () w1"
      "ev_core w1" "ev_moves {} {} w w1"
      "abs_queue w1 = (abs_queue w)(i \<mapsto> push_spec ?e (the (abs_queue w i)))"
      "ev_heap w1 a = Some e" "a \<notin> queued w1"
      using broadcast_turn [OF Cons.prems(1) ob True Cons.prems(4-6)] .
    have en: "enabled w1 = enabled w" and on: "enabled w i"
      using w1(3) ob True by (auto simp: ev_moves_def enabled_def)
    have dom: "dom (ev_clients w1) = dom (ev_clients w)"
      using w1(2,3) Cons.prems(1) by (simp add: ev_core_fields(1) ev_moves_def)
    obtain w2 where w2: "broadcast_loop this a is w1 = Return () w2" "ev_core w2" "ev_moves {} {} w1 w2"
      "abs_queue w2 = broadcast_spec ?e (\<lambda>c. c \<in> set is \<and> enabled w c) (abs_queue w1)"
      "ev_heap w2 a = Some e" "a \<notin> queued w2"
      using Cons.IH [OF w1(2) _ _ w1(5,6) Cons.prems(6)] Cons.prems(2,3) dom en by auto
    have "broadcast_loop this a (i # is) w =
        bindO (bindO (Clone a w) (\<lambda>copy w. EventPush i copy (ClientAt this) w))
          (\<lambda>_ w. broadcast_loop this a is w)"
      using ob True by (simp add: IsEventsEnabled_def ev_client_def bindO_assoc)
    then have "broadcast_loop this a (i # is) w = Return () w2" using w1(1) w2(1) by simp
    moreover have "ev_moves {} {} w w2" using ev_moves_trans [OF w1(3) w2(3)] by simp
    moreover have "abs_queue w2 = broadcast_spec ?e (\<lambda>c. c \<in> set (i # is) \<and> enabled w c) (abs_queue w)"
      using w2(4) w1(4) on Cons.prems(3) by (auto simp: broadcast_spec_def fun_eq_iff)
    ultimately show ?thesis using w2 by blast
  qed
qed

section \<open>EventDispatch\<close>

lemma mutex_frame [simp]:
  "ev_core (w\<lparr>event_client_mutex := m\<rparr>) = ev_core w"
  "abs_queue (w\<lparr>event_client_mutex := m\<rparr>) = abs_queue w"
  "queued (w\<lparr>event_client_mutex := m\<rparr>) = queued w"
  "enabled (w\<lparr>event_client_mutex := m\<rparr>) = enabled w"
  "loose (w\<lparr>event_client_mutex := m\<rparr>) = loose w"
  by (simp_all add: ev_core_def abs_queue_def queued_def enabled_def loose_def fun_eq_iff)

lemma log_missing_fields [simp]:
  "ev_heap (log_missing d w) = ev_heap w" "ev_next (log_missing d w) = ev_next w"
  "ev_clients (log_missing d w) = ev_clients w" "event_client (log_missing d w) = event_client w"
  "event_client_mutex (log_missing d w) = event_client_mutex w"
  "ev_critical (log_missing d w) = ev_critical w"
  by (simp_all add: log_missing_def)

lemma log_missing_frame [simp]:
  "ev_core (log_missing d w) = ev_core w" "abs_queue (log_missing d w) = abs_queue w"
  "queued (log_missing d w) = queued w" "enabled (log_missing d w) = enabled w"
  "loose (log_missing d w) = loose w" "ev_moves X Y (log_missing d w) w' = ev_moves X Y w w'"
  by (simp_all add: ev_core_def abs_queue_def queued_def enabled_def loose_def ev_moves_def
    persistent_at_def fun_eq_iff)

lemma ev_moves_mutex:
  assumes "ev_moves X Y (w\<lparr>event_client_mutex := MutexHeld\<rparr>) w'" "event_client_mutex w = MutexFree"
  shows "ev_moves X Y w (w'\<lparr>event_client_mutex := MutexFree\<rparr>)"
  using assms by (auto simp: ev_moves_def persistent_at_def)

lemma clone_event_dst: "clone_event (e\<lparr>ev_dst := d\<rparr>) = map_option (\<lambda>e'. e'\<lparr>ev_dst := d\<rparr>) (clone_event e)"
  by (simp add: clone_event_def split: option.splits)

text \<open>
  The body of a dispatch, between the two mutex calls, as a function of the world in which
  the target has been written; a dispatch is correct if its body is.
\<close>

lemma EventDispatch_body:
  fixes w w2 :: ev_world and e :: csEvent and dst :: client_ptr and this a :: nat
  assumes "ev_wf w" "event_client w \<noteq> []" "ev_heap w a = Some e" "a \<notin> queued w"
  defines "w1 \<equiv> w\<lparr>event_client_mutex := MutexHeld, ev_heap := (ev_heap w)(a \<mapsto> e\<lparr>ev_dst := dst\<rparr>)\<rparr>"
  defines "body \<equiv> (case dst of
          BroadcastClient \<Rightarrow>
            bindO (broadcast_loop this a (event_client w) w1) (\<lambda>_ w. EventDestroy a w)
        | ClientAt c \<Rightarrow>
            if c \<in> set (event_client w) then EventPush c a (ClientAt this) w1
            else EventDestroy a (log_missing dst w1)
        | NullClient \<Rightarrow> EventDestroy a (log_missing dst w1))"
  assumes "body = Return () w2" "ev_core w2" "ev_moves {a} {} w1 w2"
  shows "EventDispatch this a dst w = Return () (w2\<lparr>event_client_mutex := MutexFree\<rparr>)"
    "ev_wf (w2\<lparr>event_client_mutex := MutexFree\<rparr>)"
    "ev_moves {a} {} w (w2\<lparr>event_client_mutex := MutexFree\<rparr>)"
proof -
  have m: "event_client_mutex w = MutexFree" and core: "ev_core w"
    using assms(1,2) by (simp_all add: ev_wf_def)
  have w2: "event_client w2 = event_client w" "event_client_mutex w2 = MutexHeld"
    using assms(9) by (simp_all add: ev_moves_def w1_def)
  show "EventDispatch this a dst w = Return () (w2\<lparr>event_client_mutex := MutexFree\<rparr>)"
    using m assms(3,7) w2
    by (cases dst)
      (auto simp: EventDispatch_def ev_write_def mutex_lock_def mutex_unlock_def body_def w1_def)
  show "ev_wf (w2\<lparr>event_client_mutex := MutexFree\<rparr>)"
    using assms(2,8) w2 by (simp add: ev_wf_def)
  have "ev_moves {a} {a} (w\<lparr>event_client_mutex := MutexHeld\<rparr>) w1"
    using write_loose(5) [of "w\<lparr>event_client_mutex := MutexHeld\<rparr>" a e "\<lambda>e. e\<lparr>ev_dst := dst\<rparr>"]
      core assms(3,4) by (simp add: w1_def)
  from ev_moves_trans [OF this assms(9)]
  have "ev_moves {a} {} (w\<lparr>event_client_mutex := MutexHeld\<rparr>) w2" by simp
  then show "ev_moves {a} {} w (w2\<lparr>event_client_mutex := MutexFree\<rparr>)"
    using m by (rule ev_moves_mutex)
qed

lemma EventDispatch_client:
  assumes "ev_wf w" "event_client w \<noteq> []" "ev_heap w a = Some e" "a \<notin> queued w"
  shows "\<exists>w'. EventDispatch this a (ClientAt c) w = Return () w' \<and> ev_wf w' \<and> ev_moves {a} {} w w' \<and>
    abs_queue w' = broadcast_spec (e\<lparr>ev_dst := ClientAt c, ev_src := ClientAt this\<rparr>)
      (\<lambda>d. d = c \<and> enabled w c) (abs_queue w)"
proof -
  let ?e = "e\<lparr>ev_dst := ClientAt c\<rparr>"
  let ?w0 = "w\<lparr>event_client_mutex := MutexHeld\<rparr>"
  let ?w1 = "w\<lparr>event_client_mutex := MutexHeld, ev_heap := (ev_heap w)(a \<mapsto> ?e)\<rparr>"
  have core: "ev_core w" using assms(1) by (simp add: ev_wf_def)
  note w1 = write_loose [of ?w0 a e "\<lambda>e. e\<lparr>ev_dst := ClientAt c\<rparr>", simplified, OF core assms(4,3)]
  have a1: "ev_heap ?w1 a = Some ?e" "a \<notin> queued ?w1" using w1(3) assms(4) by simp_all
  note body = EventDispatch_body [OF assms, of "ClientAt c" this, simplified]
  show ?thesis
  proof (cases "enabled w c")
    case True
    then obtain ob where ob: "ev_clients ?w1 c = Some ob" "event_enable ob" by (auto simp: enabled_def)
    let ?w2 = "pushed c a (ClientAt this) ?e ob ?w1"
    have reg: "c \<in> set (event_client w)" using ob(1) ev_core_registered [OF core] by simp
    have "a \<notin> set (event_queue ob)" using a1(2) ob(1) by (auto simp: queued_iff)
    then have run: "EventPush c a (ClientAt this) ?w1 = Return () ?w2"
      using EventPush_eq [OF w1(1) ob a1(1)] by simp
    note res = body [of ?w2] reg run ev_core_pushed [OF w1(1) ob(1) a1] ev_moves_pushed [OF w1(1) ob(1) a1]
    have "abs_queue ?w2 = broadcast_spec (e\<lparr>ev_dst := ClientAt c, ev_src := ClientAt this\<rparr>)
        (\<lambda>d. d = c \<and> enabled w c) (abs_queue w)"
      using abs_pushed [OF w1(1) ob(1) a1, of "ClientAt this"] w1(2) True
      by (simp add: broadcast_spec_def fun_eq_iff)
    then show ?thesis using res by (intro exI [of _ "?w2\<lparr>event_client_mutex := MutexFree\<rparr>"]) simp
  next
    case False
    define v where "v = (if c \<in> set (event_client w) then ?w1 else log_missing (ClientAt c) ?w1)"
    have v: "ev_core v" "abs_queue v = abs_queue ?w1" "a \<notin> queued v" "ev_heap v a = Some ?e"
      "\<And>X Y w'. ev_moves X Y v w' = ev_moves X Y ?w1 w'"
      using w1(1) a1 by (simp_all add: v_def)
    let ?w2 = "v\<lparr>ev_heap := kill a (ev_heap v)\<rparr>"
    have run: "(if c \<in> set (event_client w) then EventPush c a (ClientAt this) ?w1
        else EventDestroy a (log_missing (ClientAt c) ?w1)) = Return () ?w2"
    proof (cases "c \<in> set (event_client w)")
      case True
      then obtain ob where "ev_clients ?w1 c = Some ob" using ev_core_registered [OF core] by auto
      moreover from this have "\<not> event_enable ob" using False by (auto simp: enabled_def)
      ultimately show ?thesis using EventPush_disabled a1(1) True by (simp add: v_def)
    next
      case False
      then show ?thesis using EventDestroy_eq [OF v(4)] by (simp add: v_def)
    qed
    note k = kill_loose [OF v(1,3), unfolded v(2,5)]
    have "abs_queue ?w2 = broadcast_spec (e\<lparr>ev_dst := ClientAt c, ev_src := ClientAt this\<rparr>)
        (\<lambda>d. d = c \<and> enabled w c) (abs_queue w)"
      using k(2) w1(2) False by (auto simp: broadcast_spec_def fun_eq_iff)
    then have "abs_queue (?w2\<lparr>event_client_mutex := MutexFree\<rparr>) =
        broadcast_spec (e\<lparr>ev_dst := ClientAt c, ev_src := ClientAt this\<rparr>)
        (\<lambda>d. d = c \<and> enabled w c) (abs_queue w)" by (simp only: mutex_frame)
    then show ?thesis using body [of ?w2, OF run k(1,3)] by blast
  qed
qed

lemma EventBroadcast_spec:
  assumes "ev_wf w" "event_client w \<noteq> []" "ev_heap w a = Some e" "a \<notin> queued w"
    and "clone_event e = Some e'"
  shows "\<exists>w'. EventBroadcast this a w = Return () w' \<and> ev_wf w' \<and> ev_moves {a} {} w w' \<and>
    abs_queue w' = broadcast_spec (e'\<lparr>ev_dst := BroadcastClient, ev_src := ClientAt this\<rparr>)
      (enabled w) (abs_queue w)"
proof -
  let ?e = "e\<lparr>ev_dst := BroadcastClient\<rparr>"
  let ?w0 = "w\<lparr>event_client_mutex := MutexHeld\<rparr>"
  let ?w1 = "w\<lparr>event_client_mutex := MutexHeld, ev_heap := (ev_heap w)(a \<mapsto> ?e)\<rparr>"
  have core: "ev_core w" using assms(1) by (simp add: ev_wf_def)
  note w1 = write_loose [of ?w0 a e "\<lambda>e. e\<lparr>ev_dst := BroadcastClient\<rparr>", simplified, OF core assms(4,3)]
  have a1: "ev_heap ?w1 a = Some ?e" "a \<notin> queued ?w1" using w1(3) assms(4) by simp_all
  have cl: "clone_event ?e = Some (e'\<lparr>ev_dst := BroadcastClient\<rparr>)"
    by (simp add: clone_event_dst assms(5))
  have dom: "set (event_client w) \<subseteq> dom (ev_clients ?w1)"
    using ev_core_fields(1) [OF core] by simp
  obtain w2 where w2: "broadcast_loop this a (event_client w) ?w1 = Return () w2" "ev_core w2"
    "ev_moves {} {} ?w1 w2"
    "abs_queue w2 = broadcast_spec (e'\<lparr>ev_dst := BroadcastClient, ev_src := ClientAt this\<rparr>)
      (\<lambda>c. c \<in> set (event_client w) \<and> enabled ?w1 c) (abs_queue ?w1)"
    "ev_heap w2 a = Some ?e" "a \<notin> queued w2"
    using broadcast_loop_spec [OF w1(1) dom ev_core_fields(2) [OF core] a1 cl, of this] by auto
  let ?w3 = "w2\<lparr>ev_heap := kill a (ev_heap w2)\<rparr>"
  note k = kill_loose [OF w2(2,6)]
  have mv: "ev_moves {a} {} ?w1 ?w3" using ev_moves_trans [OF w2(3) k(3)] by simp
  have run: "bindO (broadcast_loop this a (event_client w) ?w1) (\<lambda>_. EventDestroy a) = Return () ?w3"
    using w2(1) EventDestroy_eq [OF w2(5)] by simp
  have on: "(\<lambda>c. c \<in> set (event_client w) \<and> enabled ?w1 c) = enabled w"
    using ev_core_registered [OF core] w1(4) by (auto simp: enabled_def fun_eq_iff)
  have "abs_queue ?w3 = broadcast_spec (e'\<lparr>ev_dst := BroadcastClient, ev_src := ClientAt this\<rparr>)
      (enabled w) (abs_queue w)"
    using k(2) w2(4) w1(2) on by simp
  then show ?thesis
    using EventDispatch_body [OF assms(1-4), of BroadcastClient this ?w3] run k(1) mv
    by (intro exI [of _ "?w3\<lparr>event_client_mutex := MutexFree\<rparr>"])
      (simp add: EventBroadcast_def)
qed

section \<open>EventPop\<close>

lemma client_queue_same [simp]: "ob\<lparr>event_queue := event_queue ob\<rparr> = ob"
  by (cases ob) simp

lemma EventPop_eq:
  assumes "ev_core w" "ev_clients w c = Some ob"
  shows "event_queue ob = [] \<Longrightarrow> EventPop c w = Return None w"
    "event_queue ob = a # q \<Longrightarrow> ev_heap w a = Some e \<Longrightarrow> \<not> IsSticky e \<Longrightarrow>
       EventPop c w = Return (Some a) (set_queue c q w)"
    "event_queue ob = a # q \<Longrightarrow> ev_heap w a = Some e \<Longrightarrow> IsSticky e \<Longrightarrow> clone_event e = Some e' \<Longrightarrow>
       EventPop c w = Return (Some (ev_next w))
         (w\<lparr>ev_heap := (ev_heap w)(ev_next w \<mapsto> e'), ev_next := Suc (ev_next w)\<rparr>)"
proof -
  have m: "event_queue_mutex ob = MutexFree" using ev_coreD(1) [OF assms] .
  have o_same: "(ev_clients w)(c \<mapsto> ob) = ev_clients w" using assms(2) by (auto simp: fun_eq_iff)
  show "event_queue ob = [] \<Longrightarrow> EventPop c w = Return None w"
    using assms(2) m o_same by (simp add: EventPop_def ev_prims)
  show "event_queue ob = a # q \<Longrightarrow> ev_heap w a = Some e \<Longrightarrow> \<not> IsSticky e \<Longrightarrow>
       EventPop c w = Return (Some a) (set_queue c q w)"
    using assms(2) m by (simp add: EventPop_def ev_prims)
  show "event_queue ob = a # q \<Longrightarrow> ev_heap w a = Some e \<Longrightarrow> IsSticky e \<Longrightarrow> clone_event e = Some e' \<Longrightarrow>
       EventPop c w = Return (Some (ev_next w))
         (w\<lparr>ev_heap := (ev_heap w)(ev_next w \<mapsto> e'), ev_next := Suc (ev_next w)\<rparr>)"
    using assms(2) m o_same by (simp add: EventPop_def Clone_def ev_prims)
qed

lemma popped:
  assumes "ev_core w" "ev_clients w c = Some ob" "event_queue ob = a # q"
  shows "ev_core (set_queue c q w)"
    "abs_queue (set_queue c q w) = (abs_queue w)(c \<mapsto> tl (the (abs_queue w c)))"
    "ev_moves {} {a} w (set_queue c q w)"
    "a \<notin> queued (set_queue c q w)" "ev_heap (set_queue c q w) = ev_heap w"
proof -
  let ?w = "set_queue c q w"
  have cl: "ev_clients ?w d = (if d = c then Some (ob\<lparr>event_queue := q\<rparr>) else ev_clients w d)" for d
    using assms(2) by (simp add: set_queue_def)
  have rest: "event_client ?w = event_client w" "ev_critical ?w = ev_critical w" "ev_next ?w = ev_next w"
    "event_client_mutex ?w = event_client_mutex w"
    by (simp_all add: set_queue_def)
  show heap: "ev_heap ?w = ev_heap w" by (simp add: set_queue_def)
  have old: "\<exists>p. ev_clients w d = Some p \<and> event_queue_mutex o' = event_queue_mutex p \<and>
      set (event_queue o') \<subseteq> set (event_queue p) \<and> (distinct (event_queue p) \<longrightarrow> distinct (event_queue o'))"
    if "ev_clients ?w d = Some o'" for d o'
    using that assms(2,3) by (auto simp: cl split: if_splits)
  have dom: "dom (ev_clients ?w) = dom (ev_clients w)"
    using assms(2) by (auto simp: cl dom_def split: if_splits)
  show "ev_core ?w"
  proof (rule ev_coreI)
    fix d o' assume "ev_clients ?w d = Some o'"
    from old [OF this] obtain p where p: "ev_clients w d = Some p"
      "event_queue_mutex o' = event_queue_mutex p" "set (event_queue o') \<subseteq> set (event_queue p)"
      "distinct (event_queue p) \<longrightarrow> distinct (event_queue o')" by blast
    then show "event_queue_mutex o' = MutexFree" "distinct (event_queue o')"
      using ev_coreD(1,2) [OF assms(1) p(1)] by auto
    show "set (event_queue o') \<subseteq> dom (ev_heap ?w)"
      using p(3) ev_coreD(3) [OF assms(1) p(1)] unfolding heap by (rule subset_trans)
  next
    fix d f o1 o2 assume "ev_clients ?w d = Some o1" "ev_clients ?w f = Some o2" "d \<noteq> f"
    then show "set (event_queue o1) \<inter> set (event_queue o2) = {}"
      using old [of d o1] old [of f o2] ev_core_disjoint [OF assms(1)] by blast
  qed (use dom rest heap ev_core_fields [OF assms(1)] in auto)
  show "abs_queue ?w = (abs_queue w)(c \<mapsto> tl (the (abs_queue w c)))"
    using assms(2,3) by (auto simp: abs_queue_def cl heap fun_eq_iff)
  have dis: "distinct (a # q)" using ev_coreD(2) [OF assms(1,2)] assms(3) by simp
  have "a \<notin> set (event_queue o')" if "ev_clients ?w d = Some o'" for d o'
    using that dis ev_core_disjoint [OF assms(1,2), of d o'] assms(3) by (auto simp: cl split: if_splits)
  then show nq: "a \<notin> queued ?w" by (auto simp: queued_iff)
  have "b \<in> queued w \<longleftrightarrow> b = a \<or> b \<in> queued ?w" for b
    using queued_split [OF assms(2), of b] queued_split [of ?w c "ob\<lparr>event_queue := q\<rparr>" b] assms(3)
    by (auto simp: cl)
  then have sub: "queued ?w \<subseteq> queued w" "queued w \<subseteq> insert a (queued ?w)" by auto
  have "enabled ?w = enabled w" using assms(2) by (auto simp: enabled_def cl fun_eq_iff)
  then show "ev_moves {} {a} w ?w"
    using sub by (auto simp: ev_moves_def loose_def heap rest)
qed

lemma EventPop_spec:
  assumes "ev_wf w" "ev_clients w c = Some ob" "abs_queue w c = Some q"
    and "\<And>e r. q = e # r \<Longrightarrow> IsSticky e \<Longrightarrow> clone_event e \<noteq> None"
  shows "\<exists>r w'. EventPop c w = Return r w' \<and> ev_wf w' \<and> ev_moves {} (set_option r) w w' \<and>
    abs_queue w' = (abs_queue w)(c \<mapsto> snd (pop_spec q)) \<and>
    map_option (\<lambda>a. the (ev_heap w' a)) r = fst (pop_spec q) \<and> set_option r \<subseteq> loose w'"
proof -
  have core: "ev_core w" using assms(1) by (simp add: ev_wf_def)
  have q: "q = map (\<lambda>a. the (ev_heap w a)) (event_queue ob)"
    using assms(2,3) by (simp add: abs_queue_def)
  show ?thesis
  proof (cases "event_queue ob")
    case Nil
    then show ?thesis using EventPop_eq(1) [OF core assms(2)] assms q
      by (simp add: ev_moves_refl pop_spec_def fun_upd_idem)
  next
    case (Cons a as)
    then obtain e where e: "ev_heap w a = Some e" using ev_coreD(3) [OF core assms(2)] by auto
    show ?thesis
    proof (cases "IsSticky e")
      case False
      note p = popped [OF core assms(2) Cons]
      have "ev_wf (set_queue c as w)" using p(1) assms(1) by (simp add: ev_wf_def set_queue_def)
      then show ?thesis
        using EventPop_eq(2) [OF core assms(2) Cons e False] p q Cons e False assms(3)
        by (auto simp: pop_spec_def loose_def)
    next
      case True
      then obtain e' where e': "clone_event e = Some e'" using assms(4) q Cons e by fastforce
      let ?w = "w\<lparr>ev_heap := (ev_heap w)(ev_next w \<mapsto> e'), ev_next := Suc (ev_next w)\<rparr>"
      note n = new_event [OF core, of e']
      have "ev_wf ?w" using n(1) assms(1) by (simp add: ev_wf_def)
      moreover have "ev_next w \<in> loose ?w"
        using n(3) ev_next_not_queued [OF core] by (simp add: loose_def)
      ultimately show ?thesis
        using EventPop_eq(3) [OF core assms(2) Cons e True e'] n q Cons e True e' assms(3)
        by (simp add: pop_spec_def fun_upd_idem)
    qed
  qed
qed

end
