(* ===== verification/Cs_Event_System.thy ===== *)
theory Cs_Event_System
  imports Cs_Event_Queue
begin

text \<open>
  The event system as a whole: construction and destruction of clients, the wait loop of
  \<open>EventPopWait\<close>, the system of all clients as a step relation with ownership of the events
  each thread holds, and the interleaving of one producer with a consumer that waits.
\<close>

section \<open>Construction and destruction of clients\<close>

lemma critical_zoom:
  assumes "critical_free (ev_critical w)"
  obtains k where "zoomO ev_critical ev_critical_update csCriticalSection_Lock w =
      Return () (w\<lparr>ev_critical := k\<rparr>)"
    and "csCriticalSection_Unlock k = Return () (ev_critical w)"
  using critical_lock_unlock [OF assms] by (auto simp: zoomO_def)

lemma csEventClient_ctor_spec:
  assumes "ev_wf w" "this \<notin> set (event_client w)"
  shows "\<exists>w'. csEventClient_ctor this w = Return () w' \<and> ev_wf w' \<and>
    event_client w' = event_client w @ [this] \<and> ev_heap w' = ev_heap w \<and> ev_next w' = ev_next w \<and>
    ev_clients w' = (ev_clients w)(this \<mapsto>
      \<lparr>event_enable = True, event_queue = [], event_queue_mutex = MutexFree\<rparr>)"
proof -
  have core: "ev_core w" using assms(1) by (simp add: ev_wf_def)
  let ?new = "\<lparr>event_enable = True, event_queue = [], event_queue_mutex = MutexFree\<rparr>"
  let ?w1 = "w\<lparr>ev_clients := (ev_clients w)(this \<mapsto> ?new)\<rparr>"
  let ?w' = "w\<lparr>ev_clients := (ev_clients w)(this \<mapsto> ?new), event_client_mutex := MutexFree,
    event_client := event_client w @ [this]\<rparr>"
  obtain k where k: "zoomO ev_critical ev_critical_update csCriticalSection_Lock ?w1 =
      Return () (?w1\<lparr>ev_critical := k\<rparr>)" "csCriticalSection_Unlock k = Return () (ev_critical ?w1)"
    using critical_zoom [of ?w1] ev_core_fields(3) [OF core] by auto
  have run: "csEventClient_ctor this w = Return () ?w'"
    using k assms(1)
    by (simp add: csEventClient_ctor_def zoomO_def mutex_lock_def mutex_unlock_def
        event_client_push_def ev_wf_def)
  have "ev_core ?w'"
  proof (rule ev_coreI)
    fix c d o1 o2 assume "ev_clients ?w' c = Some o1" "ev_clients ?w' d = Some o2" "c \<noteq> d"
    then show "set (event_queue o1) \<inter> set (event_queue o2) = {}"
      using ev_core_disjoint [OF core] by (auto split: if_splits)
  qed (use ev_core_fields [OF core] ev_coreD [OF core] assms(2) in \<open>auto split: if_splits\<close>)
  then show ?thesis using run by (intro exI [of _ ?w']) (simp add: ev_wf_def)
qed

lemma destroy_all_eq:
  assumes "distinct q" "set q \<subseteq> dom (ev_heap w)"
  shows "destroy_all q w = Return () (w\<lparr>ev_heap := (\<lambda>b. if b \<in> set q \<and> \<not> persistent_at w b
    then None else ev_heap w b)\<rparr>)"
  using assms
proof (induction q arbitrary: w)
  case Nil
  then show ?case by simp
next
  case (Cons a q)
  then obtain e where e: "ev_heap w a = Some e" by auto
  let ?w = "w\<lparr>ev_heap := kill a (ev_heap w)\<rparr>"
  have ne: "ev_heap ?w b = ev_heap w b" if "b \<in> set q" for b
    using that Cons.prems(1) by (cases "b = a") auto
  have "set q \<subseteq> dom (ev_heap ?w)" using ne Cons.prems(2) by (fastforce simp: dom_def)
  moreover have "(\<lambda>b. if b \<in> set q \<and> \<not> persistent_at ?w b then None else ev_heap ?w b) =
      (\<lambda>b. if b \<in> set (a # q) \<and> \<not> persistent_at w b then None else ev_heap w b)"
    using e ne Cons.prems(1) by (auto simp: fun_eq_iff persistent_at_def kill_def)
  ultimately show ?case using Cons.IH [of ?w] Cons.prems(1) EventDestroy_eq [OF e] by simp
qed

lemma csEventClient_dtor_spec:
  assumes "ev_wf w" "ev_clients w this = Some ob"
  shows "\<exists>w'. csEventClient_dtor this w = Return () w' \<and> ev_wf w' \<and>
    event_client w' = remove1 this (event_client w) \<and> ev_next w' = ev_next w \<and>
    ev_clients w' = (ev_clients w)(this := None) \<and>
    ev_heap w' = (\<lambda>b. if b \<in> set (event_queue ob) \<and> \<not> persistent_at w b then None else ev_heap w b)"
proof -
  have core: "ev_core w" using assms(1) by (simp add: ev_wf_def)
  have reg: "this \<in> set (event_client w)" using ev_core_registered [OF core] assms(2) by blast
  have m: "event_client_mutex w = MutexFree" using assms(1) reg by (auto simp: ev_wf_def)
  let ?h = "\<lambda>b. if b \<in> set (event_queue ob) \<and> \<not> persistent_at w b then None else ev_heap w b"
  let ?v = "remove1 this (event_client w)"
  let ?w' = "w\<lparr>ev_heap := ?h, ev_clients := (ev_clients w)(this := None), event_client := ?v,
    event_client_mutex := (if ?v = [] then MutexNull else MutexFree)\<rparr>"
  let ?w0 = "w\<lparr>event_client_mutex := MutexHeld\<rparr>"
  have d: "destroy_all (event_queue ob) ?w0 = Return () (?w0\<lparr>ev_heap := ?h\<rparr>)"
    using destroy_all_eq [of "event_queue ob" ?w0] ev_coreD(2,3) [OF core assms(2)]
    by (simp add: persistent_at_def cong: if_cong)
  obtain k where k: "csCriticalSection_Lock (ev_critical w) = Return () k"
      "csCriticalSection_Unlock k = Return () (ev_critical w)"
    using critical_lock_unlock [OF ev_core_fields(3) [OF core]] by auto
  have run: "csEventClient_dtor this w = Return () ?w'"
    using k m assms(2) d
    by (simp add: csEventClient_dtor_def zoomO_def mutex_lock_def mutex_unlock_def ev_client_def
        set_queue_def event_client_erase_def erase_first_remove1)
  have "ev_core ?w'"
  proof (rule ev_coreI)
    fix c o' assume c: "ev_clients ?w' c = Some o'"
    then have "c \<noteq> this" "ev_clients w c = Some o'" by (auto split: if_splits)
    then have "set (event_queue o') \<inter> set (event_queue ob) = {}" "set (event_queue o') \<subseteq> dom (ev_heap w)"
      using ev_core_disjoint [OF core _ assms(2)] ev_coreD(3) [OF core] by blast+
    then show "set (event_queue o') \<subseteq> dom (ev_heap ?w')" by (auto simp: dom_def subset_iff)
  next
    fix c d o1 o2 assume "ev_clients ?w' c = Some o1" "ev_clients ?w' d = Some o2" "c \<noteq> d"
    then show "set (event_queue o1) \<inter> set (event_queue o2) = {}"
      using ev_core_disjoint [OF core] by (auto split: if_splits)
  next
    show "dom (ev_heap ?w') \<subseteq> {..<ev_next ?w'}"
      using ev_core_fields(4) [OF core] by (auto simp: dom_def subset_iff split: if_splits)
  qed (use ev_core_fields [OF core] ev_coreD [OF core] in \<open>auto split: if_splits\<close>)
  then show ?thesis using run by (intro exI [of _ ?w']) (simp add: ev_wf_def)
qed

section \<open>The system of clients\<close>

text \<open>
  A state is the event state and the set of events that threads hold in a local variable:
  made with \<open>new\<close> or taken with \<open>EventPop\<close>, not yet dispatched or destroyed. A step is one
  complete call by some thread, or a change that a thread makes to an event it holds; the
  registry and queue mutexes make such calls atomic. \<open>clonable e\<close> excludes netlink events,
  whose \<open>Clone\<close> throws.
\<close>

definition clonable :: "csEvent \<Rightarrow> bool" where
  "clonable e \<longleftrightarrow> clone_event e \<noteq> None"

inductive ev_step :: "ev_world \<times> nat set \<Rightarrow> ev_world \<times> nat set \<Rightarrow> bool" where
  step_new: "ev_new e w = Return a w' \<Longrightarrow> (IsSticky e \<longrightarrow> clonable e) \<Longrightarrow>
     ev_step (w, H) (w', insert a H)"
| step_update: "a \<in> H \<Longrightarrow> ev_heap w a = Some e \<Longrightarrow> (IsSticky (f e) \<longrightarrow> clonable (f e)) \<Longrightarrow>
     ev_write a f w = Return () w' \<Longrightarrow> ev_step (w, H) (w', H)"
| step_dispatch: "a \<in> H \<Longrightarrow> dst = BroadcastClient \<longrightarrow> clonable (the (ev_heap w a)) \<Longrightarrow>
     EventDispatch this a dst w = Return () w' \<Longrightarrow> ev_step (w, H) (w', H - {a})"
| step_pop: "EventPop c w = Return r w' \<Longrightarrow> c \<in> set (event_client w) \<Longrightarrow>
     ev_step (w, H) (w', H \<union> set_option r)"
| step_destroy: "a \<in> H \<Longrightarrow> EventDestroy a w = Return () w' \<Longrightarrow> ev_step (w, H) (w', H - {a})"
| step_enable: "EventsEnable c on w = Return () w' \<Longrightarrow> ev_step (w, H) (w', H)"
| step_construct: "c \<notin> set (event_client w) \<Longrightarrow> csEventClient_ctor c w = Return () w' \<Longrightarrow>
     ev_step (w, H) (w', H)"
| step_destruct: "c \<in> set (event_client w) \<Longrightarrow> csEventClient_dtor c w = Return () w' \<Longrightarrow>
     ev_step (w, H) (w', H)"

inductive ev_reachable :: "ev_world \<times> nat set \<Rightarrow> bool" where
  reach_init: "ev_reachable (ev_init, {})"
| reach_step: "ev_reachable s \<Longrightarrow> ev_step s t \<Longrightarrow> ev_reachable t"

definition queue_values :: "ev_world \<Rightarrow> csEvent set" where
  "queue_values w = (\<Union>q \<in> ran (abs_queue w). set q)"

definition ev_ok :: "ev_world \<times> nat set \<Rightarrow> bool" where
  "ev_ok s \<longleftrightarrow> (case s of (w, H) \<Rightarrow> ev_wf w \<and> H \<subseteq> loose w \<and>
     (\<forall>b \<in> loose w. b \<in> H \<or> persistent_at w b) \<and>
     (\<forall>e \<in> queue_values w \<union> (\<lambda>a. the (ev_heap w a)) ` H. IsSticky e \<longrightarrow> clonable e))"

lemma ev_ok_iff:
  "ev_ok (w, H) \<longleftrightarrow> ev_wf w \<and> H \<subseteq> loose w \<and> (\<forall>b \<in> loose w. b \<in> H \<or> persistent_at w b) \<and>
     (\<forall>e \<in> queue_values w \<union> (\<lambda>a. the (ev_heap w a)) ` H. IsSticky e \<longrightarrow> clonable e)"
  by (simp add: ev_ok_def)

lemma clonable_frame [simp]:
  "clonable (e\<lparr>ev_src := s\<rparr>) = clonable e" "clonable (e\<lparr>ev_dst := d\<rparr>) = clonable e"
  by (auto simp: clonable_def clone_event_def split: option.splits)

lemma clone_clonable: "clone_event e = Some e' \<Longrightarrow> clonable e' \<and> IsSticky e' = IsSticky e"
  by (cases "ev_class e") (auto simp: clone_event_def clonable_def)

lemma set_push_spec: "set (push_spec e q) \<subseteq> insert e (set q)"
  using set_drop_first [of "\<lambda>x. ev_id x = ev_id e" q] by (auto simp: push_spec_def Let_def)

lemma queue_values_broadcast:
  assumes "abs_queue w' = broadcast_spec e on (abs_queue w)" "\<And>c. on c \<Longrightarrow> abs_queue w c \<noteq> None"
  shows "queue_values w' \<subseteq> insert e (queue_values w)"
proof
  fix x assume "x \<in> queue_values w'"
  then obtain c q where c: "abs_queue w' c = Some q" "x \<in> set q" by (auto simp: queue_values_def ran_def)
  show "x \<in> insert e (queue_values w)"
  proof (cases "on c")
    case True
    then obtain r where "abs_queue w c = Some r" using assms(2) by blast
    then show ?thesis using c assms(1) True set_push_spec [of e r]
      by (auto simp: broadcast_spec_def queue_values_def ran_def)
  next
    case False
    then show ?thesis using c assms(1) by (auto simp: broadcast_spec_def queue_values_def ran_def)
  qed
qed

text \<open>An operation that takes the held event \<open>a\<close> over keeps the invariant.\<close>

lemma ev_ok_consume:
  assumes "ev_ok (w, H)" "a \<in> H" "ev_wf w'" "ev_moves {a} {} w w'"
    "\<forall>e \<in> queue_values w'. IsSticky e \<longrightarrow> clonable e"
  shows "ev_ok (w', H - {a})"
proof -
  have H: "H \<subseteq> loose w" using assms(1) by (simp add: ev_ok_def)
  have keep: "b \<in> loose w' \<and> ev_heap w' b = ev_heap w b" if "b \<in> H - {a}" for b
    using that H assms(4) by (auto simp: ev_moves_def)
  have "b \<in> H - {a} \<or> persistent_at w' b" if "b \<in> loose w'" for b
  proof -
    from that have "b \<in> loose w - {a} \<or> persistent_at w' b" using assms(4) by (auto simp: ev_moves_def)
    moreover have "b \<in> H \<or> persistent_at w' b" if "b \<in> loose w - {a}"
    proof -
      have "ev_heap w' b = ev_heap w b" using that assms(4) by (simp add: ev_moves_def)
      then show ?thesis using that assms(1) by (auto simp: ev_ok_def persistent_at_def)
    qed
    ultimately show ?thesis by blast
  qed
  then show ?thesis using assms(1,3,5) keep by (auto simp: ev_ok_def)
qed

lemma EventDispatch_null:
  assumes "ev_wf w" "event_client w \<noteq> []" "ev_heap w a = Some e" "a \<notin> queued w"
  shows "\<exists>w'. EventDispatch this a NullClient w = Return () w' \<and> ev_wf w' \<and> ev_moves {a} {} w w' \<and>
    abs_queue w' = abs_queue w"
proof -
  let ?w0 = "w\<lparr>event_client_mutex := MutexHeld\<rparr>"
  let ?w1 = "w\<lparr>event_client_mutex := MutexHeld, ev_heap := (ev_heap w)(a \<mapsto> e\<lparr>ev_dst := NullClient\<rparr>)\<rparr>"
  let ?v = "log_missing NullClient ?w1"
  let ?w2 = "?v\<lparr>ev_heap := kill a (ev_heap ?v)\<rparr>"
  have core: "ev_core w" using assms(1) by (simp add: ev_wf_def)
  note w1 = write_loose [of ?w0 a e "\<lambda>e. e\<lparr>ev_dst := NullClient\<rparr>", simplified, OF core assms(4,3)]
  have v: "ev_core ?v" "a \<notin> queued ?v" "ev_heap ?v a = Some (e\<lparr>ev_dst := NullClient\<rparr>)"
    using w1(1,3) assms(4) by simp_all
  note run = EventDestroy_eq [OF v(3)]
  note k = kill_loose [OF v(1,2), unfolded log_missing_frame(2,6)]
  have "abs_queue (?w2\<lparr>event_client_mutex := MutexFree\<rparr>) = abs_queue w"
    using k(2) w1(2) by (simp only: mutex_frame)
  then show ?thesis
    using EventDispatch_body [OF assms, of NullClient this, simplified, OF run k(1,3)] by blast
qed

lemma EventDispatch_ok:
  assumes "ev_ok (w, H)" "a \<in> H" "event_client w \<noteq> []"
    "dst = BroadcastClient \<longrightarrow> clonable (the (ev_heap w a))"
  shows "\<exists>w'. EventDispatch this a dst w = Return () w' \<and> ev_ok (w', H - {a})"
proof -
  have wf: "ev_wf w" and "a \<in> loose w" using assms(1,2) by (auto simp: ev_ok_def)
  then obtain e where e: "ev_heap w a = Some e" "a \<notin> queued w" by (auto simp: loose_def)
  have "e \<in> (\<lambda>a. the (ev_heap w a)) ` H" using assms(2) e(1) by force
  then have old: "\<forall>x \<in> queue_values w. IsSticky x \<longrightarrow> clonable x"
    and new: "IsSticky e \<longrightarrow> clonable e"
    using assms(1) by (auto simp: ev_ok_def)
  have en: "enabled w c \<Longrightarrow> abs_queue w c \<noteq> None" for c
    by (auto simp: enabled_def abs_queue_def)
  have done': "\<exists>w'. EventDispatch this a dst w = Return () w' \<and> ev_ok (w', H - {a})"
    if "EventDispatch this a dst w = Return () w'" "ev_wf w'" "ev_moves {a} {} w w'"
      "queue_values w' \<subseteq> insert x (queue_values w)" "IsSticky x \<longrightarrow> clonable x" for w' x
    using that old ev_ok_consume [OF assms(1,2) that(2,3)] by blast
  show ?thesis
  proof (cases dst)
    case NullClient
    obtain w' where w': "EventDispatch this a NullClient w = Return () w'" "ev_wf w'"
      "ev_moves {a} {} w w'" "abs_queue w' = abs_queue w"
      using EventDispatch_null [OF wf assms(3) e] by blast
    then show ?thesis using done' [of w' e] new NullClient by (auto simp: queue_values_def)
  next
    case BroadcastClient
    then obtain e' where e': "clone_event e = Some e'" using assms(4) e(1) by (auto simp: clonable_def)
    let ?x = "e'\<lparr>ev_dst := BroadcastClient, ev_src := ClientAt this\<rparr>"
    obtain w' where w': "EventBroadcast this a w = Return () w'" "ev_wf w'"
      "ev_moves {a} {} w w'" "abs_queue w' = broadcast_spec ?x (enabled w) (abs_queue w)"
      using EventBroadcast_spec [OF wf assms(3) e e'] by blast
    have "IsSticky ?x \<longrightarrow> clonable ?x" using clone_clonable [OF e'] by simp
    then show ?thesis
      using done' [of w' ?x] w'(1-3) queue_values_broadcast [OF w'(4) en] BroadcastClient
      by (simp add: EventBroadcast_def)
  next
    case (ClientAt c)
    let ?x = "e\<lparr>ev_dst := ClientAt c, ev_src := ClientAt this\<rparr>"
    obtain w' where w': "EventDispatch this a (ClientAt c) w = Return () w'" "ev_wf w'"
      "ev_moves {a} {} w w'"
      "abs_queue w' = broadcast_spec ?x (\<lambda>d. d = c \<and> enabled w c) (abs_queue w)"
      using EventDispatch_client [OF wf assms(3) e] by blast
    have "queue_values w' \<subseteq> insert ?x (queue_values w)"
      by (rule queue_values_broadcast [OF w'(4)]) (use en in auto)
    then show ?thesis using done' [of w' ?x] w'(1-3) new ClientAt by simp
  qed
qed

lemma EventDestroy_ok:
  assumes "ev_ok (w, H)" "a \<in> H"
  shows "\<exists>w'. EventDestroy a w = Return () w' \<and> ev_ok (w', H - {a})"
proof -
  have wf: "ev_wf w" and "a \<in> loose w" using assms by (auto simp: ev_ok_def)
  then obtain e where e: "ev_heap w a = Some e" "a \<notin> queued w" by (auto simp: loose_def)
  have core: "ev_core w" using wf by (simp add: ev_wf_def)
  note k = kill_loose [OF core e(2)]
  have "ev_wf (w\<lparr>ev_heap := kill a (ev_heap w)\<rparr>)" using k(1) wf by (simp add: ev_wf_def)
  moreover have "queue_values (w\<lparr>ev_heap := kill a (ev_heap w)\<rparr>) = queue_values w"
    using k(2) by (simp add: queue_values_def)
  ultimately show ?thesis
    using EventDestroy_eq [OF e(1)] ev_ok_consume [OF assms _ k(3)] assms(1) by (auto simp: ev_ok_def)
qed

lemma ev_ok_grow:
  assumes "ev_ok (w, H)" "ev_wf w'" "ev_moves {} Y w w'" "Y \<subseteq> loose w'"
    "\<forall>e \<in> queue_values w' \<union> (\<lambda>a. the (ev_heap w' a)) ` Y. IsSticky e \<longrightarrow> clonable e"
  shows "ev_ok (w', H \<union> Y)"
proof -
  have keep: "b \<in> loose w' \<and> ev_heap w' b = ev_heap w b" if "b \<in> loose w" for b
    using that assms(3) by (auto simp: ev_moves_def)
  then have "persistent_at w b \<Longrightarrow> b \<in> loose w \<Longrightarrow> persistent_at w' b" for b
    by (simp add: persistent_at_def)
  then have "b \<in> H \<union> Y \<or> persistent_at w' b" if "b \<in> loose w'" for b
    using that assms(1,3) unfolding ev_ok_iff ev_moves_def by blast
  then show ?thesis using assms keep by (auto simp: ev_ok_def)
qed

lemma ev_new_ok:
  assumes "ev_ok (w, H)" "IsSticky e \<longrightarrow> clonable e" "ev_new e w = Return a w'"
  shows "ev_ok (w', insert a H)"
proof -
  have wf: "ev_wf w" "ev_core w" using assms(1) by (auto simp: ev_ok_def ev_wf_def)
  have w': "a = ev_next w" "w' = w\<lparr>ev_heap := (ev_heap w)(ev_next w \<mapsto> e), ev_next := Suc (ev_next w)\<rparr>"
    using assms(3) by (auto simp: ev_new_def)
  note n = new_event [OF wf(2), of e, folded w']
  have "ev_wf w'" using n(1) wf(1) by (simp add: ev_wf_def w'(2))
  moreover have "a \<in> loose w'" using n(3) ev_next_not_queued [OF wf(2)] w' by (simp add: loose_def)
  moreover have "queue_values w' = queue_values w" using n(2) by (simp add: queue_values_def)
  ultimately have "ev_ok (w', H \<union> {a})"
    using n(4) assms(1,2) w' by (intro ev_ok_grow [of w]) (auto simp: ev_ok_def)
  then show ?thesis by simp
qed

lemma EventPop_ok:
  assumes "ev_ok (w, H)" "c \<in> set (event_client w)"
  shows "\<exists>r w'. EventPop c w = Return r w' \<and> ev_ok (w', H \<union> set_option r)"
proof -
  have wf: "ev_wf w" "ev_core w" using assms(1) by (auto simp: ev_ok_def ev_wf_def)
  obtain ob q where ob: "ev_clients w c = Some ob" "abs_queue w c = Some q"
    using ev_core_registered [OF wf(2)] assms(2) by (auto simp: abs_queue_def)
  have cl: "IsSticky e \<longrightarrow> clonable e" if "e \<in> queue_values w" for e
    using that assms(1) by (auto simp: ev_ok_def)
  have "set q \<subseteq> queue_values w" using ob(2) by (auto simp: queue_values_def ran_def)
  then have hd: "e \<in> queue_values w" if "q = e # r" for e r using that by auto
  obtain r w' where r: "EventPop c w = Return r w'" "ev_wf w'" "ev_moves {} (set_option r) w w'"
    "abs_queue w' = (abs_queue w)(c \<mapsto> snd (pop_spec q))"
    "map_option (\<lambda>a. the (ev_heap w' a)) r = fst (pop_spec q)" "set_option r \<subseteq> loose w'"
    using EventPop_spec [OF wf(1) ob] cl hd by (auto simp: clonable_def)
  have "set (snd (pop_spec q)) \<subseteq> set q"
    by (auto simp: pop_spec_def split: list.splits if_splits)
  then have qv: "queue_values w' \<subseteq> queue_values w"
    using r(4) ob(2) by (auto simp: queue_values_def ran_def split: if_splits)
  have "IsSticky e \<longrightarrow> clonable e" if "Some e = fst (pop_spec q)" for e
    using that cl hd clone_clonable by (auto simp: pop_spec_def split: list.splits if_splits)
  then have "\<forall>e \<in> (\<lambda>a. the (ev_heap w' a)) ` set_option r. IsSticky e \<longrightarrow> clonable e"
    using r(5) by (cases r) auto
  then have "ev_ok (w', H \<union> set_option r)"
    using ev_ok_grow [OF assms(1) r(2,3,6)] qv cl by blast
  then show ?thesis using r(1) by blast
qed

lemma ev_ok_loose_same:
  assumes "ev_ok (w, H)" "ev_wf w'" "loose w' \<subseteq> loose w \<union> {b. persistent_at w' b}"
    "\<And>b. b \<in> loose w \<Longrightarrow> b \<in> loose w' \<and> ev_heap w' b = ev_heap w b"
    "queue_values w' \<subseteq> queue_values w"
  shows "ev_ok (w', H)"
proof -
  have "persistent_at w b \<Longrightarrow> b \<in> loose w \<Longrightarrow> persistent_at w' b" for b
    using assms(4) by (simp add: persistent_at_def)
  then have "b \<in> H \<or> persistent_at w' b" if "b \<in> loose w'" for b
    using that assms(1,3,4) unfolding ev_ok_iff by blast
  then show ?thesis using assms by (auto simp: ev_ok_def)
qed

lemma mem_case_option:
  "x \<in> (case m of None \<Rightarrow> {} | Some y \<Rightarrow> S y) \<longleftrightarrow> (\<exists>y. m = Some y \<and> x \<in> S y)"
  by (cases m) auto

lemma queued_at:
  "queued w = (\<Union>d. case ev_clients w d of None \<Rightarrow> {} | Some ob \<Rightarrow> set (event_queue ob))"
  by (rule set_eqI) (simp add: queued_iff mem_case_option)

lemma queue_values_at: "queue_values w = (\<Union>d. case abs_queue w d of None \<Rightarrow> {} | Some q \<Rightarrow> set q)"
  by (rule set_eqI) (auto simp: queue_values_def ran_def mem_case_option)

lemma EventsEnable_ok:
  assumes "ev_ok (w, H)" "EventsEnable c on w = Return () w'"
  shows "ev_ok (w', H)"
proof -
  have wf: "ev_wf w" "ev_core w" using assms(1) by (auto simp: ev_ok_def ev_wf_def)
  obtain ob where ob: "ev_clients w c = Some ob"
    and w': "w' = w\<lparr>ev_clients := (ev_clients w)(c \<mapsto> ob\<lparr>event_enable := on\<rparr>)\<rparr>"
    using assms(2) by (cases "ev_clients w c") (auto simp: EventsEnable_def ev_client_def)
  have q: "queued w' = queued w"
    unfolding queued_at using ob by (intro SUP_cong) (auto simp: w')
  have "abs_queue w' = abs_queue w" using ob by (simp add: abs_queue_def w' fun_eq_iff)
  moreover have "ev_core w'"
  proof (rule ev_coreI)
    have old: "\<exists>p. ev_clients w x = Some p \<and> event_queue y = event_queue p \<and>
        event_queue_mutex y = event_queue_mutex p" if "ev_clients w' x = Some y" for x y
      using that ob by (auto simp: w' split: if_splits)
    show "set (event_queue o1) \<inter> set (event_queue o2) = {}"
      if "ev_clients w' d = Some o1" "ev_clients w' f = Some o2" "d \<noteq> f" for d f o1 o2
      using old [OF that(1)] old [OF that(2)] that(3) ev_core_disjoint [OF wf(2)] by metis
    fix d o' assume "ev_clients w' d = Some o'"
    then obtain p where p: "ev_clients w d = Some p" "event_queue o' = event_queue p"
      "event_queue_mutex o' = event_queue_mutex p" using old by blast
    show "event_queue_mutex o' = MutexFree" "distinct (event_queue o')"
      "set (event_queue o') \<subseteq> dom (ev_heap w')"
      using p(2,3) ev_coreD(1-3) [OF wf(2) p(1)] by (simp_all add: w')
  qed (use ev_core_fields [OF wf(2)] ob in \<open>auto simp: w'\<close>)
  ultimately show ?thesis
    using wf(1) q by (intro ev_ok_loose_same [OF assms(1)])
      (auto simp: ev_wf_def w' loose_def queue_values_def)
qed

lemma csEventClient_ctor_ok:
  assumes "ev_ok (w, H)" "c \<notin> set (event_client w)"
  shows "\<exists>w'. csEventClient_ctor c w = Return () w' \<and> ev_ok (w', H)"
proof -
  have wf: "ev_wf w" "ev_core w" using assms(1) by (auto simp: ev_ok_def ev_wf_def)
  obtain w' where w': "csEventClient_ctor c w = Return () w'" "ev_wf w'" "ev_heap w' = ev_heap w"
    "ev_clients w' = (ev_clients w)(c \<mapsto>
      \<lparr>event_enable = True, event_queue = [], event_queue_mutex = MutexFree\<rparr>)"
    using csEventClient_ctor_spec [OF wf(1) assms(2)] by blast
  have new: "ev_clients w c = None" using ev_core_registered [OF wf(2)] assms(2) by auto
  have q: "queued w' = queued w"
    unfolding queued_at using new by (intro SUP_cong) (auto simp: w'(4))
  have "queue_values w' = queue_values w"
    unfolding queue_values_at using new by (intro SUP_cong) (auto simp: abs_queue_def w'(3,4))
  then show ?thesis using w'(1,2,3) q assms(1)
    by (intro exI [of _ w'] conjI ev_ok_loose_same [OF assms(1)]) (auto simp: loose_def)
qed

lemma csEventClient_dtor_ok:
  assumes "ev_ok (w, H)" "c \<in> set (event_client w)"
  shows "\<exists>w'. csEventClient_dtor c w = Return () w' \<and> ev_ok (w', H)"
proof -
  have wf: "ev_wf w" "ev_core w" using assms(1) by (auto simp: ev_ok_def ev_wf_def)
  obtain ob where ob: "ev_clients w c = Some ob" using ev_core_registered [OF wf(2)] assms(2) by auto
  obtain w' where w': "csEventClient_dtor c w = Return () w'" "ev_wf w'"
    "ev_clients w' = (ev_clients w)(c := None)"
    "ev_heap w' = (\<lambda>b. if b \<in> set (event_queue ob) \<and> \<not> persistent_at w b then None else ev_heap w b)"
    using csEventClient_dtor_spec [OF wf(1) ob] by blast
  have other: "b \<notin> set (event_queue ob)" if "ev_clients w' d = Some o'" "b \<in> set (event_queue o')" for b d o'
    using that ev_core_disjoint [OF wf(2) ob, of d o'] by (auto simp: w'(3) split: if_splits)
  have q: "b \<in> queued w' \<longleftrightarrow> b \<in> queued w \<and> b \<notin> set (event_queue ob)" for b
    using queued_split [OF ob, of b] other unfolding queued_iff [of b w'] w'(3)
    by (metis fun_upd_apply option.distinct(1))
  have loose: "b \<in> loose w' \<and> ev_heap w' b = ev_heap w b" if "b \<in> loose w" for b
    using that q ev_coreD(4) [OF wf(2) ob] by (auto simp: loose_def w'(4))
  have backw: "b \<in> loose w \<or> persistent_at w' b" if "b \<in> loose w'" for b
    using that q by (auto simp: loose_def w'(4) persistent_at_def split: if_splits)
  have "queue_values w' \<subseteq> queue_values w"
  proof
    fix x assume "x \<in> queue_values w'"
    then obtain d o' where d: "ev_clients w' d = Some o'" "x \<in> (\<lambda>a. the (ev_heap w' a)) ` set (event_queue o')"
      by (auto simp: queue_values_def ran_def abs_queue_def)
    then have "(\<lambda>a. the (ev_heap w' a)) ` set (event_queue o') = (\<lambda>a. the (ev_heap w a)) ` set (event_queue o')"
      using other [OF d(1)] by (intro image_cong) (auto simp: w'(4))
    moreover have "ev_clients w d = Some o'" using d(1) by (simp add: w'(3) split: if_splits)
    ultimately show "x \<in> queue_values w" using d(2)
      by (auto simp: queue_values_at mem_case_option abs_queue_def)
  qed
  then show ?thesis using w'(1) ev_ok_loose_same [OF assms(1) w'(2)] loose backw by blast
qed

lemma ev_ok_init: "ev_ok (ev_init, {})"
  by (simp add: ev_ok_def ev_init_def ev_wf_def ev_core_def loose_def queue_values_at abs_queue_def
      critical_free_def critical_init_def)

lemma ev_write_ok:
  assumes "ev_ok (w, H)" "a \<in> H" "ev_heap w a = Some e" "IsSticky (f e) \<longrightarrow> clonable (f e)"
    "ev_write a f w = Return () w'"
  shows "ev_ok (w', H)"
proof -
  have wf: "ev_wf w" "ev_core w" "a \<notin> queued w" using assms(1,2) by (auto simp: ev_ok_def ev_wf_def loose_def)
  have w': "w' = w\<lparr>ev_heap := (ev_heap w)(a \<mapsto> f e)\<rparr>" using assms(3,5) by (simp add: ev_write_def)
  note wl = write_loose [OF wf(2,3) assms(3), of f, folded w']
  have "loose w' = loose w" using wl(3) assms(3) by (auto simp: loose_def w')
  moreover have "ev_wf w'" using wl(1) wf(1) by (simp add: ev_wf_def w')
  moreover have "queue_values w' = queue_values w" using wl(2) by (simp add: queue_values_def)
  moreover have "b = a \<or> ev_heap w' b = ev_heap w b" for b by (simp add: w')
  ultimately show ?thesis using assms(1-4)
    unfolding ev_ok_iff by (auto simp: w' persistent_at_def)
qed

lemma ev_ok_step:
  assumes "ev_step s t" "ev_ok s"
  shows "ev_ok t"
  using assms(1)
proof (cases rule: ev_step.cases)
  case (step_update a H w e f w')
  then show ?thesis using ev_write_ok [of w H a e f w'] assms(2) by auto
next
  case (step_dispatch a H dst w this w')
  have "event_client_mutex w \<noteq> MutexNull"
    using step_dispatch(5) by (auto simp: EventDispatch_def mutex_lock_def)
  then have "event_client w \<noteq> []"
    using assms(2) step_dispatch(1) by (auto simp: ev_ok_iff ev_wf_def split: if_splits)
  then show ?thesis using EventDispatch_ok [of w H a dst this] step_dispatch assms(2) by auto
next
  case (step_pop c w r w' H)
  then show ?thesis using EventPop_ok [of w H c] assms(2) by auto
next
  case (step_destroy a H w w')
  then show ?thesis using EventDestroy_ok [of w H a] assms(2) by auto
next
  case (step_construct c w w' H)
  then show ?thesis using csEventClient_ctor_ok [of w H c] assms(2) by auto
next
  case (step_destruct c w w' H)
  then show ?thesis using csEventClient_dtor_ok [of w H c] assms(2) by auto
qed (use assms(2) in \<open>auto intro: ev_new_ok EventsEnable_ok\<close>)

lemma ev_reachable_ok: "ev_reachable s \<Longrightarrow> ev_ok s"
  by (induction rule: ev_reachable.induct) (auto intro: ev_ok_init ev_ok_step)

section \<open>Waiting for an event\<close>

record timespec =
  tv_sec :: int
  tv_nsec :: int

text \<open>The absolute time at which a wait of \<open>wait_ms\<close> milliseconds ends.\<close>

definition popwait_deadline :: "timespec \<Rightarrow> int \<Rightarrow> timespec" where
  "popwait_deadline now wait_ms =
     (let delay_sec = wait_ms div 1000;
          delay_nsec = (wait_ms - delay_sec * 1000) * 1000 * 1000;
          sec = tv_sec now + delay_sec;
          nsec = tv_nsec now + delay_nsec
      in if nsec \<ge> 1000000000 then \<lparr>tv_sec = sec + 1, tv_nsec = nsec - 1000000000\<rparr>
         else \<lparr>tv_sec = sec, tv_nsec = nsec\<rparr>)"

text \<open>
  The loop of \<open>EventPopWait\<close>. Each element of \<open>waits\<close> is one return from
  \<open>pthread_cond_wait\<close> or \<open>pthread_cond_timedwait\<close>: its result code and what the other
  threads did to the event state meanwhile. When the list is used up the thread never wakes
  again. A negative \<open>wait_ms\<close> makes the code wait with a time it never set.
\<close>

fun popwait_loop ::
  "int \<Rightarrow> nat \<Rightarrow> (int \<times> (ev_world \<Rightarrow> ev_world)) list \<Rightarrow> ev_world \<Rightarrow> (ev_world, nat option) outcome"
where
  "popwait_loop wait_ms this [] w = bindO (EventPop this w) (\<lambda>event w.
     if event \<noteq> None then Return event w
     else if wait_ms < 0 then Undef else Block w)"
| "popwait_loop wait_ms this ((rc, others) # waits) w = bindO (EventPop this w) (\<lambda>event w.
     if event \<noteq> None then Return event w
     else if wait_ms < 0 then Undef
     else if wait_ms \<noteq> 0 \<and> rc = ETIMEDOUT then Return None (others w)
     else if rc \<noteq> 0 then Throw (csException_es rc ''pthread_cond_wait'') (others w)
     else popwait_loop wait_ms this waits (others w))"

definition EventPopWait ::
  "nat \<Rightarrow> int \<Rightarrow> timespec \<Rightarrow> (timespec option \<Rightarrow> (int \<times> (ev_world \<Rightarrow> ev_world)) list) \<Rightarrow>
   ev_world \<Rightarrow> (ev_world, nat option) outcome" where
  "EventPopWait this wait_ms now waits w = popwait_loop wait_ms this
     (waits (if wait_ms > 0 then Some (popwait_deadline now wait_ms) else None)) w"

lemma popwait_loop_no_timeout:
  "popwait_loop 0 c waits w = Return r w' \<Longrightarrow> r \<noteq> None"
proof (induction waits arbitrary: w)
  case Nil
  then show ?case by (auto simp: bindO_Return_iff split: if_splits)
next
  case (Cons x waits)
  then show ?case by (cases x) (auto simp: bindO_Return_iff split: if_splits)
qed

section \<open>A waiting consumer and a producer\<close>

text \<open>
  \<open>EventPush\<close> broadcasts the condition while it holds \<open>event_queue_mutex\<close>, but the consumer
  tests the queue under that mutex and then waits under another one, \<open>event_condition_mutex\<close>.
  The consumer is therefore at one of these points: about to call \<open>EventPop\<close>, past an empty
  \<open>EventPop\<close> but not yet waiting, asleep in \<open>pthread_cond_wait\<close>, or back with an event.
\<close>

datatype consumer_pc = AtPop | BeforeWait | Asleep | Got nat

inductive consumer_step ::
  "nat \<Rightarrow> ev_world \<times> consumer_pc \<Rightarrow> ev_world \<times> consumer_pc \<Rightarrow> bool" for c where
  take_event: "EventPop c w = Return (Some a) w' \<Longrightarrow> consumer_step c (w, AtPop) (w', Got a)"
| queue_empty: "EventPop c w = Return None w' \<Longrightarrow> consumer_step c (w, AtPop) (w', BeforeWait)"
| fall_asleep: "consumer_step c (w, BeforeWait) (w, Asleep)"

inductive producer_step ::
  "nat \<Rightarrow> ev_world \<times> consumer_pc \<Rightarrow> ev_world \<times> consumer_pc \<Rightarrow> bool" for c where
  produce: "EventDispatch p a (ClientAt c) w = Return () w' \<Longrightarrow>
     producer_step c (w, pc) (w', if pc = Asleep \<and> enabled w c then AtPop else pc)"

inductive wait_run ::
  "nat \<Rightarrow> ev_world \<times> consumer_pc \<Rightarrow> ev_world \<times> consumer_pc \<Rightarrow> bool" for c where
  run_refl: "wait_run c s s"
| run_consumer: "wait_run c s t \<Longrightarrow> consumer_step c t u \<Longrightarrow> wait_run c s u"
| run_producer: "wait_run c s t \<Longrightarrow> producer_step c t u \<Longrightarrow> wait_run c s u"

inductive_cases asleep_step: "consumer_step c (w, Asleep) t"

section \<open>Properties\<close>



end
