(* ===== verification/Cs_Event_Properties.thy ===== *)
theory Cs_Event_Properties
  imports Cs_Event_System
begin

text \<open>
  What the event component promises its users (the daemon's main loop, the timer and
  netlink threads and the plugins): delivery of directed and broadcast events, order,
  replacement by exclusive events, the permanence of sticky events, timeouts; and the two
  ways in which the code can hang: the wake-up that is lost between the test of the queue
  and the wait, and the registry mutex that an exception of \<open>Clone\<close> leaves locked.
\<close>

section \<open>Drivers\<close>

text \<open>Taking \<open>n\<close> events one after the other, and dispatching a list of events to one client.\<close>

fun pop_many :: "nat \<Rightarrow> nat \<Rightarrow> ev_world \<Rightarrow> (ev_world, nat option list) outcome" where
  "pop_many c 0 w = Return [] w"
| "pop_many c (Suc n) w = bindO (EventPop c w) (\<lambda>r w.
     bindO (pop_many c n w) (\<lambda>rs w. Return (r # rs) w))"

fun dispatch_many :: "nat \<Rightarrow> nat \<Rightarrow> nat list \<Rightarrow> ev_world \<Rightarrow> (ev_world, unit) outcome" where
  "dispatch_many p c [] w = Return () w"
| "dispatch_many p c (a # as) w = bindO (EventDispatch p a (ClientAt c) w) (\<lambda>_ w.
     dispatch_many p c as w)"

definition plain :: "csEvent \<Rightarrow> bool" where
  "plain e \<longleftrightarrow> \<not> IsExclusive e \<and> \<not> IsHighPriority e \<and> \<not> IsSticky e"

lemma push_spec_plain: "plain e \<Longrightarrow> push_spec e q = q @ [e]"
  by (simp add: plain_def push_spec_def)

lemma plain_frame [simp]: "plain (e\<lparr>ev_src := s\<rparr>) = plain e" "plain (e\<lparr>ev_dst := d\<rparr>) = plain e"
  by (simp_all add: plain_def)

lemma abs_queue_client: "abs_queue w c = Some q \<Longrightarrow> \<exists>ob. ev_clients w c = Some ob"
  by (auto simp: abs_queue_def)

text \<open>A sticky event at the front is handed out as a copy and stays.\<close>

lemma pop_sticky_front:
  assumes "ev_wf w" "abs_queue w c = Some (e # r)" "IsSticky e" "clone_event e = Some e'"
  shows "\<exists>a w'. EventPop c w = Return (Some a) w' \<and> ev_wf w' \<and> ev_heap w' a = Some e' \<and>
    abs_queue w' c = Some (e # r)"
proof -
  obtain ob where ob: "ev_clients w c = Some ob" using abs_queue_client [OF assms(2)] by blast
  obtain x w' where x: "EventPop c w = Return x w'" "ev_wf w'" "set_option x \<subseteq> loose w'"
    "abs_queue w' = (abs_queue w)(c \<mapsto> snd (pop_spec (e # r)))"
    "map_option (\<lambda>a. the (ev_heap w' a)) x = fst (pop_spec (e # r))"
    using EventPop_spec [OF assms(1) ob assms(2)] assms(4) by auto
  then obtain a where "x = Some a" "the (ev_heap w' a) = e'" "a \<in> loose w'"
    using assms(3,4) by (auto simp: pop_spec_def)
  then show ?thesis using x assms(3) by (auto simp: pop_spec_def loose_def)
qed

lemma pop_many_sticky:
  assumes "ev_wf w" "abs_queue w c = Some (e # r)" "IsSticky e" "clone_event e = Some e'"
  shows "\<exists>rs w'. pop_many c n w = Return rs w' \<and> length rs = n \<and> None \<notin> set rs \<and> ev_wf w' \<and>
    abs_queue w' c = Some (e # r)"
  using assms(1,2)
proof (induction n arbitrary: w)
  case 0
  then show ?case by simp
next
  case (Suc n)
  obtain a w1 where 1: "EventPop c w = Return (Some a) w1" "ev_wf w1" "abs_queue w1 c = Some (e # r)"
    using pop_sticky_front [OF Suc.prems assms(3,4)] by blast
  obtain rs w2 where "pop_many c n w1 = Return rs w2" "length rs = n" "None \<notin> set rs" "ev_wf w2"
    "abs_queue w2 c = Some (e # r)"
    using Suc.IH [OF 1(2,3)] by blast
  with 1(1) show ?case by auto
qed

lemma dispatch_many_plain:
  assumes "ev_wf w" "event_client w \<noteq> []" "enabled w c" "distinct as" "set as \<subseteq> loose w"
    "\<forall>a \<in> set as. plain (the (ev_heap w a))" "abs_queue w c = Some q"
  shows "\<exists>w'. dispatch_many p c as w = Return () w' \<and> ev_wf w' \<and>
    (\<exists>es. abs_queue w' c = Some (q @ es) \<and> map ev_id es = map (\<lambda>a. ev_id (the (ev_heap w a))) as \<and>
      list_all plain es)"
  using assms
proof (induction as arbitrary: w q)
  case Nil
  then show ?case by simp
next
  case (Cons a as)
  then obtain e where e: "ev_heap w a = Some e" "a \<notin> queued w" by (auto simp: loose_def)
  let ?e = "e\<lparr>ev_dst := ClientAt c, ev_src := ClientAt p\<rparr>"
  obtain w1 where w1: "EventDispatch p a (ClientAt c) w = Return () w1" "ev_wf w1" "ev_moves {a} {} w w1"
    "abs_queue w1 = broadcast_spec ?e (\<lambda>d. d = c \<and> enabled w c) (abs_queue w)"
    using EventDispatch_client [OF Cons.prems(1,2) e] by blast
  have plain: "plain ?e" using Cons.prems(6) e(1) by simp
  have q1: "abs_queue w1 c = Some (q @ [?e])"
    using w1(4) Cons.prems(3,7) push_spec_plain [OF plain] by (simp add: broadcast_spec_def)
  have keep: "b \<in> loose w1 \<and> ev_heap w1 b = ev_heap w b" if "b \<in> set as" for b
    using that w1(3) Cons.prems(4,5) by (auto simp: ev_moves_def)
  have fr: "event_client w1 \<noteq> []" "enabled w1 c" using w1(3) Cons.prems(2,3) by (auto simp: ev_moves_def)
  obtain w2 es where w2: "dispatch_many p c as w1 = Return () w2" "ev_wf w2"
    "abs_queue w2 c = Some ((q @ [?e]) @ es)"
    "map ev_id es = map (\<lambda>a. ev_id (the (ev_heap w1 a))) as" "list_all plain es"
    using Cons.IH [OF w1(2) fr _ _ _ q1] Cons.prems(4,6) keep by auto
  have "map (\<lambda>a. ev_id (the (ev_heap w1 a))) as = map (\<lambda>a. ev_id (the (ev_heap w a))) as"
    using keep by simp
  then show ?case using w1(1) w2 e(1) plain
    by (intro exI [of _ w2] conjI exI [of _ "?e # es"]) auto
qed

lemma pop_many_plain:
  assumes "ev_wf w" "abs_queue w c = Some es" "list_all plain es"
  shows "\<exists>rs w'. pop_many c (length es) w = Return rs w' \<and> ev_wf w' \<and> abs_queue w' c = Some [] \<and>
    map (\<lambda>r. map_option (\<lambda>a. ev_id (the (ev_heap w a))) r) rs = map (\<lambda>e. Some (ev_id e)) es"
  using assms
proof (induction es arbitrary: w)
  case Nil
  then show ?case by simp
next
  case (Cons e es)
  obtain ob where ob: "ev_clients w c = Some ob" using abs_queue_client [OF Cons.prems(2)] by blast
  have core: "ev_core w" using Cons.prems(1) by (simp add: ev_wf_def)
  obtain a q where q: "event_queue ob = a # q" and a: "the (ev_heap w a) = e"
    using ob Cons.prems(2) by (auto simp: abs_queue_def)
  obtain e0 where e0: "ev_heap w a = Some e0" using ev_coreD(3) [OF core ob] q by auto
  have "\<not> IsSticky e0" using a e0 Cons.prems(3) by (simp add: plain_def)
  note run = EventPop_eq(2) [OF core ob q e0 this]
  note p = popped [OF core ob q]
  have wf1: "ev_wf (set_queue c q w)" using p(1) Cons.prems(1) by (simp add: ev_wf_def set_queue_def)
  have "abs_queue (set_queue c q w) c = Some es" using p(2) Cons.prems(2) by simp
  from Cons.IH [OF wf1 this] Cons.prems(3) obtain rs w' where
    "pop_many c (length es) (set_queue c q w) = Return rs w'" "ev_wf w'" "abs_queue w' c = Some []"
    "map (\<lambda>r. map_option (\<lambda>a. ev_id (the (ev_heap w a))) r) rs = map (\<lambda>e. Some (ev_id e)) es"
    using p(5) by auto
  with run a show ?case by auto
qed

section \<open>A concrete state for the witnesses\<close>

text \<open>Two clients, 0 and 1, with empty queues, and two events held by some thread.\<close>

definition idle_client :: csEventClient where
  "idle_client = \<lparr>event_enable = True, event_queue = [], event_queue_mutex = MutexFree\<rparr>"

definition two_clients :: "csEvent \<Rightarrow> csEvent \<Rightarrow> ev_world" where
  "two_clients e0 e1 = \<lparr>ev_heap = [0 \<mapsto> e0, 1 \<mapsto> e1], ev_next = 2,
     ev_clients = [0 \<mapsto> idle_client, 1 \<mapsto> idle_client], event_client = [0, 1],
     event_client_mutex = MutexFree, ev_critical = critical_init, ev_log = []\<rparr>"

definition quit_event :: csEvent where
  "quit_event = csEvent_ctor csEVENT_QUIT (Flag_Sticky OR Flag_HighPriority)"

definition user_event :: "u64 \<Rightarrow> csEvent" where
  "user_event n = csEvent_ctor (csEVENT_USER + n) Flag_None"

lemma two_clients_simps [simp]:
  "ev_wf (two_clients e0 e1)" "queued (two_clients e0 e1) = {}" "loose (two_clients e0 e1) = {0, 1}"
  "event_client (two_clients e0 e1) = [0, 1]" "enabled (two_clients e0 e1) c \<longleftrightarrow> c = 0 \<or> c = 1"
  "abs_queue (two_clients e0 e1) 0 = Some []" "abs_queue (two_clients e0 e1) (Suc 0) = Some []"
  "ev_heap (two_clients e0 e1) 0 = Some e0" "ev_heap (two_clients e0 e1) (Suc 0) = Some e1"
proof -
  show q: "queued (two_clients e0 e1) = {}"
    by (auto simp: queued_iff two_clients_def idle_client_def split: if_splits)
  show "ev_wf (two_clients e0 e1)"
    by (auto simp: ev_wf_def ev_core_def two_clients_def idle_client_def critical_free_def
        critical_init_def split: if_splits)
  show "loose (two_clients e0 e1) = {0, 1}" using q by (auto simp: loose_def two_clients_def)
qed (auto simp: two_clients_def idle_client_def enabled_def abs_queue_def)

lemma quit_event_flags [simp]:
  "IsSticky quit_event" "IsHighPriority quit_event" "\<not> IsExclusive quit_event"
  "\<not> IsPersistent quit_event" "clone_event quit_event = Some quit_event" "ev_id quit_event = csEVENT_QUIT"
  by (simp_all add: quit_event_def csEvent_ctor_def IsSticky_def IsHighPriority_def IsExclusive_def
      IsPersistent_def event_flag_values clone_event_def)

lemma user_event_simps [simp]:
  "plain (user_event n)" "clone_event (user_event n) = Some (user_event n)"
  "ev_id (user_event n) = csEVENT_USER + n" "\<not> IsPersistent (user_event n)"
  by (simp_all add: plain_def user_event_def csEvent_ctor_def IsSticky_def IsHighPriority_def
      IsExclusive_def IsPersistent_def event_flag_values clone_event_def)

section \<open>Delivery\<close>

text \<open>
  C5. Directed dispatch. Dispatching a held event to client \<open>c\<close> returns, keeps the state well
  formed, and changes the queues exactly as the specification says: an enabled registered
  \<open>c\<close> gets the event, stamped with its source and target, where \<open>push_spec\<close> puts it; no other
  queue changes; if \<open>c\<close> is unknown or disabled nothing is queued. The event is taken over in
  every case and no other held event is touched.
\<close>

theorem dispatch_delivers:
  assumes "ev_wf w" "event_client w \<noteq> []" "ev_heap w a = Some e" "a \<notin> queued w"
  shows "\<exists>w'. EventDispatch this a (ClientAt c) w = Return () w' \<and> ev_wf w' \<and>
    abs_queue w' = (if enabled w c then (abs_queue w)(c \<mapsto>
        push_spec (e\<lparr>ev_dst := ClientAt c, ev_src := ClientAt this\<rparr>) (the (abs_queue w c)))
      else abs_queue w) \<and>
    (\<forall>b \<in> loose w - {a}. b \<in> loose w' \<and> ev_heap w' b = ev_heap w b) \<and>
    (a \<in> loose w' \<longrightarrow> persistent_at w' a)"
proof -
  obtain w' where w': "EventDispatch this a (ClientAt c) w = Return () w'" "ev_wf w'" "ev_moves {a} {} w w'"
    "abs_queue w' = broadcast_spec (e\<lparr>ev_dst := ClientAt c, ev_src := ClientAt this\<rparr>)
      (\<lambda>d. d = c \<and> enabled w c) (abs_queue w)"
    using EventDispatch_client [OF assms] by blast
  then show ?thesis
    by (intro exI [of _ w']) (auto simp: ev_moves_def broadcast_spec_def fun_eq_iff)
qed

theorem dispatch_delivers_witness:
  "\<exists>w'. EventDispatch 0 1 (ClientAt 1) (two_clients quit_event (user_event 5)) = Return () w' \<and>
    map_option (map ev_id) (abs_queue w' 1) = Some [csEVENT_USER + 5] \<and> abs_queue w' 0 = Some []"
proof -
  obtain w' where "EventDispatch 0 1 (ClientAt 1) (two_clients quit_event (user_event 5)) = Return () w'"
    "abs_queue w' = (abs_queue (two_clients quit_event (user_event 5)))(1 \<mapsto> push_spec
       ((user_event 5)\<lparr>ev_dst := ClientAt 1, ev_src := ClientAt 0\<rparr>) [])"
    using dispatch_delivers [of "two_clients quit_event (user_event 5)" 1 "user_event 5" 0 1] by auto
  then show ?thesis by (auto simp: push_spec_plain)
qed

text \<open>
  C6. Broadcast. Broadcasting a held event that can be cloned returns, and every enabled
  client's queue changes as if it had been sent its own copy; the queues of disabled clients
  do not change. The original is taken over.
\<close>

theorem broadcast_delivers:
  assumes "ev_wf w" "event_client w \<noteq> []" "ev_heap w a = Some e" "a \<notin> queued w"
    "clone_event e = Some e'"
  shows "\<exists>w'. EventBroadcast this a w = Return () w' \<and> ev_wf w' \<and>
    (\<forall>c. abs_queue w' c = (if enabled w c then Some (push_spec
        (e'\<lparr>ev_dst := BroadcastClient, ev_src := ClientAt this\<rparr>) (the (abs_queue w c)))
      else abs_queue w c)) \<and>
    (\<forall>b \<in> loose w - {a}. b \<in> loose w' \<and> ev_heap w' b = ev_heap w b) \<and>
    (a \<in> loose w' \<longrightarrow> persistent_at w' a)"
proof -
  obtain w' where w': "EventBroadcast this a w = Return () w'" "ev_wf w'" "ev_moves {a} {} w w'"
    "abs_queue w' = broadcast_spec (e'\<lparr>ev_dst := BroadcastClient, ev_src := ClientAt this\<rparr>)
      (enabled w) (abs_queue w)"
    using EventBroadcast_spec [OF assms] by blast
  then show ?thesis
    by (intro exI [of _ w']) (auto simp: ev_moves_def broadcast_spec_def fun_eq_iff)
qed

theorem broadcast_delivers_witness:
  "\<exists>w'. EventBroadcast 0 1 (two_clients quit_event (user_event 5)) = Return () w' \<and>
    map_option (map ev_id) (abs_queue w' 0) = Some [csEVENT_USER + 5] \<and>
    map_option (map ev_id) (abs_queue w' 1) = Some [csEVENT_USER + 5]"
proof -
  obtain w' where "EventBroadcast 0 1 (two_clients quit_event (user_event 5)) = Return () w'"
    "\<forall>c \<in> {0, 1}. abs_queue w' c = Some (push_spec
       ((user_event 5)\<lparr>ev_dst := BroadcastClient, ev_src := ClientAt 0\<rparr>) [])"
    using broadcast_delivers [of "two_clients quit_event (user_event 5)" 1 "user_event 5" "user_event 5" 0]
    by auto
  then show ?thesis by (auto simp: push_spec_plain)
qed

section \<open>Order, replacement and permanence\<close>

text \<open>
  C25. The shutdown message cannot be lost. After a broadcast of a sticky, high-priority
  event, as the signal handler sends \<open>csEVENT_QUIT\<close>, every enabled client finds it first,
  however many events were queued before and however often it takes one: each of its next
  \<open>n\<close> pops returns an event, and that event is still at the front afterwards.
\<close>

theorem quit_reaches_every_client:
  assumes "ev_wf w" "event_client w \<noteq> []" "ev_heap w a = Some e" "a \<notin> queued w"
    "IsSticky e" "IsHighPriority e" "clone_event e = Some e'"
  shows "\<exists>w'. EventBroadcast this a w = Return () w' \<and>
    (\<forall>c n. enabled w c \<longrightarrow> (\<exists>r w1. EventPop c w' = Return (Some r) w1 \<and>
        ev_id (the (ev_heap w1 r)) = ev_id e) \<and>
      (\<exists>rs w2 x q. pop_many c n w' = Return rs w2 \<and> length rs = n \<and> None \<notin> set rs \<and>
        abs_queue w2 c = Some (x # q) \<and> ev_id x = ev_id e))"
proof -
  let ?e = "e'\<lparr>ev_dst := BroadcastClient, ev_src := ClientAt this\<rparr>"
  obtain w' where w': "EventBroadcast this a w = Return () w'" "ev_wf w'"
    "abs_queue w' = broadcast_spec ?e (enabled w) (abs_queue w)"
    using EventBroadcast_spec [OF assms(1-4,7)] by blast
  have id: "ev_id e' = ev_id e" "IsSticky ?e" "IsHighPriority ?e"
    using assms(5-7) by (auto simp: clone_event_def split: option.splits)
  obtain e'' where e'': "clone_event ?e = Some e''"
    using clone_clonable [OF assms(7)] clonable_frame unfolding clonable_def by (metis not_None_eq)
  have id'': "ev_id e'' = ev_id e" using e'' id(1) by (auto simp: clone_event_def split: option.splits)
  have "(\<exists>r w1. EventPop c w' = Return (Some r) w1 \<and> ev_id (the (ev_heap w1 r)) = ev_id e) \<and>
      (\<exists>rs w2 x q. pop_many c n w' = Return rs w2 \<and> length rs = n \<and> None \<notin> set rs \<and>
        abs_queue w2 c = Some (x # q) \<and> ev_id x = ev_id e)" if on: "enabled w c" for c n
  proof -
    obtain q where q: "abs_queue w' c = Some (?e # q)"
      using w'(3) on id(3) by (auto simp: broadcast_spec_def push_spec_def Let_def)
    have "\<exists>r w1. EventPop c w' = Return (Some r) w1 \<and> ev_id (the (ev_heap w1 r)) = ev_id e"
      using pop_sticky_front [OF w'(2) q id(2) e''] id'' by force
    moreover have "\<exists>rs w2. pop_many c n w' = Return rs w2 \<and> length rs = n \<and> None \<notin> set rs \<and>
        abs_queue w2 c = Some (?e # q)"
      using pop_many_sticky [OF w'(2) q id(2) e''] by blast
    ultimately show ?thesis using id(1) by force
  qed
  then show ?thesis using w'(1) by blast
qed

theorem quit_reaches_every_client_witness:
  "\<exists>w'. EventBroadcast 0 0 (two_clients quit_event (user_event 5)) = Return () w' \<and>
    (\<exists>r w1. EventPop 1 w' = Return (Some r) w1 \<and> ev_id (the (ev_heap w1 r)) = csEVENT_QUIT)"
proof -
  obtain w' where w': "EventBroadcast 0 0 (two_clients quit_event (user_event 5)) = Return () w'"
    "enabled (two_clients quit_event (user_event 5)) 1 \<longrightarrow>
      (\<exists>r w1. EventPop 1 w' = Return (Some r) w1 \<and> ev_id (the (ev_heap w1 r)) = ev_id quit_event)"
    using quit_reaches_every_client [of "two_clients quit_event (user_event 5)" 0 quit_event quit_event 0]
    by auto
  then show ?thesis by auto
qed

lemma count_drop_first:
  "length (filter P (drop_first P xs)) = length (filter P xs) - 1"
  "filter (\<lambda>x. \<not> P x) (drop_first P xs) = filter (\<lambda>x. \<not> P x) xs"
  by (induction xs) auto

text \<open>
  Exclusive events. Dispatching an exclusive event to an enabled client leaves exactly one
  event with its id in the queue, or as many as there were if there were several: it
  replaces the oldest and never adds a duplicate. The events with other ids stay, in order.
\<close>

theorem exclusive_replaces:
  assumes "ev_wf w" "enabled w c" "ev_heap w a = Some e" "a \<notin> queued w" "IsExclusive e"
    "abs_queue w c = Some q"
  shows "\<exists>w' q'. EventDispatch this a (ClientAt c) w = Return () w' \<and> abs_queue w' c = Some q' \<and>
    length (filter (\<lambda>x. ev_id x = ev_id e) q') = max 1 (length (filter (\<lambda>x. ev_id x = ev_id e) q)) \<and>
    filter (\<lambda>x. ev_id x \<noteq> ev_id e) q' = filter (\<lambda>x. ev_id x \<noteq> ev_id e) q"
proof -
  let ?e = "e\<lparr>ev_dst := ClientAt c, ev_src := ClientAt this\<rparr>"
  have ne: "event_client w \<noteq> []"
    using assms(1,2) ev_core_registered [of w c] by (auto simp: ev_wf_def enabled_def)
  obtain w' where w': "EventDispatch this a (ClientAt c) w = Return () w'"
    "abs_queue w' = broadcast_spec ?e (\<lambda>d. d = c \<and> enabled w c) (abs_queue w)"
    using EventDispatch_client [OF assms(1) ne assms(3,4)] by blast
  let ?P = "\<lambda>x. ev_id x = ev_id e"
  have "length (filter ?P (push_spec ?e q)) = max 1 (length (filter ?P q))"
    "filter (\<lambda>x. \<not> ?P x) (push_spec ?e q) = filter (\<lambda>x. \<not> ?P x) q"
    using assms(5) count_drop_first [of ?P q] by (auto simp: push_spec_def Let_def)
  then show ?thesis using w' assms(2,6)
    by (intro exI [of _ w'] exI [of _ "push_spec ?e q"]) (simp add: broadcast_spec_def)
qed

theorem exclusive_replaces_witness:
  "\<exists>w' q'. EventDispatch 0 1 (ClientAt 1)
      (two_clients quit_event (SetExclusive True (user_event 5))) = Return () w' \<and>
    abs_queue w' 1 = Some q' \<and> length (filter (\<lambda>x. ev_id x = csEVENT_USER + 5) q') = 1"
proof -
  have ex: "IsExclusive (SetExclusive True (user_event 5))"
    "ev_id (SetExclusive True (user_event 5)) = csEVENT_USER + 5"
    by (simp_all add: SetExclusive_def IsExclusive_def event_flag_values user_event_def csEvent_ctor_def)
  show ?thesis
    using exclusive_replaces [of "two_clients quit_event (SetExclusive True (user_event 5))" 1 1
        "SetExclusive True (user_event 5)" "[]" 0] ex by auto
qed

text \<open>
  C26. Order. Events without flags that are dispatched to an idle enabled client are taken in
  the order of their dispatch, each exactly once, and the queue is empty afterwards.
\<close>

theorem plain_events_in_order:
  assumes "ev_wf w" "enabled w c" "distinct as" "set as \<subseteq> loose w"
    "\<forall>a \<in> set as. plain (the (ev_heap w a))" "abs_queue w c = Some []"
  shows "\<exists>w1 rs w2. dispatch_many p c as w = Return () w1 \<and>
    pop_many c (length as) w1 = Return rs w2 \<and> abs_queue w2 c = Some [] \<and>
    map (\<lambda>r. map_option (\<lambda>a. ev_id (the (ev_heap w1 a))) r) rs =
      map (\<lambda>a. Some (ev_id (the (ev_heap w a)))) as"
proof -
  have ne: "event_client w \<noteq> []"
    using assms(1,2) ev_core_registered [of w c] by (auto simp: ev_wf_def enabled_def)
  obtain w1 es where w1: "dispatch_many p c as w = Return () w1" "ev_wf w1" "abs_queue w1 c = Some es"
    "map ev_id es = map (\<lambda>a. ev_id (the (ev_heap w a))) as" "list_all plain es"
    using dispatch_many_plain [OF assms(1) ne assms(2-6), of p] by auto
  have len: "length es = length as" using w1(4) by (metis length_map)
  obtain rs w2 where "pop_many c (length es) w1 = Return rs w2" "abs_queue w2 c = Some []"
    "map (\<lambda>r. map_option (\<lambda>a. ev_id (the (ev_heap w1 a))) r) rs = map (\<lambda>e. Some (ev_id e)) es"
    using pop_many_plain [OF w1(2,3,5)] by blast
  moreover have "map (\<lambda>e. Some (ev_id e)) es = map (\<lambda>a. Some (ev_id (the (ev_heap w a)))) as"
    using arg_cong [OF w1(4), of "map Some"] by (simp add: comp_def)
  ultimately show ?thesis using w1(1) len by auto
qed

theorem plain_events_in_order_witness:
  "\<exists>w1 rs w2. dispatch_many 0 1 [0, 1] (two_clients (user_event 1) (user_event 2)) = Return () w1 \<and>
    pop_many 1 2 w1 = Return rs w2 \<and>
    map (\<lambda>r. map_option (\<lambda>a. ev_id (the (ev_heap w1 a))) r) rs =
      [Some (csEVENT_USER + 1), Some (csEVENT_USER + 2)]"
  using plain_events_in_order [of "two_clients (user_event 1) (user_event 2)" 1 "[0, 1]" 0]
  by (auto simp: numeral_2_eq_2)

section \<open>Timeouts\<close>

text \<open>
  C33. The deadline of a timed wait is exact and normalised: the nanoseconds are a proper
  fraction of a second, and the whole time is the current time plus \<open>wait_ms\<close> milliseconds.
\<close>

theorem popwait_deadline_exact:
  assumes "0 < wait_ms" "0 \<le> tv_nsec now" "tv_nsec now < 1000000000"
  shows "0 \<le> tv_nsec (popwait_deadline now wait_ms) \<and>
    tv_nsec (popwait_deadline now wait_ms) < 1000000000 \<and>
    tv_sec (popwait_deadline now wait_ms) * 1000000000 + tv_nsec (popwait_deadline now wait_ms) =
      tv_sec now * 1000000000 + tv_nsec now + wait_ms * 1000000"
proof -
  define d where "d = wait_ms div 1000"
  define m where "m = wait_ms mod 1000"
  have w: "wait_ms = d * 1000 + m" "0 \<le> m" "m < 1000" by (simp_all add: d_def m_def)
  then have "wait_ms div 1000 = d" by simp
  then show ?thesis using assms w by (auto simp: popwait_deadline_def Let_def)
qed

theorem popwait_deadline_exact_witness:
  "popwait_deadline \<lparr>tv_sec = 10, tv_nsec = 999000000\<rparr> 1500 = \<lparr>tv_sec = 12, tv_nsec = 499000000\<rparr> \<and>
   tv_nsec (popwait_deadline \<lparr>tv_sec = 10, tv_nsec = 999000000\<rparr> 1500) < 1000000000"
  using popwait_deadline_exact [of 1500 "\<lparr>tv_sec = 10, tv_nsec = 999000000\<rparr>"]
  by (simp add: popwait_deadline_def Let_def)

text \<open>
  \<open>EventPopWait\<close>. With an event in the queue it returns that event at once, without
  waiting, whatever the timeout; and without a timeout (\<open>wait_ms = 0\<close>) it never comes back
  empty-handed, so \<open>csMain::Run\<close> and the plugins may use the result unchecked.
\<close>

theorem popwait_returns_event:
  assumes "ev_wf w" "abs_queue w c = Some (e # q)" "IsSticky e \<longrightarrow> clonable e"
  shows "(\<exists>a w'. \<forall>wait_ms waits. EventPopWait c wait_ms now waits w = Return (Some a) w') \<and>
    (\<forall>waits v r w'. EventPopWait c 0 now waits v = Return r w' \<longrightarrow> r \<noteq> None)"
proof -
  obtain ob where ob: "ev_clients w c = Some ob" using abs_queue_client [OF assms(2)] by blast
  obtain r w' where r: "EventPop c w = Return r w'"
    "map_option (\<lambda>a. the (ev_heap w' a)) r = fst (pop_spec (e # q))"
    using EventPop_spec [OF assms(1) ob assms(2)] assms(3) by (auto simp: clonable_def)
  then obtain a where "r = Some a" using assms(3)
    by (auto simp: pop_spec_def clonable_def split: if_splits)
  with r(1) have "popwait_loop wait_ms c ws w = Return (Some a) w'" for wait_ms ws
    by (cases ws) auto
  then show ?thesis using popwait_loop_no_timeout by (auto simp: EventPopWait_def)
qed

theorem popwait_returns_event_witness:
  "\<exists>w a w'. \<forall>waits. EventPopWait 1 500 \<lparr>tv_sec = 0, tv_nsec = 0\<rparr> waits w = Return (Some a) w'"
proof -
  let ?w = "two_clients quit_event (user_event 5)"
  obtain w1 where w1: "EventDispatch 0 1 (ClientAt 1) ?w = Return () w1" "ev_wf w1"
    "abs_queue w1 = broadcast_spec ((user_event 5)\<lparr>ev_dst := ClientAt 1, ev_src := ClientAt 0\<rparr>)
      (\<lambda>d. d = 1 \<and> enabled ?w 1) (abs_queue ?w)"
    using EventDispatch_client [of ?w 1 "user_event 5" 0 1] by auto
  let ?e = "(user_event 5)\<lparr>ev_dst := ClientAt 1, ev_src := ClientAt 0\<rparr>"
  have "abs_queue w1 1 = Some [?e]" using w1(3) by (simp add: broadcast_spec_def push_spec_plain)
  moreover have "\<not> IsSticky ?e" using user_event_simps(1) [of 5] by (simp add: plain_def)
  ultimately obtain a w' where
    "\<forall>wait_ms waits. EventPopWait 1 wait_ms \<lparr>tv_sec = 0, tv_nsec = 0\<rparr> waits w1 = Return (Some a) w'"
    using popwait_returns_event [OF w1(2), of 1 ?e "[]" "\<lparr>tv_sec = 0, tv_nsec = 0\<rparr>"] by blast
  then show ?thesis by blast
qed

section \<open>Two ways to hang\<close>

text \<open>
  C36. The lost wake-up. Whenever an enabled consumer finds its queue empty, there is an
  interleaving in which a producer's event arrives before the consumer waits: the consumer
  is then asleep although its queue holds the event, and it cannot take another step by
  itself, because \<open>EventPush\<close> signals the condition without \<open>event_condition_mutex\<close>.
\<close>

theorem lost_wakeup:
  assumes "ev_wf w" "enabled w c" "abs_queue w c = Some []" "ev_heap w a = Some e" "a \<notin> queued w"
    "plain e"
  shows "\<exists>w' x. wait_run c (w, AtPop) (w', Asleep) \<and> abs_queue w' c = Some [x] \<and> ev_id x = ev_id e \<and>
    \<not> (\<exists>t. consumer_step c (w', Asleep) t)"
proof -
  have core: "ev_core w" using assms(1) by (simp add: ev_wf_def)
  obtain ob where ob: "ev_clients w c = Some ob" "event_queue ob = []"
    using assms(2,3) by (auto simp: enabled_def abs_queue_def)
  have ne: "event_client w \<noteq> []" using ob(1) ev_core_registered [OF core, of c] by auto
  let ?e = "e\<lparr>ev_dst := ClientAt c, ev_src := ClientAt c\<rparr>"
  obtain w' where w': "EventDispatch c a (ClientAt c) w = Return () w'"
    "abs_queue w' = broadcast_spec ?e (\<lambda>d. d = c \<and> enabled w c) (abs_queue w)"
    using EventDispatch_client [OF assms(1) ne assms(4,5)] by blast
  have 1: "wait_run c (w, AtPop) (w, BeforeWait)"
    by (rule run_consumer [OF run_refl queue_empty]) (rule EventPop_eq(1) [OF core ob])
  have 2: "wait_run c (w, AtPop) (w', BeforeWait)"
    using run_producer [OF 1 produce [OF w'(1)]] by simp
  have 3: "wait_run c (w, AtPop) (w', Asleep)" by (rule run_consumer [OF 2 fall_asleep])
  have "abs_queue w' c = Some [?e]"
    using w'(2) assms(2,3,6) push_spec_plain [of ?e] by (simp add: broadcast_spec_def)
  then show ?thesis using 3 by (intro exI [of _ w'] exI [of _ ?e]) (auto elim: asleep_step)
qed

theorem lost_wakeup_witness:
  "\<exists>w' x. wait_run 1 (two_clients quit_event (user_event 5), AtPop) (w', Asleep) \<and>
    abs_queue w' 1 = Some [x] \<and> ev_id x = csEVENT_USER + 5"
  using lost_wakeup [of "two_clients quit_event (user_event 5)" 1 1 "user_event 5"] by auto

lemma broadcast_loop_throws:
  assumes "set is \<subseteq> dom (ev_clients w)" "\<exists>c \<in> set is. enabled w c" "ev_heap w a = Some e"
    "clone_event e = None"
  shows "broadcast_loop this a is w = Throw (csException_es EINVAL ''Broadcast/clone'') w"
  using assms(1,2)
proof (induction "is")
  case (Cons i "is")
  then obtain ob where "ev_clients w i = Some ob" by auto
  with Cons assms(3,4) show ?case
    by (auto simp: IsEventsEnabled_def ev_client_def Clone_def ev_read_def enabled_def)
qed simp

text \<open>
  C37. Broadcasting a netlink event wedges the event system: \<open>Clone\<close> throws out of
  \<open>EventDispatch\<close> while the registry mutex is held, nothing unlocks it, and from then on every
  dispatch by any thread blocks for ever.
\<close>

theorem netlink_broadcast_wedges:
  assumes "ev_wf w" "\<exists>c. enabled w c" "ev_heap w a = Some e" "ev_class e = EvNetlink ty qu sq rs"
  shows "\<exists>w'. EventBroadcast this a w = Throw (csException_es EINVAL ''Broadcast/clone'') w' \<and>
    event_client_mutex w' = MutexHeld \<and> (\<forall>p b dst. EventDispatch p b dst w' = Block w')"
proof -
  have core: "ev_core w" using assms(1) by (simp add: ev_wf_def)
  obtain c ob where c: "ev_clients w c = Some ob" "enabled w c" using assms(2) by (auto simp: enabled_def)
  have reg: "c \<in> set (event_client w)" using c(1) ev_core_registered [OF core] by blast
  then have m: "event_client_mutex w = MutexFree" using assms(1) by (auto simp: ev_wf_def)
  let ?w1 = "w\<lparr>event_client_mutex := MutexHeld, ev_heap := (ev_heap w)(a \<mapsto> e\<lparr>ev_dst := BroadcastClient\<rparr>)\<rparr>"
  have "clone_event (e\<lparr>ev_dst := BroadcastClient\<rparr>) = None" using assms(4) by (simp add: clone_event_def)
  moreover have "\<exists>c \<in> set (event_client w). enabled ?w1 c" using reg c(2) by (auto simp: enabled_def)
  moreover have "set (event_client w) \<subseteq> dom (ev_clients ?w1)" using ev_core_fields(1) [OF core] by simp
  ultimately have "broadcast_loop this a (event_client w) ?w1 =
      Throw (csException_es EINVAL ''Broadcast/clone'') ?w1"
    by (intro broadcast_loop_throws [where e = "e\<lparr>ev_dst := BroadcastClient\<rparr>"]) auto
  then have "EventBroadcast this a w = Throw (csException_es EINVAL ''Broadcast/clone'') ?w1"
    using m assms(3) by (simp add: EventBroadcast_def EventDispatch_def mutex_lock_def ev_write_def)
  then show ?thesis by (intro exI [of _ ?w1]) (simp add: EventDispatch_def mutex_lock_def)
qed

theorem netlink_broadcast_wedges_witness:
  "\<exists>w'. EventBroadcast 0 0 (two_clients ((csEvent_ctor csEVENT_NETLINK Flag_None)
      \<lparr>ev_class := EvNetlink NL_Query 18 0 []\<rparr>) (user_event 5)) =
      Throw (csException_es EINVAL ''Broadcast/clone'') w' \<and>
    EventDispatch 1 1 (ClientAt 0) w' = Block w'"
proof -
  let ?e = "(csEvent_ctor csEVENT_NETLINK Flag_None)\<lparr>ev_class := EvNetlink NL_Query 18 0 []\<rparr>"
  show ?thesis
    using netlink_broadcast_wedges [of "two_clients ?e (user_event 5)" 0 ?e NL_Query 18 0 "[]" 0] by auto
qed

end
