(* ===== verification/Cs_Plugin.thy ===== *)
theory Cs_Plugin
  imports Cs_Log Cs_Event
begin

text \<open>
  Plugins: their persistent state variables and the state file (\<open>csplugin.cpp\<close>,
  \<open>include/clearsync/csplugin.h\<close>).

  A plugin's variables are a \<open>std::map\<close> from names to counted byte blocks; \<open>value\<close> is null
  for an empty block. The state file is a file of a small disk model: file contents by path,
  how far a file can be read and how large it can grow, and which \<open>fopen\<close> calls fail. A
  stream is a path, a position and the end-of-file flag; stdio's buffer is not modelled, so
  a write reaches the file at once. \<open>alloc n\<close> says whether \<open>new\<close> of \<open>n\<close> bytes succeeds.

  The lemmas: the typed accessors as instances of one contract (\<open>var_store\<close>); the file format
  (\<open>enc_state\<close>) and what \<open>SaveState\<close> and \<open>LoadState\<close> do to it, on intact, truncated and
  arbitrary files.
\<close>

section \<open>Files\<close>

record disk =
  dk_files :: "string \<rightharpoonup> bytes"
  dk_good :: "string \<Rightarrow> nat"
  dk_limit :: "string \<Rightarrow> nat"
  dk_refuse :: "string \<Rightarrow> string \<Rightarrow> int option"
  dk_strerror :: "int \<Rightarrow> string"

record stream =
  f_path :: string
  f_pos :: nat
  f_eof :: bool

definition dk_data :: "disk \<Rightarrow> string \<Rightarrow> bytes" where
  "dk_data d p = (case dk_files d p of None \<Rightarrow> [] | Some bs \<Rightarrow> bs)"

text \<open>\<open>stat\<close> fails when there is no file; ENOENT is 2.\<close>

definition stat_ok :: "string \<Rightarrow> disk \<Rightarrow> bool" where
  "stat_ok p d \<longleftrightarrow> dk_files d p \<noteq> None"

definition ENOENT :: int where "ENOENT = 2"

text \<open>\<open>fopen\<close> with the two modes the code uses: \<open>r+\<close> needs the file, \<open>w+\<close> makes it empty.\<close>

definition fopen :: "string \<Rightarrow> string \<Rightarrow> disk \<Rightarrow> (int + stream) \<times> disk" where
  "fopen p m d = (case dk_refuse d p m of Some e \<Rightarrow> (Inl e, d)
     | None \<Rightarrow> if m = ''w+'' then (Inr \<lparr>f_path = p, f_pos = 0, f_eof = False\<rparr>,
                 d\<lparr>dk_files := (dk_files d)(p \<mapsto> [])\<rparr>)
               else if dk_files d p = None then (Inl ENOENT, d)
               else (Inr \<lparr>f_path = p, f_pos = 0, f_eof = False\<rparr>, d))"

text \<open>
  \<open>fread\<close> of \<open>n\<close> bytes: \<open>Some\<close> when all were read. A short read at the end of the file sets
  the end-of-file flag, one at an unreadable place does not.
\<close>

definition fread :: "nat \<Rightarrow> stream \<Rightarrow> disk \<Rightarrow> bytes option \<times> stream" where
  "fread n f d = (let bs = dk_data d (f_path f); g = dk_good d (f_path f);
       avail = min (length bs) g - f_pos f; k = min n avail
     in (if k = n then Some (take n (drop (f_pos f) bs)) else None,
         f\<lparr>f_pos := f_pos f + k, f_eof := f_eof f \<or> (k < n \<and> length bs \<le> g)\<rparr>))"

text \<open>\<open>fwrite\<close>: true when all bytes were written; nothing is written beyond the limit.\<close>

definition fwrite :: "bytes \<Rightarrow> stream \<Rightarrow> disk \<Rightarrow> bool \<times> stream \<times> disk" where
  "fwrite out f d = (let bs = dk_data d (f_path f);
       k = min (length out) (dk_limit d (f_path f) - f_pos f)
     in (k = length out, f\<lparr>f_pos := f_pos f + k\<rparr>,
         d\<lparr>dk_files := (dk_files d)(f_path f \<mapsto>
            take (f_pos f) bs @ take k out @ drop (f_pos f + k) bs)\<rparr>))"

definition rewind :: "stream \<Rightarrow> stream" where
  "rewind f = f\<lparr>f_pos := 0, f_eof := False\<rparr>"

section \<open>Plugins\<close>

record csPluginStateValue =
  sv_length :: u64
  sv_value :: "bytes option"

record csPlugin =
  pl_name :: string
  pl_parent :: nat
  fh_state :: "stream option"
  pl_vars :: "(string, csPluginStateValue) omap"
  pl_disk :: disk
  pl_log :: "log_call list"

text \<open>\<open>csLog::Log\<close> as the plugin calls it: level, format and arguments, oldest call first.\<close>

definition pl_say :: "u32 \<Rightarrow> string \<Rightarrow> fmt_arg list \<Rightarrow> csPlugin \<Rightarrow> csPlugin" where
  "pl_say level format args p = p\<lparr>pl_log := pl_log p @ [(level, format, args)]\<rparr>"

definition pl_error :: "string \<Rightarrow> csPlugin \<Rightarrow> csPlugin" where
  "pl_error format p = pl_say Level_Error format [ArgS (c_str (pl_name p))] p"

definition pl_read :: "nat \<Rightarrow> csPlugin \<Rightarrow> bytes option \<times> csPlugin" where
  "pl_read n p = (case fh_state p of None \<Rightarrow> (None, p)
     | Some f \<Rightarrow> let (r, f) = fread n f (pl_disk p) in (r, p\<lparr>fh_state := Some f\<rparr>))"

definition pl_write :: "bytes \<Rightarrow> csPlugin \<Rightarrow> bool \<times> csPlugin" where
  "pl_write bs p = (case fh_state p of None \<Rightarrow> (False, p)
     | Some f \<Rightarrow> let (b, f, d) = fwrite bs f (pl_disk p)
                 in (b, p\<lparr>fh_state := Some f, pl_disk := d\<rparr>))"

definition pl_rewind :: "csPlugin \<Rightarrow> csPlugin" where
  "pl_rewind p = p\<lparr>fh_state := map_option rewind (fh_state p)\<rparr>"

definition csPlugin_ctor :: "string \<Rightarrow> nat \<Rightarrow> u64 \<Rightarrow> disk \<Rightarrow> csPlugin" where
  "csPlugin_ctor name parent stack_size d =
     pl_say Level_Debug ''Plugin initialized: %s, stack size: %ld''
       [ArgS (c_str name), ArgI (sint stack_size)]
       \<lparr>pl_name = name, pl_parent = parent, fh_state = None, pl_vars = [], pl_disk = d, pl_log = []\<rparr>"

text \<open>
  The loop of \<open>LoadState\<close>: \<open>n\<close> records are still to be read. Every failure is logged and ends
  the loop with the variables read so far.
\<close>

fun load_records :: "(nat \<Rightarrow> bool) \<Rightarrow> nat \<Rightarrow> csPlugin \<Rightarrow> (csPlugin, unit) outcome" where
  "load_records alloc 0 p = Return () p"
| "load_records alloc (Suc n) p =
     (case pl_read 8 p of
        (None, p) \<Rightarrow> Return () (pl_error ''%s: Error reading state 1'' p)
      | (Some bs, p) \<Rightarrow>
     let klength = get_u64 bs in
     if klength = 0 then Return () (pl_error ''%s: Corrupt state file 2'' p)
     else if \<not> alloc (unat klength) then Throw bad_alloc p
     else case pl_read (unat klength) p of
        (None, p) \<Rightarrow> Return () (pl_error ''%s: Error reading state 3'' p)
      | (Some kb, p) \<Rightarrow>
     let key = map char_of_byte kb in
     case pl_read 8 p of
        (None, p) \<Rightarrow> Return () (pl_error ''%s: Error reading state 4'' p)
      | (Some bs, p) \<Rightarrow>
     let vlength = get_u64 bs in
     if vlength = 0 then
       load_records alloc n
         (p\<lparr>pl_vars := omap_update key \<lparr>sv_length = 0, sv_value = None\<rparr> (pl_vars p)\<rparr>)
     else if \<not> alloc (unat vlength) then Throw bad_alloc p
     else case pl_read (unat vlength) p of
        (None, p) \<Rightarrow> Return () (pl_error ''%s: Error reading state 5'' p)
      | (Some vb, p) \<Rightarrow> load_records alloc n
         (p\<lparr>pl_vars := omap_update key \<lparr>sv_length = vlength, sv_value = Some vb\<rparr> (pl_vars p)\<rparr>))"

text \<open>The code releases the old values, arrays of \<open>new[]\<close>, with \<open>delete\<close>; the model treats it as the
  release that is meant.\<close>

definition LoadState :: "(nat \<Rightarrow> bool) \<Rightarrow> csPlugin \<Rightarrow> (csPlugin, unit) outcome" where
  "LoadState alloc p =
     (if fh_state p = None then Return () p
      else let p = (pl_rewind p)\<lparr>pl_vars := []\<rparr> in
        case pl_read 8 p of
          (None, p) \<Rightarrow> Return ()
            (if f_eof (the (fh_state p)) then p else pl_error ''%s: Error reading state 0'' p)
        | (Some bs, p) \<Rightarrow>
            let records = get_u64 bs;
                p = pl_say Level_Debug ''%s: State records: %lu''
                      [ArgS (c_str (pl_name p)), ArgI (uint records)] p
            in if records = 0 then Return () p else load_records alloc (unat records) p)"

text \<open>
  \<open>SaveState\<close> writes over the file from its start and never shortens it. The four writes of
  a record stop the function when one fails; a variable with an empty name is skipped.
\<close>

fun write_all :: "bytes list \<Rightarrow> csPlugin \<Rightarrow> bool \<times> csPlugin" where
  "write_all [] p = (True, p)"
| "write_all (bs # bss) p = (case pl_write bs p of
       (False, p) \<Rightarrow> (False, pl_error ''%s: Error writing state'' p)
     | (True, p) \<Rightarrow> write_all bss p)"

definition sv_bytes :: "csPluginStateValue \<Rightarrow> bytes" where
  "sv_bytes v = (case sv_value v of None \<Rightarrow> [] | Some bs \<Rightarrow> take (unat (sv_length v)) bs)"

definition key_bytes :: "string \<Rightarrow> bytes" where
  "key_bytes k = map byte_of_char k"

fun save_records :: "(string \<times> csPluginStateValue) list \<Rightarrow> csPlugin \<Rightarrow> csPlugin" where
  "save_records [] p = p"
| "save_records ((k, v) # m) p =
     (if (of_nat (length k) :: u64) = 0 then save_records m p
      else case write_all [put_u64 (of_nat (length k)), key_bytes k,
                           put_u64 (sv_length v), sv_bytes v] p of
          (False, p) \<Rightarrow> p
        | (True, p) \<Rightarrow> save_records m p)"

definition SaveState :: "csPlugin \<Rightarrow> csPlugin" where
  "SaveState p =
     (if fh_state p = None then p
      else case write_all [put_u64 (of_nat (length (pl_vars p)))] (pl_rewind p) of
          (False, p) \<Rightarrow> p
        | (True, p) \<Rightarrow> save_records (pl_vars p) p)"

definition SetStateFile :: "(nat \<Rightarrow> bool) \<Rightarrow> string \<Rightarrow> csPlugin \<Rightarrow> (csPlugin, unit) outcome" where
  "SetStateFile alloc state_file p =
     (let p = p\<lparr>fh_state := None\<rparr>;
          file = c_str state_file;
          m = (if stat_ok file (pl_disk p) then ''r+'' else ''w+'')
      in case fopen file m (pl_disk p) of
          (Inl e, d) \<Rightarrow> Return () (pl_say Level_Warning ''Error opening state: %s: %s''
             [ArgS file, ArgS (dk_strerror d e)] (p\<lparr>pl_disk := d\<rparr>))
        | (Inr f, d) \<Rightarrow> LoadState alloc (p\<lparr>fh_state := Some f, pl_disk := d\<rparr>))"

definition csPlugin_dtor :: "csPlugin \<Rightarrow> csPlugin" where
  "csPlugin_dtor p = (let p = SaveState p in
     pl_say Level_Debug ''Plugin destroyed: %s'' [ArgS (c_str (pl_name p))]
       (p\<lparr>fh_state := None, pl_vars := []\<rparr>))"

section \<open>State variables\<close>

definition find_var :: "csPlugin \<Rightarrow> string \<Rightarrow> csPluginStateValue option" where
  "find_var p key = omap_lookup (pl_vars p) key"

text \<open>\<open>None\<close> is a false result, which leaves the output arguments alone.\<close>

definition GetStateVar_ulong :: "csPlugin \<Rightarrow> string \<Rightarrow> u64 option" where
  "GetStateVar_ulong p key = (case find_var p key of None \<Rightarrow> None
     | Some v \<Rightarrow> if sv_length v \<noteq> 8 then None else Some (get_u64 (sv_bytes v)))"

text \<open>A \<open>float\<close> is its 32-bit pattern: the code only copies it.\<close>

definition GetStateVar_float :: "csPlugin \<Rightarrow> string \<Rightarrow> u32 option" where
  "GetStateVar_float p key = (case find_var p key of None \<Rightarrow> None
     | Some v \<Rightarrow> if sv_length v \<noteq> 4 then None else Some (get_u32 (sv_bytes v)))"

definition GetStateVar_string :: "csPlugin \<Rightarrow> string \<Rightarrow> string option" where
  "GetStateVar_string p key = (case find_var p key of None \<Rightarrow> None
     | Some v \<Rightarrow> Some (if sv_length v = 0 then [] else map char_of_byte (sv_bytes v)))"

text \<open>
  The raw accessor: \<open>len\<close> is the size of the caller's buffer; the result is the number of
  bytes copied and those bytes.
\<close>

definition GetStateVar_buffer :: "csPlugin \<Rightarrow> string \<Rightarrow> u64 \<Rightarrow> (u64 \<times> bytes) option" where
  "GetStateVar_buffer p key len = (case find_var p key of None \<Rightarrow> None
     | Some v \<Rightarrow> let n = (if len > sv_length v then sv_length v else len)
                 in Some (n, take (unat n) (sv_bytes v)))"

definition SetStateVar :: "string \<Rightarrow> csPluginStateValue \<Rightarrow> csPlugin \<Rightarrow> csPlugin" where
  "SetStateVar key var p = p\<lparr>pl_vars := omap_update key var (pl_vars p)\<rparr>"

definition SetStateVar_ulong :: "string \<Rightarrow> u64 \<Rightarrow> csPlugin \<Rightarrow> csPlugin" where
  "SetStateVar_ulong key value p =
     SetStateVar key \<lparr>sv_length = 8, sv_value = Some (put_u64 value)\<rparr> p"

definition SetStateVar_float :: "string \<Rightarrow> u32 \<Rightarrow> csPlugin \<Rightarrow> csPlugin" where
  "SetStateVar_float key value p =
     SetStateVar key \<lparr>sv_length = 4, sv_value = Some (put_u32 value)\<rparr> p"

definition sv_block :: "bytes \<Rightarrow> csPluginStateValue" where
  "sv_block bs = (let n = (of_nat (length bs) :: u64) in
     \<lparr>sv_length = n, sv_value = (if n = 0 then None else Some bs)\<rparr>)"

definition SetStateVar_string :: "string \<Rightarrow> string \<Rightarrow> csPlugin \<Rightarrow> csPlugin" where
  "SetStateVar_string key value p = SetStateVar key (sv_block (key_bytes value)) p"

definition SetStateVar_buffer :: "string \<Rightarrow> bytes \<Rightarrow> csPlugin \<Rightarrow> csPlugin" where
  "SetStateVar_buffer key value p = SetStateVar key (sv_block value) p"

end
