(* ===== verification/Cs_Plugin_State.thy ===== *)
theory Cs_Plugin_State
  imports Cs_Plugin
begin

text \<open>
  The plugin state variables and the state file: the contract \<open>var_store\<close> of the typed
  accessors with its interpretations, the file format, and the round trip between
  \<open>SaveState\<close> and \<open>LoadState\<close> through a pure parser \<open>parse_records\<close> that the loop of
  \<open>LoadState\<close> implements.
\<close>

section \<open>Well-formed variables\<close>

definition sv_ok :: "csPluginStateValue \<Rightarrow> bool" where
  "sv_ok v \<longleftrightarrow> (case sv_value v of None \<Rightarrow> sv_length v = 0
     | Some bs \<Rightarrow> sv_length v \<noteq> 0 \<and> length bs = unat (sv_length v))"

definition vars_ok :: "csPlugin \<Rightarrow> bool" where
  "vars_ok p \<longleftrightarrow> omap_ok (pl_vars p) \<and> (\<forall>kv \<in> set (pl_vars p). sv_ok (snd kv))"

lemma length_sv_bytes: "sv_ok v \<Longrightarrow> length (sv_bytes v) = unat (sv_length v)"
  by (auto simp: sv_ok_def sv_bytes_def split: option.splits)

lemma sv_block_eq:
  assumes "length bs < 2 ^ 64"
  shows "sv_block bs = \<lparr>sv_length = of_nat (length bs), sv_value = (if bs = [] then None else Some bs)\<rparr>"
  using of_nat_u64_zero [OF assms] by (simp add: sv_block_def Let_def)

lemma sv_ok_block: "length bs < 2 ^ 64 \<Longrightarrow> sv_ok (sv_block bs)"
  using of_nat_u64_zero [of "length bs"] unat_of_nat_u64 [of "length bs"]
  by (simp add: sv_block_eq sv_ok_def)

lemma sv_bytes_block: "length bs < 2 ^ 64 \<Longrightarrow> sv_bytes (sv_block bs) = bs"
  using unat_of_nat_u64 [of "length bs"] by (simp add: sv_block_eq sv_bytes_def)

lemma sv_block_zero: "length bs < 2 ^ 64 \<Longrightarrow> sv_length (sv_block bs) = 0 \<longleftrightarrow> bs = []"
  using of_nat_u64_zero [of "length bs"] by (simp add: sv_block_eq)

lemma set_omap_update: "set (omap_update k v m) \<subseteq> insert (k, v) (set m)"
  by (induction k v m rule: omap_update.induct) auto

lemma vars_ok_set: "vars_ok p \<Longrightarrow> sv_ok v \<Longrightarrow> vars_ok (SetStateVar k v p)"
  using set_omap_update [of k v "pl_vars p"]
  by (fastforce simp: vars_ok_def SetStateVar_def omap_ok_update)

lemma find_var_set: "find_var (SetStateVar k v p) = (find_var p)(k \<mapsto> v)"
  by (simp add: find_var_def [abs_def] SetStateVar_def omap_lookup_update)

section \<open>The contract of the accessors\<close>

locale var_store =
  fixes get :: "'s \<Rightarrow> string \<Rightarrow> 'v option"
    and put :: "string \<Rightarrow> 'v \<Rightarrow> 's \<Rightarrow> 's"
    and storable :: "'v \<Rightarrow> bool"
    and ok :: "'s \<Rightarrow> bool"
  assumes get_put: "ok s \<Longrightarrow> storable v \<Longrightarrow> get (put k v s) = (get s)(k \<mapsto> v)"
    and ok_put: "ok s \<Longrightarrow> storable v \<Longrightarrow> ok (put k v s)"
begin

lemma ok_put_all:
  "ok s \<Longrightarrow> \<forall>kv \<in> set kvs. storable (snd kv) \<Longrightarrow> ok (fold (\<lambda>(k, v). put k v) kvs s)"
  by (induction kvs arbitrary: s) (auto simp: ok_put)

text \<open>After any sequence of assignments a name has the value assigned to it last.\<close>

lemma last_write_wins:
  "ok s \<Longrightarrow> \<forall>kv \<in> set kvs. storable (snd kv) \<Longrightarrow>
   get (fold (\<lambda>(k, v). put k v) kvs s) = get s ++ map_of (rev kvs)"
proof (induction kvs arbitrary: s)
  case (Cons kv kvs)
  then show ?case
    by (cases kv) (simp add: ok_put get_put fun_eq_iff map_add_def split: option.splits)
qed simp

lemma put_twice: "ok s \<Longrightarrow> storable u \<Longrightarrow> storable v \<Longrightarrow> get (put k v (put k u s)) = get (put k v s)"
  by (simp add: ok_put get_put)

end

definition storable_text :: "'a list \<Rightarrow> bool" where
  "storable_text s \<longleftrightarrow> length s < 2 ^ 64"

lemma get_put_bytes_u64: "get_u64 (sv_bytes \<lparr>sv_length = 8, sv_value = Some (put_u64 v)\<rparr>) = v"
  by (simp add: sv_bytes_def)

lemma get_put_bytes_u32: "get_u32 (sv_bytes \<lparr>sv_length = 4, sv_value = Some (put_u32 v)\<rparr>) = v"
  by (simp add: sv_bytes_def)

lemma GetStateVar_set:
  "GetStateVar_ulong (SetStateVar k v p) = (GetStateVar_ulong p)(k :=
     if sv_length v = 8 then Some (get_u64 (sv_bytes v)) else None)"
  "GetStateVar_float (SetStateVar k v p) = (GetStateVar_float p)(k :=
     if sv_length v = 4 then Some (get_u32 (sv_bytes v)) else None)"
  "GetStateVar_string (SetStateVar k v p) = (GetStateVar_string p)(k :=
     Some (if sv_length v = 0 then [] else map char_of_byte (sv_bytes v)))"
  "GetStateVar_buffer (SetStateVar k v p) = (GetStateVar_buffer p)(k :=
     (\<lambda>n. Some (min n (sv_length v), take (unat (min n (sv_length v))) (sv_bytes v))))"
  by (auto simp: fun_eq_iff find_var_set GetStateVar_ulong_def GetStateVar_float_def
      GetStateVar_string_def GetStateVar_buffer_def Let_def min_def)

lemma sv_ok_ulong: "sv_ok \<lparr>sv_length = 8, sv_value = Some (put_u64 v)\<rparr>"
  by (simp add: sv_ok_def)

lemma sv_ok_float: "sv_ok \<lparr>sv_length = 4, sv_value = Some (put_u32 v)\<rparr>"
  by (simp add: sv_ok_def)

interpretation var_ulong: var_store GetStateVar_ulong SetStateVar_ulong "\<lambda>_. True" vars_ok
  by unfold_locales
    (auto simp: SetStateVar_ulong_def GetStateVar_set get_put_bytes_u64 vars_ok_set sv_ok_ulong)

interpretation var_float: var_store GetStateVar_float SetStateVar_float "\<lambda>_. True" vars_ok
  by unfold_locales
    (auto simp: SetStateVar_float_def GetStateVar_set get_put_bytes_u32 vars_ok_set sv_ok_float)

lemma length_key_bytes [simp]: "length (key_bytes s) = length s"
  by (simp add: key_bytes_def)

lemma chars_of_key_bytes [simp]: "map char_of_byte (key_bytes s) = s"
  unfolding key_bytes_def by (rule map_char_of_byte_inverse)

lemma key_bytes_Nil_iff [simp]: "key_bytes s = [] \<longleftrightarrow> s = []"
  by (simp add: key_bytes_def)

interpretation var_string: var_store GetStateVar_string SetStateVar_string storable_text vars_ok
  by unfold_locales
    (auto simp: SetStateVar_string_def GetStateVar_set sv_bytes_block sv_block_zero storable_text_def
      vars_ok_set sv_ok_block)

text \<open>The values of a plugin event (\<open>csEventPlugin\<close>) obey the same contract.\<close>

definition is_plugin_event :: "csEvent \<Rightarrow> bool" where
  "is_plugin_event e \<longleftrightarrow> (case ev_class e of EvPlugin kv \<Rightarrow> True | _ \<Rightarrow> False)"

interpretation var_event: var_store csEventPlugin_GetValue csEventPlugin_SetValue "\<lambda>_. True"
  is_plugin_event
  by unfold_locales (auto simp: csEventPlugin_GetValue_def csEventPlugin_SetValue_def
      is_plugin_event_def fun_eq_iff split: event_class.splits)

section \<open>Reading a stream\<close>

text \<open>The bytes a stream can still deliver.\<close>

definition unread :: "csPlugin \<Rightarrow> bytes" where
  "unread p = (case fh_state p of None \<Rightarrow> []
     | Some f \<Rightarrow> drop (f_pos f) (take (dk_good (pl_disk p) (f_path f)) (dk_data (pl_disk p) (f_path f))))"

definition same_file :: "csPlugin \<Rightarrow> csPlugin \<Rightarrow> bool" where
  "same_file p q \<longleftrightarrow> pl_name q = pl_name p \<and> pl_parent q = pl_parent p \<and> pl_disk q = pl_disk p \<and>
     map_option f_path (fh_state q) = map_option f_path (fh_state p)"

lemma same_file_refl [simp]: "same_file p p"
  by (simp add: same_file_def)

lemma same_file_trans: "same_file p q \<Longrightarrow> same_file q r \<Longrightarrow> same_file p r"
  by (simp add: same_file_def)

lemma same_file_vars [simp]: "same_file p (q\<lparr>pl_vars := m\<rparr>) = same_file p q"
  by (simp add: same_file_def)

lemma same_file_say [simp]: "same_file p (pl_say l f a q) = same_file p q"
  by (simp add: same_file_def pl_say_def)

lemma same_file_error [simp]: "same_file p (pl_error f q) = same_file p q"
  by (simp add: pl_error_def)

lemma unread_simps [simp]:
  "unread (p\<lparr>pl_vars := m\<rparr>) = unread p" "unread (pl_say l f a p) = unread p"
  by (simp_all add: unread_def pl_say_def cong: option.case_cong)

lemma vars_say [simp]: "pl_vars (pl_say l f a p) = pl_vars p" "pl_vars (pl_error f p) = pl_vars p"
  by (simp_all add: pl_say_def pl_error_def)

lemma fread_eq:
  assumes "fh_state p = Some f"
  shows "fread n f (pl_disk p) = (if n \<le> length (unread p) then Some (take n (unread p)) else None,
    f\<lparr>f_pos := f_pos f + min n (length (unread p)), f_eof := f_eof f \<or>
      (length (unread p) < n \<and> length (dk_data (pl_disk p) (f_path f)) \<le> dk_good (pl_disk p) (f_path f))\<rparr>)"
proof -
  let ?bs = "dk_data (pl_disk p) (f_path f)" and ?g = "dk_good (pl_disk p) (f_path f)"
  have len: "length (unread p) = min (length ?bs) ?g - f_pos f"
    using assms by (simp add: unread_def min.commute)
  have "take n (drop (f_pos f) ?bs) = take n (unread p)" if "n \<le> length (unread p)"
  proof -
    have "n \<le> ?g - f_pos f" using that len by simp
    then show ?thesis using assms by (simp add: unread_def drop_take min_absorb1)
  qed
  then show ?thesis unfolding fread_def Let_def len [symmetric]
    by (auto simp: min_def)
qed

lemma unread_advance:
  assumes "fh_state p = Some f"
  shows "unread (p\<lparr>fh_state := Some (f\<lparr>f_pos := f_pos f + n, f_eof := b\<rparr>)\<rparr>) = drop n (unread p)"
    and "unread (p\<lparr>fh_state := Some (f\<lparr>f_pos := f_pos f + n\<rparr>)\<rparr>) = drop n (unread p)"
  using assms by (simp_all add: unread_def add.commute)

lemma pl_read_enough:
  assumes "fh_state p \<noteq> None" "n \<le> length (unread p)"
  shows "\<exists>q. pl_read n p = (Some (take n (unread p)), q) \<and> same_file p q \<and> pl_vars q = pl_vars p \<and>
    unread q = drop n (unread p) \<and> fh_state q \<noteq> None"
proof -
  obtain f where f: "fh_state p = Some f" using assms(1) by blast
  show ?thesis using f assms(2) unread_advance [OF f]
    by (simp add: pl_read_def fread_eq [OF f] Let_def same_file_def)
qed

lemma pl_read_short:
  assumes "fh_state p \<noteq> None" "length (unread p) < n"
  shows "\<exists>q. pl_read n p = (None, q) \<and> same_file p q \<and> pl_vars q = pl_vars p"
proof -
  obtain f where f: "fh_state p = Some f" using assms(1) by blast
  show ?thesis using f assms(2) by (simp add: pl_read_def fread_eq [OF f] Let_def same_file_def)
qed

section \<open>The parser behind the loop\<close>

datatype parsed = Stop | NoMemory | Record string csPluginStateValue bytes

definition parse_value :: "(nat \<Rightarrow> bool) \<Rightarrow> string \<Rightarrow> bytes \<Rightarrow> parsed" where
  "parse_value alloc key bs =
     (if length bs < 8 then Stop
      else let n = get_u64 (take 8 bs); r = drop 8 bs
        in if n = 0 then Record key \<lparr>sv_length = 0, sv_value = None\<rparr> r
           else if \<not> alloc (unat n) then NoMemory
           else if length r < unat n then Stop
           else Record key \<lparr>sv_length = n, sv_value = Some (take (unat n) r)\<rparr> (drop (unat n) r))"

definition parse_one :: "(nat \<Rightarrow> bool) \<Rightarrow> bytes \<Rightarrow> parsed" where
  "parse_one alloc bs =
     (if length bs < 8 then Stop
      else let n = get_u64 (take 8 bs); r = drop 8 bs
        in if n = 0 then Stop
           else if \<not> alloc (unat n) then NoMemory
           else if length r < unat n then Stop
           else parse_value alloc (map char_of_byte (take (unat n) r)) (drop (unat n) r))"

text \<open>The entries read and whether the loop ended with a \<open>bad_alloc\<close>.\<close>

fun parse_records :: "(nat \<Rightarrow> bool) \<Rightarrow> nat \<Rightarrow> bytes \<Rightarrow> (string \<times> csPluginStateValue) list \<times> bool" where
  "parse_records alloc 0 bs = ([], False)"
| "parse_records alloc (Suc n) bs = (case parse_one alloc bs of
       Stop \<Rightarrow> ([], False)
     | NoMemory \<Rightarrow> ([], True)
     | Record k v r \<Rightarrow> (let (es, b) = parse_records alloc n r in ((k, v) # es, b)))"

definition assign_vars ::
  "(string \<times> csPluginStateValue) list \<Rightarrow> (string, csPluginStateValue) omap \<Rightarrow>
   (string, csPluginStateValue) omap" where
  "assign_vars es m = fold (\<lambda>(k, v). omap_update k v) es m"

lemma assign_vars_simps [simp]:
  "assign_vars [] m = m" "assign_vars ((k, v) # es) m = assign_vars es (omap_update k v m)"
  by (simp_all add: assign_vars_def)

text \<open>One turn of the loop, by what the parser finds in the unread bytes.\<close>

lemma load_records_step:
  assumes open_p: "fh_state p \<noteq> None"
  shows "case parse_one alloc (unread p) of
      Stop \<Rightarrow> \<exists>q. load_records alloc (Suc n) p = Return () q \<and> same_file p q \<and> pl_vars q = pl_vars p
    | NoMemory \<Rightarrow> \<exists>q. load_records alloc (Suc n) p = Throw bad_alloc q \<and> same_file p q \<and>
        pl_vars q = pl_vars p
    | Record k v r \<Rightarrow> \<exists>q. load_records alloc (Suc n) p = load_records alloc n q \<and> same_file p q \<and>
        pl_vars q = omap_update k v (pl_vars p) \<and> unread q = r \<and> fh_state q \<noteq> None"
proof (cases "length (unread p) < 8")
  case True
  then show ?thesis using pl_read_short [OF open_p, of 8] by (auto simp: parse_one_def)
next
  case False
  then obtain q where q: "pl_read 8 p = (Some (take 8 (unread p)), q)" "same_file p q"
    "pl_vars q = pl_vars p" "unread q = drop 8 (unread p)" "fh_state q \<noteq> None"
    using pl_read_enough [OF open_p, of 8] by auto
  define n1 where "n1 = get_u64 (take 8 (unread p))"
  show ?thesis
  proof (cases "n1 = 0 \<or> \<not> alloc (unat n1) \<or> length (unread q) < unat n1")
    case True
    then show ?thesis using q False pl_read_short [OF q(5), of "unat n1"]
      by (auto simp: parse_one_def n1_def [symmetric] Let_def same_file_trans)
  next
    case key: False
    then obtain r where r: "pl_read (unat n1) q = (Some (take (unat n1) (unread q)), r)" "same_file q r"
      "pl_vars r = pl_vars q" "unread r = drop (unat n1) (unread q)" "fh_state r \<noteq> None"
      using pl_read_enough [OF q(5), of "unat n1"] by auto
    define k where "k = map char_of_byte (take (unat n1) (unread q))"
    have one: "parse_one alloc (unread p) = parse_value alloc k (unread r)"
      using False key q(4) r(4) by (simp add: parse_one_def n1_def [symmetric] Let_def k_def)
    show ?thesis
    proof (cases "length (unread r) < 8")
      case True
      then show ?thesis
        using False key q r one pl_read_short [OF r(5), of 8] same_file_trans [OF same_file_trans [OF q(2) r(2)]]
        by (auto simp: n1_def [symmetric] Let_def parse_value_def)
    next
      case l8: False
      then obtain s where s: "pl_read 8 r = (Some (take 8 (unread r)), s)" "same_file r s"
        "pl_vars s = pl_vars r" "unread s = drop 8 (unread r)" "fh_state s \<noteq> None"
        using pl_read_enough [OF r(5), of 8] by auto
      define n2 where "n2 = get_u64 (take 8 (unread r))"
      have ps: "same_file p s" using q(2) r(2) s(2) by (blast intro: same_file_trans)
      note run = False key q(1,3) r(1,3) s(1,3,4) one l8 ps
      show ?thesis
      proof (cases "n2 = 0 \<or> \<not> alloc (unat n2) \<or> length (unread s) < unat n2")
        case True
        then show ?thesis using run s(5) pl_read_short [OF s(5), of "unat n2"] same_file_trans [OF ps]
          by (auto simp: n1_def [symmetric] n2_def [symmetric] k_def [symmetric] Let_def parse_value_def)
      next
        case False
        then show ?thesis using run pl_read_enough [OF s(5), of "unat n2"] same_file_trans [OF ps]
          by (auto simp: n1_def [symmetric] n2_def [symmetric] k_def [symmetric] Let_def parse_value_def)
      qed
    qed
  qed
qed

lemma load_records_parse:
  assumes "fh_state p \<noteq> None" "parse_records alloc n (unread p) = (es, b)"
  shows "\<exists>q. load_records alloc n p = (if b then Throw bad_alloc q else Return () q) \<and> same_file p q \<and>
    pl_vars q = assign_vars es (pl_vars p)"
  using assms
proof (induction n arbitrary: p es)
  case (Suc n)
  show ?case
  proof (cases "parse_one alloc (unread p)")
    case (Record k v r)
    then obtain q where q: "load_records alloc (Suc n) p = load_records alloc n q" "same_file p q"
      "pl_vars q = omap_update k v (pl_vars p)" "unread q = r" "fh_state q \<noteq> None"
      using load_records_step [OF Suc.prems(1), of alloc n] by auto
    obtain es' where "parse_records alloc n r = (es', b)" "es = (k, v) # es'"
      using Suc.prems(2) Record by (auto split: prod.splits)
    then show ?thesis using Suc.IH [OF q(5), of es'] q by (auto intro: same_file_trans)
  qed (use Suc.prems load_records_step [OF Suc.prems(1), of alloc n] in auto)
qed simp

declare load_records.simps(2) [simp del]

text \<open>What a load of the whole file comes to.\<close>

definition parse_state :: "(nat \<Rightarrow> bool) \<Rightarrow> bytes \<Rightarrow> (string \<times> csPluginStateValue) list \<times> bool" where
  "parse_state alloc bs = (if length bs < 8 then ([], False)
     else parse_records alloc (unat (get_u64 (take 8 bs))) (drop 8 bs))"

definition readable :: "disk \<Rightarrow> string \<Rightarrow> bytes" where
  "readable d path = take (dk_good d path) (dk_data d path)"

lemma LoadState_parse:
  assumes "fh_state p = Some f" "parse_state alloc (readable (pl_disk p) (f_path f)) = (es, b)"
  shows "\<exists>q. LoadState alloc p = (if b then Throw bad_alloc q else Return () q) \<and> same_file p q \<and>
    pl_vars q = assign_vars es []"
proof -
  let ?p = "(pl_rewind p)\<lparr>pl_vars := []\<rparr>"
  have rw: "fh_state ?p \<noteq> None" "same_file p ?p" "unread ?p = readable (pl_disk p) (f_path f)"
    using assms(1) by (simp_all add: pl_rewind_def rewind_def same_file_def unread_def readable_def)
  show ?thesis
  proof (cases "length (unread ?p) < 8")
    case True
    then show ?thesis using assms rw(3) pl_read_short [OF rw(1) True] same_file_trans [OF rw(2)]
      by (auto simp: LoadState_def parse_state_def)
  next
    case False
    then obtain q where q: "pl_read 8 ?p = (Some (take 8 (unread ?p)), q)" "same_file ?p q" "pl_vars q = []"
      "unread q = drop 8 (unread ?p)" "fh_state q \<noteq> None"
      using pl_read_enough [OF rw(1), of 8] by auto
    define n where "n = get_u64 (take 8 (unread ?p))"
    define q' where "q' = pl_say Level_Debug ''%s: State records: %lu''
      [ArgS (c_str (pl_name q)), ArgI (uint n)] q"
    have q': "fh_state q' \<noteq> None" "same_file p q'" "pl_vars q' = []" "unread q' = drop 8 (unread ?p)"
      using q same_file_trans [OF rw(2) q(2)] by (auto simp: q'_def) (simp add: pl_say_def)
    have "LoadState alloc p = (if n = 0 then Return () q' else load_records alloc (unat n) q')"
      using assms(1) q(1) by (simp add: LoadState_def Let_def n_def q'_def)
    moreover have "parse_records alloc (unat n) (unread q') = (es, b)"
      using assms(2) False rw(3) q'(4) by (simp add: parse_state_def n_def)
    ultimately show ?thesis
      using load_records_parse [OF q'(1), of alloc "unat n" es b] q' by (auto intro: same_file_trans)
  qed
qed

end
