(* ===== verification/Cs_Plugin_File.thy ===== *)
theory Cs_Plugin_File
  imports Cs_Plugin_State
begin

text \<open>
  The state file: its format, what \<open>SaveState\<close> writes, and the properties of saving and
  loading: the round trip over a restart, truncated files, arbitrary files, and the effect of
  a variable with an empty name.
\<close>

section \<open>The format\<close>

definition enc_value :: "csPluginStateValue \<Rightarrow> bytes" where
  "enc_value v = put_u64 (sv_length v) @ sv_bytes v"

definition enc_record :: "string \<times> csPluginStateValue \<Rightarrow> bytes" where
  "enc_record kv = put_u64 (of_nat (length (fst kv))) @ key_bytes (fst kv) @ enc_value (snd kv)"

definition enc_records :: "(string \<times> csPluginStateValue) list \<Rightarrow> bytes" where
  "enc_records es = concat (map enc_record es)"

definition enc_state :: "(string \<times> csPluginStateValue) list \<Rightarrow> bytes" where
  "enc_state es = put_u64 (of_nat (length es)) @ enc_records es"

lemma enc_records_simps [simp]:
  "enc_records [] = []" "enc_records (kv # es) = enc_record kv @ enc_records es"
  "enc_records (es @ fs) = enc_records es @ enc_records fs"
  by (simp_all add: enc_records_def)

text \<open>A record that can be stored: a name, a size that fits, memory for both blocks.\<close>

definition storable_record :: "(nat \<Rightarrow> bool) \<Rightarrow> string \<times> csPluginStateValue \<Rightarrow> bool" where
  "storable_record alloc kv \<longleftrightarrow> fst kv \<noteq> [] \<and> length (fst kv) < 2 ^ 64 \<and> sv_ok (snd kv) \<and>
     alloc (length (fst kv)) \<and> alloc (unat (sv_length (snd kv)))"

lemma sv_ok_cases:
  assumes "sv_ok v"
  obtains "v = \<lparr>sv_length = 0, sv_value = None\<rparr>" "sv_bytes v = []"
  | bs where "v = \<lparr>sv_length = sv_length v, sv_value = Some bs\<rparr>" "sv_length v \<noteq> 0"
      "length bs = unat (sv_length v)" "sv_bytes v = bs"
  using assms by (cases v; cases "sv_value v") (auto simp: sv_ok_def sv_bytes_def)

lemma parse_value_enc:
  assumes "sv_ok v" "alloc (unat (sv_length v))"
  shows "parse_value alloc key (enc_value v @ rest) = Record key v rest"
  using assms(1)
proof (cases rule: sv_ok_cases)
  case 1
  then show ?thesis by (simp add: parse_value_def enc_value_def)
next
  case (2 bs)
  then show ?thesis using assms(2) by (simp add: parse_value_def enc_value_def Let_def)
qed

lemma parse_value_cut:
  assumes "sv_ok v" "alloc (unat (sv_length v))" "j < length (enc_value v)"
  shows "parse_value alloc key (take j (enc_value v)) = Stop"
proof (cases "j < 8")
  case False
  then have "length (sv_bytes v) \<noteq> 0" using assms(3) by (cases "sv_bytes v") (simp_all add: enc_value_def)
  then show ?thesis using assms False length_sv_bytes [OF assms(1)]
    by (auto simp: parse_value_def enc_value_def Let_def)
qed (simp add: parse_value_def min_less_iff_disj)

lemma parse_one_enc:
  assumes "storable_record alloc kv"
  shows "parse_one alloc (enc_record kv @ rest) = Record (fst kv) (snd kv) rest"
  using assms parse_value_enc [of "snd kv" alloc "fst kv" rest]
  by (simp add: storable_record_def parse_one_def enc_record_def Let_def)

lemma parse_one_cut:
  assumes "storable_record alloc kv" "j < length (enc_record kv)"
  shows "parse_one alloc (take j (enc_record kv)) = Stop"
proof -
  let ?n = "length (fst kv)"
  note kv = assms(1) [unfolded storable_record_def]
  have u: "unat (of_nat ?n :: u64) = ?n" "(of_nat ?n :: u64) \<noteq> 0" using kv by simp_all
  consider "j < 8" | "8 \<le> j" "j < 8 + ?n" | "8 + ?n \<le> j" by linarith
  then show ?thesis
  proof cases
    case 1
    then show ?thesis by (simp add: parse_one_def min_less_iff_disj)
  next
    case 2
    then have "j - 8 < ?n" by simp
    then show ?thesis using 2 kv u by (simp add: parse_one_def enc_record_def Let_def)
  next
    case 3
    have "j - 8 - ?n < length (enc_value (snd kv))" using 3 assms(2) by (simp add: enc_record_def)
    then have "parse_value alloc (fst kv) (take (j - 8 - ?n) (enc_value (snd kv))) = Stop"
      using parse_value_cut kv by blast
    then show ?thesis using 3 kv u by (simp add: parse_one_def enc_record_def Let_def)
  qed
qed

lemma parse_records_enc:
  assumes "\<forall>kv \<in> set es. storable_record alloc kv" "parse_records alloc m rest = (fs, b)"
  shows "parse_records alloc (length es + m) (enc_records es @ rest) = (es @ fs, b)"
  using assms(1)
proof (induction es)
  case (Cons kv es)
  then show ?case by (simp add: parse_one_enc)
qed (simp add: assms(2))

lemma parse_records_cut:
  assumes "\<forall>kv \<in> set es. storable_record alloc kv"
  shows "\<exists>j. parse_records alloc (length es) (take k (enc_records es)) = (take j es, False)"
  using assms
proof (induction es arbitrary: k)
  case (Cons kv es)
  show ?case
  proof (cases "k < length (enc_record kv)")
    case True
    then have "parse_one alloc (take k (enc_records (kv # es))) = Stop"
      using parse_one_cut [of alloc kv k] Cons.prems by simp
    then show ?thesis by (intro exI [of _ 0]) simp
  next
    case False
    obtain j where "parse_records alloc (length es) (take (k - length (enc_record kv)) (enc_records es))
        = (take j es, False)"
      using Cons by fastforce
    then show ?thesis using False Cons.prems
      by (intro exI [of _ "Suc j"]) (simp add: parse_one_enc)
  qed
qed simp

text \<open>What any parsed entry looks like, whatever the bytes.\<close>

lemma parse_value_Record:
  assumes "parse_value alloc key bs = Record k v r"
  shows "k = key \<and> sv_ok v \<and> length bs = 8 + length (sv_bytes v) + length r"
proof -
  consider (zero) "8 \<le> length bs" "k = key" "v = \<lparr>sv_length = 0, sv_value = None\<rparr>" "r = drop 8 bs"
    | (block) n where "8 \<le> length bs" "k = key" "n \<noteq> 0" "unat n \<le> length (drop 8 bs)"
        "v = \<lparr>sv_length = n, sv_value = Some (take (unat n) (drop 8 bs))\<rparr>"
        "r = drop (unat n) (drop 8 bs)"
    using assms by (auto simp: parse_value_def Let_def not_less split: if_splits)
  then show ?thesis
    by cases (auto simp: sv_ok_def sv_bytes_def min_absorb1 min_absorb2)
qed

lemma parse_one_Record:
  assumes "parse_one alloc bs = Record k v r"
  shows "k \<noteq> [] \<and> sv_ok v \<and> length bs = 16 + length k + length (sv_bytes v) + length r"
proof -
  define n where "n = get_u64 (take 8 bs)"
  have n: "8 \<le> length bs" "n \<noteq> 0" "unat n \<le> length (drop 8 bs)"
    "parse_value alloc (map char_of_byte (take (unat n) (drop 8 bs))) (drop (unat n) (drop 8 bs)) =
      Record k v r"
    using assms by (simp_all add: parse_one_def Let_def n_def [symmetric] not_less split: if_splits)
  have "unat n \<noteq> 0" using n(2) by (simp add: unat_eq_zero)
  then show ?thesis using parse_value_Record [OF n(4)] n by auto
qed

definition entries_size :: "(string \<times> csPluginStateValue) list \<Rightarrow> nat" where
  "entries_size es = (\<Sum>kv\<leftarrow>es. 16 + length (fst kv) + length (sv_bytes (snd kv)))"

lemma parse_records_any:
  assumes "parse_records alloc n bs = (es, b)"
  shows "(\<forall>kv \<in> set es. fst kv \<noteq> [] \<and> sv_ok (snd kv)) \<and> length es \<le> n \<and> entries_size es \<le> length bs"
  using assms
proof (induction n arbitrary: bs es)
  case (Suc n)
  show ?case
  proof (cases "parse_one alloc bs")
    case (Record k v r)
    obtain es' where es': "parse_records alloc n r = (es', b)" "es = (k, v) # es'"
      using Suc.prems Record by (auto split: prod.splits)
    show ?thesis using Suc.IH [OF es'(1)] es'(2) parse_one_Record [OF Record]
      by (auto simp: entries_size_def)
  qed (use Suc.prems in \<open>auto simp: entries_size_def\<close>)
qed (simp add: entries_size_def)

section \<open>Writing\<close>

text \<open>
  \<open>wrote p bs q\<close>: from \<open>p\<close> to \<open>q\<close> the bytes \<open>bs\<close> were written at the stream's position and
  nothing else changed.
\<close>

definition wrote :: "csPlugin \<Rightarrow> bytes \<Rightarrow> csPlugin \<Rightarrow> bool" where
  "wrote p bs q \<longleftrightarrow> (\<exists>f g. fh_state p = Some f \<and> fh_state q = Some g \<and> f_path g = f_path f \<and>
     f_pos f \<le> length (dk_data (pl_disk p) (f_path f)) \<and> f_pos g = f_pos f + length bs \<and>
     dk_data (pl_disk q) (f_path f) = take (f_pos f) (dk_data (pl_disk p) (f_path f)) @ bs @
       drop (f_pos f + length bs) (dk_data (pl_disk p) (f_path f)) \<and>
     dk_files (pl_disk q) = (dk_files (pl_disk p))(f_path f \<mapsto> dk_data (pl_disk q) (f_path f)) \<and>
     dk_limit (pl_disk q) = dk_limit (pl_disk p) \<and> dk_good (pl_disk q) = dk_good (pl_disk p) \<and>
     dk_refuse (pl_disk q) = dk_refuse (pl_disk p)) \<and>
     pl_vars q = pl_vars p \<and> pl_name q = pl_name p \<and> pl_log q = pl_log p"

definition room :: "csPlugin \<Rightarrow> nat \<Rightarrow> bool" where
  "room p n \<longleftrightarrow> (\<exists>f. fh_state p = Some f \<and> f_pos f + n \<le> dk_limit (pl_disk p) (f_path f) \<and>
     f_pos f \<le> length (dk_data (pl_disk p) (f_path f)))"

lemma wrote_trans: "wrote p bs q \<Longrightarrow> wrote q cs r \<Longrightarrow> wrote p (bs @ cs) r"
  unfolding wrote_def by (auto simp: min_absorb2 add.commute add.left_commute)

lemma room_wrote: "wrote p bs q \<Longrightarrow> room p (length bs + n) \<Longrightarrow> room q n"
  unfolding wrote_def room_def by auto

lemma room_le: "room p n \<Longrightarrow> m \<le> n \<Longrightarrow> room p m"
  unfolding room_def by auto

lemma pl_write_room:
  assumes "room p (length bs)"
  shows "\<exists>q. pl_write bs p = (True, q) \<and> wrote p bs q"
proof -
  obtain f where f: "fh_state p = Some f" "f_pos f + length bs \<le> dk_limit (pl_disk p) (f_path f)"
    "f_pos f \<le> length (dk_data (pl_disk p) (f_path f))" using assms unfolding room_def by blast
  have "length bs \<le> dk_limit (pl_disk p) (f_path f) - f_pos f" using f(2) by simp
  then show ?thesis using f
    by (simp add: pl_write_def fwrite_def Let_def min_absorb1 wrote_def dk_data_def)
qed

lemma write_all_room:
  assumes "room p (length (concat bss))" "bss \<noteq> []"
  shows "\<exists>q. write_all bss p = (True, q) \<and> wrote p (concat bss) q"
  using assms
proof (induction bss arbitrary: p)
  case (Cons bs bss)
  have "room p (length bs)" using Cons.prems(1) by (rule room_le) simp
  then obtain q where q: "pl_write bs p = (True, q)" "wrote p bs q" using pl_write_room by blast
  show ?case
  proof (cases "bss = []")
    case False
    have "room q (length (concat bss))" using room_wrote [OF q(2)] Cons.prems(1) by simp
    from Cons.IH [OF this False] show ?thesis using q wrote_trans by fastforce
  qed (use q in simp)
qed simp

lemma save_records_room:
  assumes "room p (length (enc_records es))" "es \<noteq> []"
    "\<forall>kv \<in> set es. fst kv \<noteq> [] \<and> length (fst kv) < 2 ^ 64"
  shows "wrote p (enc_records es) (save_records es p)"
  using assms
proof (induction es arbitrary: p)
  case (Cons kv es)
  obtain k v where kv: "kv = (k, v)" by (cases kv)
  let ?bss = "[put_u64 (of_nat (length k)), key_bytes k, put_u64 (sv_length v), sv_bytes v]"
  have c: "concat ?bss = enc_record kv" by (simp add: kv enc_record_def enc_value_def)
  have "room p (length (concat ?bss))" unfolding c using Cons.prems(1) by (rule room_le) simp
  then obtain q where q: "write_all ?bss p = (True, q)" "wrote p (enc_record kv) q"
    using write_all_room [of p ?bss] c by auto
  have nz: "(of_nat (length k) :: u64) \<noteq> 0" using Cons.prems(3) kv by simp
  then have run: "save_records (kv # es) p = save_records es q" using q(1) kv by simp
  show ?case
  proof (cases "es = []")
    case True
    then show ?thesis using q(2) run by simp
  next
    case False
    have "room q (length (enc_records es))" using room_wrote [OF q(2)] Cons.prems(1) by simp
    from Cons.IH [OF this False] show ?thesis using Cons.prems(3) q(2) run wrote_trans by fastforce
  qed
qed simp

text \<open>
  A successful save: from the start of the file, the count and the records; what lay behind
  them stays. \<open>es\<close> are the variables that are written: all but one with an empty name.
\<close>

lemma SaveState_wrote:
  assumes "fh_state p = Some f" "8 + length (enc_records es) \<le> dk_limit (pl_disk p) (f_path f)"
    "\<forall>kv \<in> set es. fst kv \<noteq> [] \<and> length (fst kv) < 2 ^ 64"
    "\<And>q. save_records (pl_vars p) q = save_records es q"
  shows "wrote (pl_rewind p) (put_u64 (of_nat (length (pl_vars p))) @ enc_records es) (SaveState p)"
proof -
  let ?h = "put_u64 (of_nat (length (pl_vars p)))"
  have rm: "room (pl_rewind p) (8 + length (enc_records es))"
    using assms(1,2) by (simp add: room_def pl_rewind_def rewind_def)
  then have "room (pl_rewind p) (length (concat [?h]))" by (rule room_le) simp
  then obtain q where q: "write_all [?h] (pl_rewind p) = (True, q)" "wrote (pl_rewind p) ?h q"
    using write_all_room [of "pl_rewind p" "[?h]"] by auto
  have vars: "pl_vars q = pl_vars p" using q(2) by (auto simp: wrote_def pl_rewind_def)
  have run: "SaveState p = save_records es q" using assms(1,4) q(1) vars by (simp add: SaveState_def)
  show ?thesis
  proof (cases "es = []")
    case True
    then show ?thesis using run q(2) by simp
  next
    case False
    have "room q (length (enc_records es))" using room_wrote [OF q(2)] rm by simp
    then show ?thesis using save_records_room [OF _ False assms(3)] wrote_trans [OF q(2)] run by simp
  qed
qed

lemma SaveState_data:
  assumes "fh_state p = Some f" "8 + length (enc_records es) \<le> dk_limit (pl_disk p) (f_path f)"
    "\<forall>kv \<in> set es. fst kv \<noteq> [] \<and> length (fst kv) < 2 ^ 64"
    "\<And>q. save_records (pl_vars p) q = save_records es q"
  defines "out \<equiv> put_u64 (of_nat (length (pl_vars p))) @ enc_records es"
  shows "dk_files (pl_disk (SaveState p)) = (dk_files (pl_disk p))(f_path f \<mapsto>
      out @ drop (length out) (dk_data (pl_disk p) (f_path f))) \<and>
    dk_good (pl_disk (SaveState p)) = dk_good (pl_disk p) \<and>
    dk_refuse (pl_disk (SaveState p)) = dk_refuse (pl_disk p)"
  using SaveState_wrote [OF assms(1-4)] assms(1)
  unfolding wrote_def out_def by (auto simp: pl_rewind_def rewind_def)

section \<open>Restarting on a saved file\<close>

lemma reload:
  assumes "c_str path = path" "dk_refuse d path ''r+'' = None" "dk_files d path = Some bs"
    "parse_state alloc (take (dk_good d path) bs) = (es, b)"
  shows "\<exists>q. SetStateFile alloc path (csPlugin_ctor name parent stack d) =
      (if b then Throw bad_alloc q else Return () q) \<and> pl_vars q = assign_vars es []"
proof -
  let ?p = "(csPlugin_ctor name parent stack d)\<lparr>fh_state := Some \<lparr>f_path = path, f_pos = 0,
    f_eof = False\<rparr>\<rparr>"
  have "parse_state alloc (readable (pl_disk ?p) path) = (es, b)"
    using assms(3,4) by (simp add: readable_def dk_data_def csPlugin_ctor_def pl_say_def)
  then obtain q where "LoadState alloc ?p = (if b then Throw bad_alloc q else Return () q)"
    "pl_vars q = assign_vars es []"
    using LoadState_parse [of ?p "\<lparr>f_path = path, f_pos = 0, f_eof = False\<rparr>" alloc es b] by auto
  then show ?thesis using assms(1-3)
    by (simp add: SetStateFile_def fopen_def stat_ok_def Let_def csPlugin_ctor_def pl_say_def)
qed

lemma parse_state_saved:
  assumes "\<forall>kv \<in> set es. storable_record alloc kv" "parse_records alloc m rest = (fs, b)"
    "length es + m < 2 ^ 64"
  shows "parse_state alloc (put_u64 (of_nat (length es + m)) @ enc_records es @ rest) = (es @ fs, b)"
  using parse_records_enc [OF assms(1,2)] unat_of_nat_u64 [OF assms(3)] by (simp add: parse_state_def)

lemma dtor_disk: "pl_disk (csPlugin_dtor p) = pl_disk (SaveState p)"
  by (simp add: csPlugin_dtor_def Let_def pl_say_def)

lemma dtor_file:
  assumes "fh_state p = Some f" "length (enc_state (pl_vars p)) \<le> dk_limit (pl_disk p) (f_path f)"
    "\<forall>kv \<in> set (pl_vars p). storable_record alloc kv"
  shows "dk_files (pl_disk (csPlugin_dtor p)) (f_path f) = Some (enc_state (pl_vars p) @
      drop (length (enc_state (pl_vars p))) (dk_data (pl_disk p) (f_path f)))"
    and "dk_good (pl_disk (csPlugin_dtor p)) = dk_good (pl_disk p)"
    and "dk_refuse (pl_disk (csPlugin_dtor p)) = dk_refuse (pl_disk p)"
  using SaveState_data [OF assms(1), of "pl_vars p"] assms(2,3)
  by (auto simp: dtor_disk enc_state_def storable_record_def)

lemma assign_vars_sub:
  assumes "omap_ok m"
  shows "omap_lookup (assign_vars (take j m) []) \<subseteq>\<^sub>m omap_lookup m"
proof -
  have d: "distinct (map fst m)" using assms by (rule omap_ok_distinct)
  then have "distinct (map fst (take j m))" by (simp add: take_map [symmetric])
  then have "omap_lookup (assign_vars (take j m) []) = map_of (take j m)"
    using om.lookup_assign_all [OF om.ok_empty, of "take j m"]
    by (simp add: assign_vars_def map_of_rev omap_lookup_def fun_eq_iff map_add_def split: option.splits)
  moreover have "map_of (take j m) \<subseteq>\<^sub>m map_of m"
    using d by (metis append_take_drop_id map_add_comm map_le_iff_map_add_commute map_le_map_add
        map_of_append distinct_append map_append dom_map_of_conv_image_fst list.set_map inf_commute)
  ultimately show ?thesis by (simp add: omap_lookup_def [abs_def])
qed

lemma assign_vars_self: "omap_ok m \<Longrightarrow> assign_vars m [] = m"
  unfolding assign_vars_def by (rule om.assign_entries)

section \<open>Properties\<close>

text \<open>
  C4. The variables survive a restart. A plugin with well-formed variables whose state fits on
  the medium is destroyed; a new plugin object that is given the same state file then has
  exactly the same variables, however long the file was before and whatever it held.
\<close>

theorem state_survives_restart:
  assumes "vars_ok p" "fh_state p = Some f" "c_str (f_path f) = f_path f"
    "\<forall>kv \<in> set (pl_vars p). storable_record alloc kv" "length (pl_vars p) < 2 ^ 64"
    "length (enc_state (pl_vars p)) \<le> dk_limit (pl_disk p) (f_path f)"
    "length (enc_state (pl_vars p)) \<le> dk_good (pl_disk p) (f_path f)"
    "dk_refuse (pl_disk p) (f_path f) ''r+'' = None"
  shows "\<exists>q. SetStateFile alloc (f_path f)
      (csPlugin_ctor name parent stack_size (pl_disk (csPlugin_dtor p))) = Return () q \<and>
    pl_vars q = pl_vars p"
proof -
  let ?d = "pl_disk (csPlugin_dtor p)" and ?m = "pl_vars p"
  let ?t = "drop (length (enc_state ?m)) (dk_data (pl_disk p) (f_path f))"
  note fl = dtor_file [OF assms(2,6,4)]
  let ?r = "take (dk_good ?d (f_path f) - length (enc_state ?m)) ?t"
  have "take (dk_good ?d (f_path f)) (enc_state ?m @ ?t) = enc_state ?m @ ?r"
    using assms(7) fl(2) by simp
  moreover have "parse_state alloc (enc_state ?m @ ?r) = (?m, False)"
    using parse_state_saved [OF assms(4), of 0 ?r "[]" False] assms(5) by (simp add: enc_state_def)
  ultimately obtain q where "SetStateFile alloc (f_path f) (csPlugin_ctor name parent stack_size ?d) =
      Return () q" "pl_vars q = assign_vars ?m []"
    using reload [OF assms(3) _ fl(1), of alloc ?m False name parent stack_size] assms(8) fl(3) by auto
  then show ?thesis using assms(1) assign_vars_self by (simp add: vars_ok_def)
qed

definition truncated :: "nat \<Rightarrow> string \<Rightarrow> disk \<Rightarrow> disk" where
  "truncated k path d = d\<lparr>dk_files := (dk_files d)(path \<mapsto> take k (dk_data d path))\<rparr>"

text \<open>
  C20. A state file that was cut off, at any byte, never yields a wrong value: loading it
  returns normally, and every variable it gives has the value that was saved.
\<close>

theorem truncated_file_gives_saved_values:
  assumes "vars_ok p" "fh_state p = Some f" "c_str (f_path f) = f_path f"
    "\<forall>kv \<in> set (pl_vars p). storable_record alloc kv" "length (pl_vars p) < 2 ^ 64"
    "length (enc_state (pl_vars p)) \<le> dk_limit (pl_disk p) (f_path f)"
    "dk_refuse (pl_disk p) (f_path f) ''r+'' = None"
  shows "\<exists>q. SetStateFile alloc (f_path f) (csPlugin_ctor name parent stack_size
      (truncated k (f_path f) (pl_disk (csPlugin_dtor p)))) = Return () q \<and>
    find_var q \<subseteq>\<^sub>m find_var p"
proof -
  define d where "d = pl_disk (csPlugin_dtor p)"
  define dc where "dc = truncated k (f_path f) d"
  let ?m = "pl_vars p" and ?g = "dk_good (pl_disk p) (f_path f)"
  let ?e = "enc_state ?m"
  obtain t where t: "dk_files d (f_path f) = Some (?e @ t)" "dk_good d = dk_good (pl_disk p)"
    "dk_refuse d = dk_refuse (pl_disk p)"
    using dtor_file [OF assms(2,6,4)] unfolding d_def by blast
  let ?j = "min k ?g"
  have fl: "take (dk_good dc (f_path f)) (take k (?e @ t)) = take ?j (?e @ t)"
    using t(2) by (simp add: dc_def truncated_def min.commute del: take_append)
  have n: "unat (of_nat (length ?m) :: u64) = length ?m" using assms(5) by (rule unat_of_nat_u64)
  have parse: "\<exists>i. parse_state alloc (take ?j (?e @ t)) = (take i ?m, False)"
  proof (cases "?j < 8")
    case True
    then show ?thesis by (intro exI [of _ 0]) (auto simp: parse_state_def)
  next
    case False
    let ?r = "take (?j - 8) (enc_records ?m @ t)"
    have "8 \<le> ?j" using False by linarith
    then have "take ?j (?e @ t) = put_u64 (of_nat (length ?m)) @ ?r" by (simp add: enc_state_def)
    then have ps: "parse_state alloc (take ?j (?e @ t)) = parse_records alloc (length ?m) ?r"
      using n by (simp add: parse_state_def)
    show ?thesis
    proof (cases "?j - 8 \<le> length (enc_records ?m)")
      case True
      then show ?thesis using ps parse_records_cut [OF assms(4), of "?j - 8"] by simp
    next
      case False
      then show ?thesis using ps parse_records_enc [OF assms(4), of 0] by (intro exI [of _ "length ?m"]) simp
    qed
  qed
  then obtain i where "parse_state alloc (take ?j (?e @ t)) = (take i ?m, False)" by blast
  then obtain q where q: "SetStateFile alloc (f_path f) (csPlugin_ctor name parent stack_size dc) = Return () q"
    "pl_vars q = assign_vars (take i ?m) []"
    using reload [of "f_path f" dc "take k (?e @ t)" alloc "take i ?m" False name parent stack_size] assms(3,7) t fl
    by (auto simp: dc_def truncated_def dk_data_def)
  moreover have "find_var q \<subseteq>\<^sub>m find_var p"
    using assign_vars_sub [of ?m i] assms(1) q(2) by (simp add: find_var_def [abs_def] vars_ok_def)
  ultimately show ?thesis unfolding dc_def d_def by blast
qed

lemma entries_size_update: "entries_size (omap_update k v m) \<le> entries_size ((k, v) # m)"
  by (induction k v m rule: omap_update.induct) (auto simp: entries_size_def)

lemma assign_vars_inv:
  assumes "omap_ok m" "\<forall>kv \<in> set m \<union> set es. P kv"
  shows "omap_ok (assign_vars es m) \<and> (\<forall>kv \<in> set (assign_vars es m). P kv) \<and>
    entries_size (assign_vars es m) \<le> entries_size es + entries_size m"
  using assms
proof (induction es arbitrary: m)
  case (Cons kv es)
  obtain k v where kv: "kv = (k, v)" by (cases kv)
  have "omap_ok (omap_update k v m)" using Cons.prems(1) by (rule omap_ok_update)
  moreover have "\<forall>x \<in> set (omap_update k v m) \<union> set es. P x"
    using Cons.prems(2) set_omap_update [of k v m] kv by auto
  ultimately show ?case using Cons.IH [of "omap_update k v m"] entries_size_update [of k v m] kv
    by (auto simp: entries_size_def)
qed (simp add: entries_size_def)

lemma parse_records_throw: "snd (parse_records alloc n bs) \<Longrightarrow> \<exists>n. \<not> alloc n"
proof (induction n arbitrary: bs)
  case (Suc n)
  show ?case
  proof (cases "parse_one alloc bs")
    case NoMemory
    then show ?thesis by (auto simp: parse_one_def parse_value_def Let_def split: if_splits)
  next
    case (Record k v r)
    then show ?thesis using Suc.IH [of r] Suc.prems by (auto split: prod.splits)
  qed (use Suc.prems in auto)
qed simp


text \<open>
  A damaged length field. When the file announces at least one record and the length of
  the first name is more than can be allocated, \<open>LoadState\<close>, and with it \<open>SetStateFile\<close>, ends
  with \<open>std::bad_alloc\<close>, which no handler of the program catches, instead of the logged error
  that every other kind of damage gives.
\<close>

theorem corrupt_length_escapes:
  assumes "fh_state p = Some f" "readable (pl_disk p) (f_path f) = put_u64 n @ put_u64 len @ rest"
    "n \<noteq> 0" "len \<noteq> 0" "\<not> alloc (unat len)"
  shows "\<exists>q. LoadState alloc p = Throw bad_alloc q \<and> pl_vars q = [] \<and> exc_class bad_alloc = ClassBadAlloc"
proof -
  obtain k where k: "unat n = Suc k" using assms(3) by (metis not0_implies_Suc unat_eq_zero)
  have "parse_state alloc (readable (pl_disk p) (f_path f)) = ([], True)"
    using assms(2,4,5) k by (simp add: parse_state_def parse_one_def)
  then show ?thesis using LoadState_parse [OF assms(1)] by (fastforce simp: bad_alloc_def)
qed

text \<open>
  C40. A variable with an empty name is counted but not written. After a restart the loader
  therefore looks for one record more than there is, and when the old content of the file
  behind the saved records happens to be a record, as it is after the state became shorter,
  the loader takes that one: the variables after the restart are the saved ones overwritten
  by the stale record.
\<close>

theorem empty_name_loads_stale_record:
  assumes "pl_vars p = ([], v) # m" "fh_state p = Some f" "c_str (f_path f) = f_path f"
    "\<forall>kv \<in> set m. storable_record alloc kv" "storable_record alloc stale" "Suc (length m) < 2 ^ 64"
    "dk_data (pl_disk p) (f_path f) = old @ enc_record stale @ rest"
    "length old = length (enc_state m)"
    "length old \<le> dk_limit (pl_disk p) (f_path f)"
    "length old + length (enc_record stale) \<le> dk_good (pl_disk p) (f_path f)"
    "dk_refuse (pl_disk p) (f_path f) ''r+'' = None"
  shows "\<exists>q. SetStateFile alloc (f_path f)
      (csPlugin_ctor name parent stack_size (pl_disk (csPlugin_dtor p))) = Return () q \<and>
    find_var q (fst stale) = Some (snd stale) \<and> find_var q [] = None"
proof -
  let ?out = "put_u64 (of_nat (length m + 1)) @ enc_records m" and ?d = "pl_disk (csPlugin_dtor p)"
  have names: "\<forall>kv \<in> set m. fst kv \<noteq> [] \<and> length (fst kv) < 2 ^ 64"
    using assms(4) by (auto simp: storable_record_def)
  have sv: "dk_files ?d (f_path f) = Some (?out @ enc_record stale @ rest)" "dk_good ?d = dk_good (pl_disk p)"
    "dk_refuse ?d = dk_refuse (pl_disk p)"
    using SaveState_data [OF assms(2) _ names] assms(1,7-9) by (simp_all add: dtor_disk enc_state_def)
  let ?g = "dk_good (pl_disk p) (f_path f) - length old - length (enc_record stale)"
  have "take (dk_good (pl_disk p) (f_path f)) (?out @ enc_record stale @ rest) =
      ?out @ enc_record stale @ take ?g rest"
    using assms(8,10) by (simp add: enc_state_def)
  moreover have "parse_records alloc 1 (enc_record stale @ take ?g rest) = ([stale], False)"
    using parse_one_enc [OF assms(5)] by simp
  then have "parse_state alloc (put_u64 (of_nat (length m + 1)) @ enc_records m @ (enc_record stale @
      take ?g rest)) = (m @ [stale], False)"
    by (rule parse_state_saved [OF assms(4)]) (use assms(6) in simp)
  then have "parse_state alloc (?out @ enc_record stale @ take ?g rest) = (m @ [stale], False)" by simp
  ultimately obtain q where q: "SetStateFile alloc (f_path f) (csPlugin_ctor name parent stack_size ?d) =
      Return () q" "pl_vars q = assign_vars (m @ [stale]) []"
    using reload [OF assms(3) _ sv(1), of alloc "m @ [stale]" False name parent stack_size] sv(2,3) assms(11)
    by auto
  have look: "find_var q = map_of (rev (m @ [stale]))"
    using om.lookup_assign_all [OF om.ok_empty, of "m @ [stale]"] q(2)
    by (simp add: find_var_def [abs_def] assign_vars_def omap_lookup_def fun_eq_iff map_add_def
        split: option.splits)
  have "[] \<notin> fst ` set (m @ [stale])" using assms(4,5) by (force simp: storable_record_def)
  then have "find_var q [] = None" unfolding look by (simp add: map_of_eq_None_iff)
  then show ?thesis using q(1) look by (cases stale) simp
qed

text \<open>
  Typed access. Setting a variable makes the accessor of its own type return the value,
  other names keep theirs, and a sequence of assignments gives each name its last value. The
  block carries no type: the other accessors of fixed size fail exactly when the size
  differs, so a string of eight characters reads as a number. The raw accessor never gives
  more than the caller's buffer holds.
\<close>

theorem state_variables_typed:
  assumes "vars_ok p" "storable_text s" "storable_text bs"
  shows "GetStateVar_ulong (fold (\<lambda>(k, v). SetStateVar_ulong k v) kvs p) =
      GetStateVar_ulong p ++ map_of (rev kvs) \<and>
    GetStateVar_float (SetStateVar_ulong k n p) = (GetStateVar_float p)(k := None) \<and>
    GetStateVar_float (SetStateVar_float k x p) = (GetStateVar_float p)(k \<mapsto> x) \<and>
    GetStateVar_ulong (SetStateVar_float k x p) = (GetStateVar_ulong p)(k := None) \<and>
    GetStateVar_string (SetStateVar_string k s p) = (GetStateVar_string p)(k \<mapsto> s) \<and>
    GetStateVar_ulong (SetStateVar_string k s p) = (GetStateVar_ulong p)(k :=
      if length s = 8 then Some (get_u64 (key_bytes s)) else None) \<and>
    (\<forall>size. GetStateVar_buffer (SetStateVar_buffer k bs p) k size =
      Some (of_nat (min (unat size) (length bs)), take (unat size) bs))"
proof (intro conjI allI)
  have len: "length s < 2 ^ 64" "length bs < 2 ^ 64" "length (key_bytes s) < 2 ^ 64"
    using assms(2,3) by (simp_all add: storable_text_def)
  have u: "unat (of_nat (length xs) :: u64) = length xs" if "length xs < 2 ^ 64" for xs :: "'x list"
    using that by (rule unat_of_nat_u64)
  show "GetStateVar_ulong (fold (\<lambda>(k, v). SetStateVar_ulong k v) kvs p) =
      GetStateVar_ulong p ++ map_of (rev kvs)"
    by (rule var_ulong.last_write_wins) (use assms(1) in simp_all)
  show "GetStateVar_float (SetStateVar_ulong k n p) = (GetStateVar_float p)(k := None)"
    "GetStateVar_ulong (SetStateVar_float k x p) = (GetStateVar_ulong p)(k := None)"
    by (simp_all add: SetStateVar_ulong_def SetStateVar_float_def GetStateVar_set)
  show "GetStateVar_float (SetStateVar_float k x p) = (GetStateVar_float p)(k \<mapsto> x)"
    by (rule var_float.get_put) (use assms(1) in simp_all)
  show "GetStateVar_string (SetStateVar_string k s p) = (GetStateVar_string p)(k \<mapsto> s)"
    by (rule var_string.get_put) (use assms in simp_all)
  have "(of_nat (length s) :: u64) = 8 \<longleftrightarrow> length s = 8"
    using u [OF len(1)] by (auto dest: arg_cong [of _ _ unat])
  then show "GetStateVar_ulong (SetStateVar_string k s p) = (GetStateVar_ulong p)(k :=
      if length s = 8 then Some (get_u64 (key_bytes s)) else None)"
    using len(3) by (simp add: SetStateVar_string_def GetStateVar_set sv_bytes_block)
      (simp add: sv_block_eq)
  fix size :: u64
  have "min size (of_nat (length bs)) = of_nat (min (unat size) (length bs))"
    using u [OF len(2)] by (simp add: min_def word_le_nat_alt)
  moreover have "unat (of_nat (min (unat size) (length bs)) :: u64) = min (unat size) (length bs)"
    using len(2) by (intro unat_of_nat_u64) simp
  ultimately show "GetStateVar_buffer (SetStateVar_buffer k bs p) k size =
      Some (of_nat (min (unat size) (length bs)), take (unat size) bs)"
    using len(2) by (simp add: SetStateVar_buffer_def GetStateVar_set sv_bytes_block)
      (simp add: sv_block_eq min_def)
qed

section \<open>Witnesses\<close>

definition any_size :: "nat \<Rightarrow> bool" where
  "any_size n \<longleftrightarrow> n < 1000000"

definition state_path :: string where
  "state_path = ''/var/lib/clearsync/csplugin-example.state''"

definition small_disk :: "bytes \<Rightarrow> disk" where
  "small_disk bs = \<lparr>dk_files = [state_path \<mapsto> bs], dk_good = (\<lambda>_. 4096), dk_limit = (\<lambda>_. 4096),
     dk_refuse = (\<lambda>_ _. None), dk_strerror = (\<lambda>_. ''error'')\<rparr>"

definition small_stream :: stream where
  "small_stream = \<lparr>f_path = state_path, f_pos = 0, f_eof = False\<rparr>"

definition small_plugin :: "(string \<times> csPluginStateValue) list \<Rightarrow> bytes \<Rightarrow> csPlugin" where
  "small_plugin m bs = \<lparr>pl_name = ''ExamplePlugin'', pl_parent = 0, fh_state = Some small_stream,
     pl_vars = m, pl_disk = small_disk bs, pl_log = []\<rparr>"

definition loops_var :: "string \<times> csPluginStateValue" where
  "loops_var = (''loops'', \<lparr>sv_length = 8, sv_value = Some (put_u64 7)\<rparr>)"

definition note_var :: "string \<times> csPluginStateValue" where
  "note_var = (''note'', \<lparr>sv_length = 0, sv_value = None\<rparr>)"

lemma small_simps [simp]:
  "fh_state (small_plugin m bs) = Some small_stream" "pl_vars (small_plugin m bs) = m"
  "f_path small_stream = state_path" "pl_disk (small_plugin m bs) = small_disk bs"
  "dk_good (small_disk bs) q = 4096" "dk_limit (small_disk bs) q = 4096"
  "dk_refuse (small_disk bs) q mo = None" "dk_data (small_disk bs) state_path = bs"
  "c_str state_path = state_path"
  by (simp_all add: small_plugin_def small_stream_def small_disk_def dk_data_def state_path_def c_str_def)

lemma sample_vars [simp]:
  "storable_record any_size loops_var" "storable_record any_size note_var"
  "vars_ok (small_plugin [loops_var, note_var] bs)"
  "length (enc_record loops_var) = 29" "length (enc_record note_var) = 20"
  by (simp_all add: storable_record_def any_size_def loops_var_def note_var_def sv_ok_def vars_ok_def
      omap_ok_def enc_record_def enc_value_def sv_bytes_def less_char_def)

theorem state_survives_restart_witness:
  "\<exists>q. SetStateFile any_size state_path (csPlugin_ctor ''ExamplePlugin'' 0 65536
      (pl_disk (csPlugin_dtor (small_plugin [loops_var, note_var] (replicate 100 0xFF))))) = Return () q \<and>
    GetStateVar_ulong q ''loops'' = Some 7"
proof -
  obtain q where "SetStateFile any_size state_path (csPlugin_ctor ''ExamplePlugin'' 0 65536
      (pl_disk (csPlugin_dtor (small_plugin [loops_var, note_var] (replicate 100 0xFF))))) = Return () q"
    "pl_vars q = [loops_var, note_var]"
    using state_survives_restart [of "small_plugin [loops_var, note_var] (replicate 100 0xFF)" small_stream
        any_size "''ExamplePlugin''" 0 65536] by (auto simp: enc_state_def)
  then show ?thesis
    by (simp add: GetStateVar_ulong_def find_var_def loops_var_def sv_bytes_def)
qed

theorem truncated_file_gives_saved_values_witness:
  "\<exists>q. SetStateFile any_size state_path (csPlugin_ctor ''ExamplePlugin'' 0 65536
      (truncated 40 state_path (pl_disk (csPlugin_dtor (small_plugin [loops_var, note_var] []))))) = Return () q \<and>
    find_var q ''other'' = None"
proof -
  obtain q where q: "SetStateFile any_size state_path (csPlugin_ctor ''ExamplePlugin'' 0 65536
      (truncated 40 state_path (pl_disk (csPlugin_dtor (small_plugin [loops_var, note_var] []))))) = Return () q"
    "find_var q \<subseteq>\<^sub>m find_var (small_plugin [loops_var, note_var] [])"
    using truncated_file_gives_saved_values [of "small_plugin [loops_var, note_var] []" small_stream
        any_size "''ExamplePlugin''" 0 65536 40] by (simp add: enc_state_def) blast
  have "find_var (small_plugin [loops_var, note_var] []) ''other'' = None"
    by (simp add: find_var_def loops_var_def note_var_def)
  then have "''other'' \<notin> dom (find_var q)" using map_le_implies_dom_le [OF q(2)] by blast
  then show ?thesis using q(1) by (simp add: domIff)
qed


theorem corrupt_length_escapes_witness:
  "\<exists>q. LoadState any_size (small_plugin [] (put_u64 1 @ put_u64 0x7FFFFFFFFFFFFFFF @ [])) = Throw bad_alloc q"
  using corrupt_length_escapes [of "small_plugin [] (put_u64 1 @ put_u64 0x7FFFFFFFFFFFFFFF @ [])"
      small_stream 1 "0x7FFFFFFFFFFFFFFF" "[]" any_size]
  by (auto simp: readable_def any_size_def)

theorem empty_name_loads_stale_record_witness:
  "\<exists>q. SetStateFile any_size state_path (csPlugin_ctor ''ExamplePlugin'' 0 65536 (pl_disk (csPlugin_dtor
      (small_plugin [([], snd note_var), note_var] (replicate 28 0 @ enc_record loops_var @ []))))) = Return () q \<and>
    find_var q ''loops'' = Some (snd loops_var)"
  using empty_name_loads_stale_record [of
      "small_plugin [([], snd note_var), note_var] (replicate 28 0 @ enc_record loops_var @ [])"
      "snd note_var" "[note_var]" small_stream any_size loops_var "replicate 28 0" "[]" "''ExamplePlugin''" 0 65536]
  by (auto simp: enc_state_def) (simp add: loops_var_def)

theorem state_variables_typed_witness:
  "GetStateVar_ulong (SetStateVar_string ''k'' ''ABCDEFGH'' (small_plugin [] [])) ''k'' = Some 0x4847464544434241"
proof -
  have "vars_ok (small_plugin [] [])" by (simp add: vars_ok_def)
  then have "GetStateVar_ulong (SetStateVar_string ''k'' ''ABCDEFGH'' (small_plugin [] [])) =
      (GetStateVar_ulong (small_plugin [] []))(''k'' \<mapsto> get_u64 (key_bytes ''ABCDEFGH''))"
    using state_variables_typed [of "small_plugin [] []" "''ABCDEFGH''" "[]" _ "''k''"]
    by (simp add: storable_text_def)
  then show ?thesis by (simp add: key_bytes_def byte_of_char_def get_u64_def)
qed

end
