(* ===== verification/Cs_Thread.thy ===== *)
theory Cs_Thread
  imports Cs_Event_System Cs_Log
begin

text \<open>
  Threads (\<open>csthread.cpp\<close>, \<open>include/clearsync/csthread.h\<close>). A \<open>csThread\<close> is an event client
  with a pthread id, which is all ones while no thread runs, and an attribute object. The
  record \<open>sys_world\<close> holds the event state, the thread objects, the ids that were joined and
  the calls of \<open>csLog::Log\<close>; the timer and netlink threads extend it. The results of the
  pthread functions are an argument, \<open>pthread_env\<close>: zero or an error number, and from
  \<open>pthread_create\<close> the id of the thread that runs for an object.
\<close>

section \<open>State\<close>

definition invalid_id :: u64 where "invalid_id = 0xFFFFFFFFFFFFFFFF"

definition CS_THREAD_STACK_SIZE :: u64 where "CS_THREAD_STACK_SIZE = 32768"

record csThread =
  th_id :: u64
  th_attr :: "u64 option"

record sys_world =
  sw_ev :: ev_world
  sw_threads :: "nat \<rightharpoonup> csThread"
  sw_joined :: "u64 list"
  sw_log :: "log_call list"

record pthread_env =
  pt_attr_init :: int
  pt_attr_setstacksize :: "u64 \<Rightarrow> int"
  pt_create :: "nat \<Rightarrow> int + u64"
  pt_attr_destroy :: int
  pt_join :: "u64 \<Rightarrow> int"
  pt_strerror :: "int \<Rightarrow> string"

definition ev_op ::
  "(ev_world \<Rightarrow> (ev_world, 'a) outcome) \<Rightarrow> 'b sys_world_scheme \<Rightarrow> ('b sys_world_scheme, 'a) outcome" where
  "ev_op f w = zoomO sw_ev sw_ev_update f w"

definition sys_log :: "u32 \<Rightarrow> string \<Rightarrow> fmt_arg list \<Rightarrow> 'b sys_world_scheme \<Rightarrow> 'b sys_world_scheme" where
  "sys_log level format args w = w\<lparr>sw_log := sw_log w @ [(level, format, args)]\<rparr>"

definition set_thread :: "nat \<Rightarrow> csThread option \<Rightarrow> 'b sys_world_scheme \<Rightarrow> 'b sys_world_scheme" where
  "set_thread this t w = w\<lparr>sw_threads := (sw_threads w)(this := t)\<rparr>"

section \<open>Member functions\<close>

text \<open>
  An exception that leaves a constructor destroys the base class part: the client leaves the
  registry again.
\<close>

definition abandon ::
  "nat \<Rightarrow> cs_exception \<Rightarrow> 'b sys_world_scheme \<Rightarrow> ('b sys_world_scheme, unit) outcome" where
  "abandon this e w = bindO (ev_op (csEventClient_dtor this) w) (\<lambda>_ w. Throw e (set_thread this None w))"

definition csThread_ctor ::
  "pthread_env \<Rightarrow> nat \<Rightarrow> u64 \<Rightarrow> 'b sys_world_scheme \<Rightarrow> ('b sys_world_scheme, unit) outcome" where
  "csThread_ctor env this stack_size w =
     bindO (ev_op (csEventClient_ctor this) w) (\<lambda>_ w.
     let w = set_thread this (Some \<lparr>th_id = invalid_id, th_attr = None\<rparr>) w;
         rc = pt_attr_init env; rc2 = pt_attr_setstacksize env stack_size
     in if rc \<noteq> 0 then abandon this (csException_es rc ''pthread_attr_init'') w
        else if rc2 \<noteq> 0 then abandon this (csException_es rc2 ''pthread_attr_setstacksize'') w
        else Return () (set_thread this (Some \<lparr>th_id = invalid_id, th_attr = Some stack_size\<rparr>) w))"

definition csThread_Start ::
  "pthread_env \<Rightarrow> nat \<Rightarrow> 'b sys_world_scheme \<Rightarrow> ('b sys_world_scheme, unit) outcome" where
  "csThread_Start env this w = (case sw_threads w this of None \<Rightarrow> Undef
     | Some t \<Rightarrow> (case th_attr t of None \<Rightarrow> Undef
         | Some stack \<Rightarrow> (case pt_create env this of
             Inl rc \<Rightarrow> Throw (csException_es rc ''pthread_create'')
               (set_thread this (Some (t\<lparr>th_id := invalid_id\<rparr>)) w)
           | Inr i \<Rightarrow> Return () (set_thread this (Some (t\<lparr>th_id := i\<rparr>)) w))))"

text \<open>\<open>pthread_join\<close> runs only for a valid id; joining twice is undefined.\<close>

definition csThread_Join ::
  "pthread_env \<Rightarrow> nat \<Rightarrow> 'b sys_world_scheme \<Rightarrow> ('b sys_world_scheme, unit) outcome" where
  "csThread_Join env this w = (case sw_threads w this of None \<Rightarrow> Undef
     | Some t \<Rightarrow> if th_attr t = None then Undef
       else let rc = pt_attr_destroy env;
                w = set_thread this (Some (t\<lparr>th_attr := None\<rparr>)) w;
                w = (if rc \<noteq> 0 then sys_log Level_Error ''pthread_attr_destroy: %s''
                       [ArgS (pt_strerror env rc)] w else w)
            in if th_id t = invalid_id then Return () w
               else if th_id t \<in> set (sw_joined w) then Undef
               else let rc = pt_join env (th_id t); w = w\<lparr>sw_joined := sw_joined w @ [th_id t]\<rparr>
                    in Return () (if rc \<noteq> 0 then sys_log Level_Error ''pthread_join: %s''
                         [ArgS (pt_strerror env rc)] w else w))"

section \<open>Lemmas\<close>

lemma sys_log_frame [simp]:
  "sw_ev (sys_log l f a w) = sw_ev w" "sw_threads (sys_log l f a w) = sw_threads w"
  "sw_joined (sys_log l f a w) = sw_joined w"
  by (simp_all add: sys_log_def)

lemma set_thread_frame [simp]:
  "sw_ev (set_thread p t w) = sw_ev w" "sw_joined (set_thread p t w) = sw_joined w"
  "sw_threads (set_thread p t w) = (sw_threads w)(p := t)" "sw_log (set_thread p t w) = sw_log w"
  by (simp_all add: set_thread_def)

lemma ev_op_Return:
  "f (sw_ev w) = Return a e \<Longrightarrow> ev_op f w = Return a (w\<lparr>sw_ev := e\<rparr>)"
  by (simp add: ev_op_def zoomO_def)

text \<open>A client that is created and destroyed again leaves the event state as it was.\<close>

lemma client_ctor_dtor:
  assumes "ev_wf e" "this \<notin> set (event_client e)"
  shows "\<exists>e1 e2. csEventClient_ctor this e = Return () e1 \<and> csEventClient_dtor this e1 = Return () e2 \<and>
    ev_wf e1 \<and> ev_wf e2 \<and> event_client e1 = event_client e @ [this] \<and> event_client e2 = event_client e \<and>
    ev_heap e1 = ev_heap e \<and> ev_heap e2 = ev_heap e \<and> ev_clients e2 = ev_clients e \<and>
    ev_clients e1 = (ev_clients e)(this \<mapsto>
      \<lparr>event_enable = True, event_queue = [], event_queue_mutex = MutexFree\<rparr>)"
proof -
  obtain e1 where e1: "csEventClient_ctor this e = Return () e1" "ev_wf e1"
    "event_client e1 = event_client e @ [this]" "ev_heap e1 = ev_heap e"
    "ev_clients e1 = (ev_clients e)(this \<mapsto>
      \<lparr>event_enable = True, event_queue = [], event_queue_mutex = MutexFree\<rparr>)"
    using csEventClient_ctor_spec [OF assms] by blast
  have "ev_clients e1 this = Some \<lparr>event_enable = True, event_queue = [], event_queue_mutex = MutexFree\<rparr>"
    using e1(5) by simp
  from csEventClient_dtor_spec [OF e1(2) this] obtain e2 where
    e2: "csEventClient_dtor this e1 = Return () e2" "ev_wf e2" "event_client e2 = remove1 this (event_client e1)"
    "ev_clients e2 = (ev_clients e1)(this := None)" "ev_heap e2 = ev_heap e1"
    by auto
  have "ev_clients e this = None"
    using assms ev_core_registered [of e this] by (auto simp: ev_wf_def)
  then have "ev_clients e2 = ev_clients e" using e2(4) e1(5) by auto
  then show ?thesis using e1 e2 assms(2) by (auto simp: remove1_append)
qed

lemma csThread_ctor_ok:
  assumes "ev_wf (sw_ev w)" "this \<notin> set (event_client (sw_ev w))"
    "pt_attr_init env = 0" "pt_attr_setstacksize env stk = 0"
  shows "\<exists>e. csThread_ctor env this stk w = Return () (set_thread this
      (Some \<lparr>th_id = invalid_id, th_attr = Some stk\<rparr>) (w\<lparr>sw_ev := e\<rparr>)) \<and>
    csEventClient_ctor this (sw_ev w) = Return () e \<and> ev_wf e \<and> ev_heap e = ev_heap (sw_ev w) \<and>
    event_client e = event_client (sw_ev w) @ [this] \<and>
    ev_clients e = (ev_clients (sw_ev w))(this \<mapsto>
      \<lparr>event_enable = True, event_queue = [], event_queue_mutex = MutexFree\<rparr>)"
proof -
  obtain e where e: "csEventClient_ctor this (sw_ev w) = Return () e" "ev_wf e"
    "ev_heap e = ev_heap (sw_ev w)" "event_client e = event_client (sw_ev w) @ [this]"
    "ev_clients e = (ev_clients (sw_ev w))(this \<mapsto>
      \<lparr>event_enable = True, event_queue = [], event_queue_mutex = MutexFree\<rparr>)"
    using client_ctor_dtor [OF assms(1,2)] by blast
  then show ?thesis using assms(3,4)
    by (simp add: csThread_ctor_def ev_op_Return Let_def set_thread_def)
qed

lemma abandon_throws:
  assumes "ev_clients (sw_ev w) this = Some ob" "ev_wf (sw_ev w)"
  shows "\<exists>v. abandon this e w = Throw e v"
  using csEventClient_dtor_spec [OF assms(2,1)] by (auto simp: abandon_def ev_op_Return)

lemma abandon_not_Return: "abandon this e w \<noteq> Return a v"
  by (cases "ev_op (csEventClient_dtor this) w") (auto simp: abandon_def)

text \<open>However an operation of the event part ends, the rest of the state is as before.\<close>

lemma ev_op_run:
  assumes "run_state (ev_op f w) = Some w'"
  shows "\<exists>e. w' = w\<lparr>sw_ev := e\<rparr>"
  using assms by (cases "f (sw_ev w)") (auto simp: ev_op_def zoomO_def)

lemma ev_op_frame: "ev_op f w = Return a w' \<Longrightarrow> \<exists>e. w' = w\<lparr>sw_ev := e\<rparr>"
  by (rule ev_op_run [of f]) simp

definition sys_same :: "'b sys_world_scheme \<Rightarrow> 'b sys_world_scheme \<Rightarrow> bool" where
  "sys_same w w' \<longleftrightarrow> (\<exists>e t. w' = w\<lparr>sw_ev := e, sw_threads := t\<rparr>)"

lemma sys_same_intros [intro, simp]:
  "sys_same w w" "sys_same w (w\<lparr>sw_ev := e\<rparr>)" "sys_same w (set_thread p x w)"
proof -
  show "sys_same w w" unfolding sys_same_def by (intro exI [of _ "sw_ev w"] exI [of _ "sw_threads w"]) simp
  show "sys_same w (w\<lparr>sw_ev := e\<rparr>)" unfolding sys_same_def by (intro exI [of _ e] exI [of _ "sw_threads w"]) simp
  show "sys_same w (set_thread p x w)"
    unfolding sys_same_def set_thread_def by (intro exI [of _ "sw_ev w"] exI [of _ "(sw_threads w)(p := x)"]) simp
qed

lemma sys_same_trans: "sys_same u v \<Longrightarrow> sys_same v w \<Longrightarrow> sys_same u w"
  unfolding sys_same_def by (elim exE) (simp, metis)

lemma ev_op_same: "run_state (ev_op f w) = Some w' \<Longrightarrow> sys_same w w'"
  using ev_op_run [of f w w'] by auto

lemma abandon_same:
  assumes "run_state (abandon p x w) = Some w'"
  shows "sys_same w w'"
  using assms unfolding abandon_def run_state_bindO
  by (metis ev_op_same run_state.simps(1,2) option.inject sys_same_intros(3) sys_same_trans)

lemma csThread_ctor_same:
  assumes "run_state (csThread_ctor env p stk w) = Some w'"
  shows "sys_same w w'"
proof (cases "ev_op (csEventClient_ctor p) w")
  case (Return a v)
  have v: "sys_same w v" using ev_op_same [of "csEventClient_ctor p" w v] Return by simp
  have "sys_same v w'" if "run_state (abandon p x (set_thread p y v)) = Some w'" for x y
    using abandon_same [OF that] sys_same_trans by blast
  then have "sys_same v w'" using assms Return sys_same_trans [of v "set_thread p _ v"]
    by (auto simp: csThread_ctor_def Let_def split: if_splits)
  then show ?thesis using v sys_same_trans by blast
qed (use assms ev_op_same [of "csEventClient_ctor p" w w'] in \<open>auto simp: csThread_ctor_def\<close>)

section \<open>Properties\<close>

text \<open>
  Construction of a thread. When pthread refuses the attributes the constructor throws
  the error number, and the half-made object is gone again: the registry, the clients, their
  queues and the events are those of before. Otherwise the object exists, registered, with an
  id that marks it as not running.
\<close>

theorem thread_construction:
  assumes "ev_wf (sw_ev w)" "this \<notin> set (event_client (sw_ev w))" "sw_threads w this = None"
  shows "if pt_attr_init env = 0 \<and> pt_attr_setstacksize env stk = 0
    then \<exists>w'. csThread_ctor env this stk w = Return () w' \<and> ev_wf (sw_ev w') \<and>
      sw_threads w' this = Some \<lparr>th_id = invalid_id, th_attr = Some stk\<rparr> \<and>
      event_client (sw_ev w') = event_client (sw_ev w) @ [this]
    else \<exists>w' x. csThread_ctor env this stk w = Throw x w' \<and> eint x \<noteq> 0 \<and> ev_wf (sw_ev w') \<and>
      sw_threads w' = sw_threads w \<and> event_client (sw_ev w') = event_client (sw_ev w) \<and>
      ev_clients (sw_ev w') = ev_clients (sw_ev w) \<and> ev_heap (sw_ev w') = ev_heap (sw_ev w)"
proof (cases "pt_attr_init env = 0 \<and> pt_attr_setstacksize env stk = 0")
  case True
  then show ?thesis using csThread_ctor_ok [OF assms(1,2), of env stk] by auto
next
  case False
  obtain e1 e2 where e: "csEventClient_ctor this (sw_ev w) = Return () e1"
    "csEventClient_dtor this e1 = Return () e2" "ev_wf e2" "event_client e2 = event_client (sw_ev w)"
    "ev_heap e2 = ev_heap (sw_ev w)" "ev_clients e2 = ev_clients (sw_ev w)"
    using client_ctor_dtor [OF assms(1,2)] by blast
  show ?thesis using False e assms(3)
    by (auto simp: csThread_ctor_def ev_op_Return Let_def abandon_def csException_es_def)
qed

text \<open>
  Start and join. A thread object that was never started, or whose start failed, is joined
  without calling \<open>pthread_join\<close>; after a successful start exactly the id that
  \<open>pthread_create\<close> gave is joined, once.
\<close>

theorem join_exactly_the_started_thread:
  assumes "sw_threads w this = Some t" "th_attr t = Some stk" "th_id t = invalid_id"
    "\<forall>i. pt_create env this = Inr i \<longrightarrow> i \<noteq> invalid_id \<and> i \<notin> set (sw_joined w)"
  shows "\<exists>w'. csThread_Join env this w = Return () w' \<and> sw_joined w' = sw_joined w \<and>
    (case csThread_Start env this w of
       Return _ v \<Rightarrow> (\<exists>i v'. pt_create env this = Inr i \<and> csThread_Join env this v = Return () v' \<and>
         sw_joined v' = sw_joined w @ [i])
     | Throw x v \<Rightarrow> (\<exists>v'. csThread_Join env this v = Return () v' \<and> sw_joined v' = sw_joined w \<and>
         pt_create env this = Inl (eint x))
     | _ \<Rightarrow> False)"
  using assms
  by (cases "pt_create env this") (auto simp: csThread_Join_def csThread_Start_def Let_def csException_es_def)

section \<open>Witnesses\<close>

definition lone_world :: sys_world where
  "lone_world = \<lparr>sw_ev = ev_init, sw_threads = [7 \<mapsto> \<lparr>th_id = invalid_id, th_attr = Some 32768\<rparr>],
     sw_joined = [], sw_log = []\<rparr>"

definition good_pthreads :: pthread_env where
  "good_pthreads = \<lparr>pt_attr_init = 0, pt_attr_setstacksize = (\<lambda>n. if n < 16384 then EINVAL else 0),
     pt_create = (\<lambda>a. Inr (1000 + of_nat a)), pt_attr_destroy = 0, pt_join = (\<lambda>_. 0), pt_strerror = (\<lambda>_. ''error'')\<rparr>"

lemma ev_wf_init [simp]: "ev_wf ev_init"
  using ev_ok_init by (simp add: ev_ok_def)

lemma ev_init_client [simp]: "event_client ev_init = []"
  by (simp add: ev_init_def)

theorem thread_construction_witness:
  "\<exists>w' x. csThread_ctor good_pthreads 1 100 lone_world = Throw x w' \<and>
    event_client (sw_ev w') = event_client (sw_ev lone_world)"
  using thread_construction [of lone_world 1 good_pthreads 100]
  by (auto simp: lone_world_def good_pthreads_def EINVAL_def)

theorem join_exactly_the_started_thread_witness:
  "\<exists>w'. csThread_Join good_pthreads 7 lone_world = Return () w' \<and> sw_joined w' = []"
  using join_exactly_the_started_thread [of lone_world 7
      "\<lparr>th_id = invalid_id, th_attr = Some 32768\<rparr>" 32768 good_pthreads]
  by (auto simp: lone_world_def good_pthreads_def invalid_id_def)

end
