(* ===== verification/Cs_Timer.thy ===== *)
theory Cs_Timer
  imports Cs_Thread
begin

text \<open>
  Timers and the timer thread (\<open>cstimer.cpp\<close>, \<open>include/clearsync/cstimer.h\<close>).

  \<open>timer_world\<close> extends the system state by the timer objects, the static vector of timers and
  its mutex, and the one timer thread object. Times are 64-bit words read as signed numbers;
  signed overflow is undefined. A tick, one per second, is caused by a real-time signal; the
  signals that \<open>sigtimedwait\<close> reports are the input of the thread's loop.

  The lemmas: \<open>tick_spec\<close>, what one tick does to one timer; that \<open>Tick\<close> does it to every
  registered timer and sends the timer events, in registration order, to the targets; how
  often a timer fires in \<open>n\<close> ticks.
\<close>

section \<open>State\<close>

record csTimer =
  tm_running :: bool
  tm_id :: u64
  tm_target :: client_ptr
  tm_value :: time_t
  tm_interval :: time_t
  tm_mutex :: mutex

record csThreadTimer =
  tt_parent :: client_ptr
  tt_timer_id :: nat

text \<open>\<open>tt_kernel\<close>: the timers that the process has in the kernel, and which of them are armed.\<close>

record timer_world = sys_world +
  tm_objs :: "nat \<rightharpoonup> csTimer"
  timer_vector :: "nat list"
  vector_mutex :: mutex
  tt_instance :: "nat option"
  tt_objs :: "nat \<rightharpoonup> csThreadTimer"
  tt_kernel :: "nat \<rightharpoonup> bool"

definition vector_lock :: "timer_world \<Rightarrow> (timer_world, unit) outcome" where
  "vector_lock = mutex_lock vector_mutex vector_mutex_update"

definition vector_unlock :: "timer_world \<Rightarrow> (timer_world, unit) outcome" where
  "vector_unlock = mutex_unlock vector_mutex vector_mutex_update"

definition tm_read :: "nat \<Rightarrow> timer_world \<Rightarrow> (timer_world, csTimer) outcome" where
  "tm_read t w = (case tm_objs w t of None \<Rightarrow> Undef | Some x \<Rightarrow> Return x w)"

definition tm_set :: "nat \<Rightarrow> csTimer \<Rightarrow> timer_world \<Rightarrow> timer_world" where
  "tm_set t x w = w\<lparr>tm_objs := (tm_objs w)(t \<mapsto> x)\<rparr>"

definition tm_lock :: "nat \<Rightarrow> timer_world \<Rightarrow> (timer_world, csTimer) outcome" where
  "tm_lock t w = bindO (tm_read t w) (\<lambda>x w. case tm_mutex x of
       MutexNull \<Rightarrow> Undef
     | MutexFree \<Rightarrow> Return (x\<lparr>tm_mutex := MutexHeld\<rparr>) (tm_set t (x\<lparr>tm_mutex := MutexHeld\<rparr>) w)
     | MutexHeld \<Rightarrow> Block w)"

definition tm_unlock :: "nat \<Rightarrow> timer_world \<Rightarrow> (timer_world, unit) outcome" where
  "tm_unlock t w = bindO (tm_read t w) (\<lambda>x w. Return () (tm_set t (x\<lparr>tm_mutex := MutexFree\<rparr>) w))"

section \<open>The vector of timers\<close>

definition timer_push :: "nat \<Rightarrow> timer_world \<Rightarrow> timer_world" where
  "timer_push t w = w\<lparr>timer_vector := timer_vector w @ [t]\<rparr>"

definition timer_erase :: "nat \<Rightarrow> timer_world \<Rightarrow> timer_world" where
  "timer_erase t w = w\<lparr>timer_vector := erase_first t (timer_vector w)\<rparr>"

interpretation tm_vec: registry timer_vector timer_push timer_erase
  by unfold_locales (simp_all add: timer_push_def timer_erase_def)

definition AddTimer :: "nat \<Rightarrow> timer_world \<Rightarrow> (timer_world, unit) outcome" where
  "AddTimer t w = bindO (vector_lock w) (\<lambda>_ w. vector_unlock (timer_push t w))"

definition RemoveTimer :: "nat \<Rightarrow> timer_world \<Rightarrow> (timer_world, unit) outcome" where
  "RemoveTimer t w = bindO (vector_lock w) (\<lambda>_ w. vector_unlock (timer_erase t w))"

section \<open>Timers\<close>

text \<open>\<open>csThreadTimer::GetInstance()\<close> is dereferenced without a test.\<close>

definition csTimer_ctor ::
  "nat \<Rightarrow> u64 \<Rightarrow> time_t \<Rightarrow> time_t \<Rightarrow> client_ptr \<Rightarrow> timer_world \<Rightarrow> (timer_world, unit) outcome" where
  "csTimer_ctor this i value interval target w =
     (let w = tm_set this \<lparr>tm_running = False, tm_id = i, tm_target = target, tm_value = value,
                tm_interval = interval, tm_mutex = MutexFree\<rparr> w
      in if tt_instance w = None then Undef
         else bindO (AddTimer this w) (\<lambda>_ w. Return () (sys_log Level_Debug
           ''Created timer: id: %lu, value: %ld, interval: %ld''
           [ArgI (uint i), ArgI (sint value), ArgI (sint interval)] w)))"

definition tm_locked :: "nat \<Rightarrow> (csTimer \<Rightarrow> csTimer) \<Rightarrow> timer_world \<Rightarrow> (timer_world, unit) outcome" where
  "tm_locked this f w = bindO (tm_lock this w) (\<lambda>x w. tm_unlock this (tm_set this (f x) w))"

definition csTimer_Start :: "nat \<Rightarrow> timer_world \<Rightarrow> (timer_world, unit) outcome" where
  "csTimer_Start this w = tm_locked this (\<lambda>x. x\<lparr>tm_running := True\<rparr>) w"

definition csTimer_Stop :: "nat \<Rightarrow> timer_world \<Rightarrow> (timer_world, unit) outcome" where
  "csTimer_Stop this w = tm_locked this (\<lambda>x. x\<lparr>tm_running := False\<rparr>) w"

definition csTimer_dtor :: "nat \<Rightarrow> timer_world \<Rightarrow> (timer_world, unit) outcome" where
  "csTimer_dtor this w =
     bindO (csTimer_Stop this w) (\<lambda>_ w.
     if tt_instance w = None then Undef
     else bindO (RemoveTimer this w) (\<lambda>_ w. Return () (w\<lparr>tm_objs := (tm_objs w)(this := None)\<rparr>)))"

definition csTimer_SetValue :: "nat \<Rightarrow> time_t \<Rightarrow> timer_world \<Rightarrow> (timer_world, unit) outcome" where
  "csTimer_SetValue this value w =
     bindO (tm_locked this (\<lambda>x. x\<lparr>tm_value := value\<rparr>) w) (\<lambda>_ w.
     bindO (tm_read this w) (\<lambda>x w. Return () (sys_log Level_Debug
       ''Set timer value: id: %lu, value: %ld, interval: %ld''
       [ArgI (uint (tm_id x)), ArgI (sint value), ArgI (sint (tm_interval x))] w)))"

definition csTimer_SetInterval :: "nat \<Rightarrow> time_t \<Rightarrow> timer_world \<Rightarrow> (timer_world, unit) outcome" where
  "csTimer_SetInterval this interval w =
     bindO (tm_locked this (\<lambda>x. x\<lparr>tm_interval := interval\<rparr>) w) (\<lambda>_ w.
     bindO (tm_read this w) (\<lambda>x w. Return () (sys_log Level_Debug
       ''Set timer interval: id: %lu, value: %ld, interval: %ld''
       [ArgI (uint (tm_id x)), ArgI (sint (tm_value x)), ArgI (sint interval)] w)))"

definition time_fits :: "int \<Rightarrow> bool" where
  "time_fits i \<longleftrightarrow> - (2 ^ 63) \<le> i \<and> i < 2 ^ 63"

definition csTimer_Extend :: "nat \<Rightarrow> time_t \<Rightarrow> timer_world \<Rightarrow> (timer_world, unit) outcome" where
  "csTimer_Extend this value w =
     bindO (tm_lock this w) (\<lambda>x w.
     if \<not> time_fits (sint (tm_value x) + sint value) then Undef
     else bindO (tm_unlock this (tm_set this (x\<lparr>tm_value := tm_value x + value\<rparr>) w)) (\<lambda>_ w.
     bindO (tm_read this w) (\<lambda>x w. Return () (sys_log Level_Debug
       ''Extend timer value: id: %lu, value: %ld (+%ld), interval: %ld''
       [ArgI (uint (tm_id x)), ArgI (sint (tm_value x)), ArgI (sint value),
        ArgI (sint (tm_interval x))] w))))"

definition csTimer_GetInterval :: "nat \<Rightarrow> timer_world \<Rightarrow> (timer_world, time_t) outcome" where
  "csTimer_GetInterval this w = bindO (tm_read this w) (\<lambda>x w. Return (tm_interval x) w)"

definition csTimer_GetRemaining :: "nat \<Rightarrow> timer_world \<Rightarrow> (timer_world, time_t) outcome" where
  "csTimer_GetRemaining this w = bindO (tm_lock this w) (\<lambda>x w.
     bindO (tm_unlock this w) (\<lambda>_ w. Return (tm_value x) w))"

section \<open>The timer thread\<close>

text \<open>\<open>new csEventTimer(t)\<close> and the dispatch to its target.\<close>

definition timer_fire :: "nat \<Rightarrow> nat \<Rightarrow> client_ptr \<Rightarrow> timer_world \<Rightarrow> (timer_world, unit) outcome" where
  "timer_fire this t target w = ev_op (\<lambda>e. bindO (ev_new (csEventTimer_ctor t) e)
     (\<lambda>a e. EventDispatch this a target e)) w"

definition timer_dest :: "client_ptr \<Rightarrow> csTimer \<Rightarrow> client_ptr" where
  "timer_dest parent x = (if tm_target x = NullClient then parent else tm_target x)"

fun tick_loop :: "nat \<Rightarrow> client_ptr \<Rightarrow> nat list \<Rightarrow> timer_world \<Rightarrow> (timer_world, unit) outcome" where
  "tick_loop this parent [] w = Return () w"
| "tick_loop this parent (t # ts) w =
     bindO (tm_lock t w) (\<lambda>x w.
     bindO (if tm_running x then
              if \<not> time_fits (sint (tm_value x) - 1) then Undef
              else let v = tm_value x - 1 in
                if sint v \<le> 0 then
                  bindO (timer_fire this t (timer_dest parent x) w) (\<lambda>_ w.
                  Return () (tm_set t (x\<lparr>tm_value := tm_interval x,
                    tm_running := (sint (tm_interval x) > 0)\<rparr>) w))
                else Return () (tm_set t (x\<lparr>tm_value := v\<rparr>) w)
            else Return () w) (\<lambda>_ w.
     bindO (tm_unlock t w) (\<lambda>_ w.
     tick_loop this parent ts w)))"

definition Tick :: "nat \<Rightarrow> timer_world \<Rightarrow> (timer_world, unit) outcome" where
  "Tick this w = (case tt_objs w this of None \<Rightarrow> Undef | Some ob \<Rightarrow>
     bindO (vector_lock w) (\<lambda>_ w.
     bindO (tick_loop this (tt_parent ob) (timer_vector w) w) (\<lambda>_ w.
     vector_unlock w)))"

text \<open>\<open>timer_create\<close> gives an errno value or a timer id.\<close>

definition csThreadTimer_ctor ::
  "pthread_env \<Rightarrow> int + nat \<Rightarrow> client_ptr \<Rightarrow> nat \<Rightarrow> timer_world \<Rightarrow> (timer_world, unit) outcome" where
  "csThreadTimer_ctor env created parent this w =
     bindO (csThread_ctor env this CS_THREAD_STACK_SIZE w) (\<lambda>_ w.
     if tt_instance w \<noteq> None then abandon this (csException_es EEXIST ''csThreadTimer'') w
     else
       let w = (if vector_mutex w = MutexNull
                then w\<lparr>vector_mutex := MutexFree, tt_instance := Some this\<rparr> else w)
       in case created of
            Inl err \<Rightarrow> abandon this (csException_es err ''timer_create'') w
          | Inr i \<Rightarrow> Return () (w\<lparr>tt_objs := (tt_objs w)(this \<mapsto>
              \<lparr>tt_parent = parent, tt_timer_id = i\<rparr>), tt_kernel := (tt_kernel w)(i \<mapsto> False)\<rparr>))"

definition csThreadTimer_dtor :: "pthread_env \<Rightarrow> nat \<Rightarrow> timer_world \<Rightarrow> (timer_world, unit) outcome" where
  "csThreadTimer_dtor env this w = (case tt_objs w this of None \<Rightarrow> Undef | Some ob \<Rightarrow>
     bindO (csThread_Join env this w) (\<lambda>_ w.
     let w = (if tt_instance w \<noteq> Some this then w
              else w\<lparr>tt_kernel := (tt_kernel w)(tt_timer_id ob := None), vector_mutex := MutexNull\<rparr>)
     in bindO (ev_op (csEventClient_dtor this) w) (\<lambda>_ w.
        Return () (set_thread this None (w\<lparr>tt_objs := (tt_objs w)(this := None)\<rparr>)))))"

text \<open>
  One turn of the thread's loop. The input is what \<open>sigtimedwait\<close> returns: a signal or an
  error number; \<open>signo\<close> is \<open>SIGRTMIN\<close>. The result says whether the loop goes on.
\<close>

definition timer_turn ::
  "pthread_env \<Rightarrow> (int \<Rightarrow> string) \<Rightarrow> int \<Rightarrow> nat \<Rightarrow> int + int \<Rightarrow> timer_world \<Rightarrow> (timer_world, bool) outcome" where
  "timer_turn env strsignal signo this sig w =
     bindO (ev_op (EventPop this) w) (\<lambda>event w.
     bindO (case event of None \<Rightarrow> Return True w
            | Some a \<Rightarrow> bindO (ev_op (ev_read a) w) (\<lambda>e w.
                if ev_id e = csEVENT_QUIT
                then bindO (ev_op (EventDestroy a) (sys_log Level_Debug ''Timer thread terminated.'' [] w))
                       (\<lambda>_ w. Return False w)
                else bindO (ev_op (EventDestroy a) (sys_log Level_Debug ''Timer: unhandled event: %u''
                       [ArgI (uint (ev_id e))] w)) (\<lambda>_ w. Return True w))) (\<lambda>go w.
     if \<not> go then Return False w
     else case sig of
         Inl err \<Rightarrow>
           if err = EINTR \<or> err = EAGAIN then Return True w
           else bindO (ev_op (\<lambda>e. bindO (ev_new (csEvent_ctor csEVENT_QUIT (Flag_Sticky OR Flag_HighPriority)) e)
                  (\<lambda>a e. EventBroadcast this a e))
                  (sys_log Level_Error ''Timer: sigtimedwait: %s'' [ArgS (pt_strerror env err)] w))
                (\<lambda>_ w. Return False w)
       | Inr s \<Rightarrow>
           if s = signo then bindO (Tick this w) (\<lambda>_ w. Return True w)
           else Return True (sys_log Level_Warning ''Timer: unhandled signal: %s'' [ArgS (strsignal s)] w)))"

text \<open>The loop of \<open>Entry\<close> over the signals still to come; \<open>None\<close> is a thread that is still waiting.\<close>

fun timer_loop ::
  "pthread_env \<Rightarrow> (int \<Rightarrow> string) \<Rightarrow> int \<Rightarrow> nat \<Rightarrow> (int + int) list \<Rightarrow> timer_world \<Rightarrow>
   (timer_world, unit option) outcome" where
  "timer_loop env strsignal signo this [] w = Return None w"
| "timer_loop env strsignal signo this (s # ss) w =
     bindO (timer_turn env strsignal signo this s w) (\<lambda>go w.
     if go then timer_loop env strsignal signo this ss w else Return (Some ()) w)"

text \<open>
  \<open>settime\<close> says whether \<open>timer_settime\<close> succeeds. The source tests \<open>(timer_settime(...), 0)\<close>,
  whose value is 0 whatever the call returns: nothing is thrown.
\<close>

definition csThreadTimer_Entry ::
  "pthread_env \<Rightarrow> bool \<Rightarrow> (int \<Rightarrow> string) \<Rightarrow> int \<Rightarrow> nat \<Rightarrow> (int + int) list \<Rightarrow> timer_world \<Rightarrow>
   (timer_world, unit option) outcome" where
  "csThreadTimer_Entry env settime strsignal signo this sigs w = (case tt_objs w this of None \<Rightarrow> Undef
     | Some ob \<Rightarrow> let w = (if settime then w\<lparr>tt_kernel := (tt_kernel w)(tt_timer_id ob \<mapsto> True)\<rparr> else w)
         in timer_loop env strsignal signo this sigs (sys_log Level_Debug ''Timer thread started.'' [] w))"

end
