(* ===== verification/Cs_Timer_Properties.thy ===== *)
theory Cs_Timer_Properties
  imports Cs_Timer Cs_Event_Properties
begin

text \<open>
  What the timer component promises: a tick advances every running timer by one second and
  sends one event for each that expires; a periodic timer fires at its value and then at every
  multiple of its interval; a one-shot timer fires once; the timer thread is created once; and
  timers must not outlive the thread object.
\<close>

section \<open>Sending a new event\<close>

lemma send_new:
  assumes "ev_wf w" "event_client w \<noteq> []" "dst \<noteq> BroadcastClient"
  shows "\<exists>w'. bindO (ev_new e w) (\<lambda>a. EventDispatch this a dst) = Return () w' \<and> ev_wf w' \<and>
    ev_moves {} {} w w' \<and>
    abs_queue w' = broadcast_spec (e\<lparr>ev_dst := dst, ev_src := ClientAt this\<rparr>)
      (\<lambda>d. dst = ClientAt d \<and> enabled w d) (abs_queue w)"
proof -
  let ?a = "ev_next w"
  let ?w1 = "w\<lparr>ev_heap := (ev_heap w)(?a \<mapsto> e), ev_next := Suc ?a\<rparr>"
  have core: "ev_core w" using assms(1) by (simp add: ev_wf_def)
  note n = new_event [OF core, of e]
  have wf1: "ev_wf ?w1" using n(1) assms(1) by (simp add: ev_wf_def)
  have a: "ev_heap ?w1 ?a = Some e" "?a \<notin> queued ?w1" using n(3) ev_next_not_queued [OF core] by auto
  have en: "enabled ?w1 = enabled w" using n(4) by (simp add: ev_moves_def)
  have "\<exists>w'. EventDispatch this ?a dst ?w1 = Return () w' \<and> ev_wf w' \<and> ev_moves {?a} {} ?w1 w' \<and>
    abs_queue w' = broadcast_spec (e\<lparr>ev_dst := dst, ev_src := ClientAt this\<rparr>)
      (\<lambda>d. dst = ClientAt d \<and> enabled w d) (abs_queue w)"
  proof (cases dst)
    case NullClient
    have "broadcast_spec x (\<lambda>d. False) qs = qs" for x qs by (simp add: broadcast_spec_def fun_eq_iff)
    then show ?thesis using EventDispatch_null [OF wf1 _ a, of this] assms(2) n(2) NullClient by simp
  next
    case (ClientAt c)
    have "(\<lambda>d. d = c \<and> enabled w c) = (\<lambda>d. dst = ClientAt d \<and> enabled w d)" using ClientAt by auto
    then show ?thesis using EventDispatch_client [OF wf1 _ a, of this c] assms(2) n(2) en ClientAt by simp
  qed (use assms(3) in simp)
  then obtain w' where w': "EventDispatch this ?a dst ?w1 = Return () w'" "ev_wf w'" "ev_moves {?a} {} ?w1 w'"
    "abs_queue w' = broadcast_spec (e\<lparr>ev_dst := dst, ev_src := ClientAt this\<rparr>)
      (\<lambda>d. dst = ClientAt d \<and> enabled w d) (abs_queue w)" by blast
  have "?a \<notin> loose w" using ev_next_fresh [OF core] by (auto simp: loose_def)
  moreover have "ev_moves {?a} {} w w'" using ev_moves_trans [OF n(4) w'(3)] by simp
  ultimately have "ev_moves {} {} w w'" by (simp add: ev_moves_def)
  then show ?thesis using w' by (auto simp: ev_new_def)
qed

section \<open>One tick\<close>

definition tick_spec :: "csTimer \<Rightarrow> csTimer \<times> bool" where
  "tick_spec x =
     (if tm_running x then
        if sint (tm_value x) \<le> 1
        then (x\<lparr>tm_value := tm_interval x, tm_running := (sint (tm_interval x) > 0)\<rparr>, True)
        else (x\<lparr>tm_value := tm_value x - 1\<rparr>, False)
      else (x, False))"

definition timer_event :: "nat \<Rightarrow> nat \<Rightarrow> client_ptr \<Rightarrow> csEvent" where
  "timer_event this t dst = (csEventTimer_ctor t)\<lparr>ev_dst := dst, ev_src := ClientAt this\<rparr>"

text \<open>The events that a tick puts into the queue of client \<open>c\<close>, in order.\<close>

definition tick_mail ::
  "nat \<Rightarrow> client_ptr \<Rightarrow> (nat \<rightharpoonup> csTimer) \<Rightarrow> nat list \<Rightarrow> nat \<Rightarrow> csEvent list" where
  "tick_mail this parent objs ts c = map (\<lambda>t. timer_event this t (ClientAt c))
     (filter (\<lambda>t. snd (tick_spec (the (objs t))) \<and> timer_dest parent (the (objs t)) = ClientAt c) ts)"

definition timer_fine :: "csTimer \<Rightarrow> bool" where
  "timer_fine x \<longleftrightarrow> tm_mutex x = MutexFree \<and> time_fits (sint (tm_value x) - 1) \<and>
     time_fits (sint (tm_interval x) - 1) \<and>
     tm_target x \<noteq> BroadcastClient"

definition ticked :: "nat list \<Rightarrow> (nat \<rightharpoonup> csTimer) \<Rightarrow> nat \<rightharpoonup> csTimer" where
  "ticked ts objs = (\<lambda>t. if t \<in> set ts then map_option (\<lambda>x. fst (tick_spec x)) (objs t) else objs t)"

definition mail_added :: "(nat \<Rightarrow> csEvent list) \<Rightarrow> ev_world \<Rightarrow> ev_world \<Rightarrow> bool" where
  "mail_added mail e e' \<longleftrightarrow> ev_wf e' \<and> ev_moves {} {} e e' \<and>
     (\<forall>c. abs_queue e' c = (if enabled e c then Some (the (abs_queue e c) @ mail c) else abs_queue e c))"

lemma mail_added_refl: "ev_wf e \<Longrightarrow> mail_added (\<lambda>_. []) e e"
  by (auto simp: mail_added_def ev_moves_refl enabled_def abs_queue_def)

lemma mail_added_trans:
  assumes "mail_added m e e'" "mail_added m' e' e''"
  shows "mail_added (\<lambda>c. m c @ m' c) e e''"
proof -
  have "enabled e' = enabled e" using assms(1) by (simp add: mail_added_def ev_moves_def)
  then show ?thesis using assms ev_moves_trans [of "{}" "{}" e e' "{}" "{}" e'']
    by (simp add: mail_added_def)
qed

lemma plain_timer_event: "plain (timer_event this t dst)"
  by (simp add: plain_def timer_event_def csEventTimer_ctor_def csEvent_ctor_def IsExclusive_def
      IsHighPriority_def IsSticky_def event_flag_values)

lemma timer_fire_spec:
  assumes "ev_wf (sw_ev w)" "event_client (sw_ev w) \<noteq> []" "dst \<noteq> BroadcastClient"
  shows "\<exists>e. timer_fire this t dst w = Return () (w\<lparr>sw_ev := e\<rparr>) \<and>
    mail_added (\<lambda>c. if dst = ClientAt c then [timer_event this t (ClientAt c)] else []) (sw_ev w) e"
proof -
  obtain e where e: "bindO (ev_new (csEventTimer_ctor t) (sw_ev w)) (\<lambda>a. EventDispatch this a dst) =
      Return () e" "ev_wf e" "ev_moves {} {} (sw_ev w) e"
    "abs_queue e = broadcast_spec (timer_event this t dst)
      (\<lambda>d. dst = ClientAt d \<and> enabled (sw_ev w) d) (abs_queue (sw_ev w))"
    using send_new [OF assms, of "csEventTimer_ctor t" this] by (auto simp: timer_event_def)
  have "enabled (sw_ev w) c \<Longrightarrow> abs_queue (sw_ev w) c \<noteq> None" for c
    by (auto simp: enabled_def abs_queue_def)
  then show ?thesis using e plain_timer_event
    by (auto simp: timer_fire_def ev_op_Return mail_added_def broadcast_spec_def push_spec_plain)
qed

text \<open>The body of the loop for one timer.\<close>

definition tick_one :: "nat \<Rightarrow> client_ptr \<Rightarrow> nat \<Rightarrow> timer_world \<Rightarrow> (timer_world, unit) outcome" where
  "tick_one this parent t w = tick_loop this parent [t] w"

lemma tick_loop_one:
  "tick_loop this parent (t # ts) w = bindO (tick_one this parent t w) (\<lambda>_. tick_loop this parent ts)"
proof -
  have eta: "(\<lambda>_ w. Return () w) = (\<lambda>(_ :: unit). Return ())" by (simp add: fun_eq_iff)
  have ident: "bindO m (\<lambda>_. Return ()) = m" for m :: "(timer_world, unit) outcome" by (cases m) auto
  show ?thesis by (simp add: tick_one_def bindO_assoc eta ident)
qed

lemma tick_one_spec:
  assumes "tm_objs w t = Some x" "timer_fine x" "parent \<noteq> BroadcastClient"
    "ev_wf (sw_ev w)" "event_client (sw_ev w) \<noteq> []"
  shows "\<exists>e. tick_one this parent t w = Return () (w\<lparr>sw_ev := e, tm_objs := (tm_objs w)(t \<mapsto> fst (tick_spec x))\<rparr>) \<and>
    mail_added (tick_mail this parent (tm_objs w) [t]) (sw_ev w) e"
proof -
  let ?h = "x\<lparr>tm_mutex := MutexHeld\<rparr>"
  have mx: "tm_mutex x = MutexFree" "time_fits (sint (tm_value x) - 1)" "tm_target x \<noteq> BroadcastClient"
    using assms(2) by (simp_all add: timer_fine_def)
  then have dec: "sint (tm_value x - 1) = sint (tm_value x) - 1"
    by (intro sint_dec_u64) (simp add: time_fits_def)
  have same: "x\<lparr>tm_mutex := MutexFree\<rparr> = x" using mx(1) by (cases x) simp
  have free: "x\<lparr>tm_value := v, tm_running := r, tm_mutex := MutexFree\<rparr> = x\<lparr>tm_value := v, tm_running := r\<rparr>"
    for v r using mx(1) by (cases x) simp
  note ops = tick_one_def tm_lock_def tm_unlock_def tm_read_def tm_set_def Let_def
  show ?thesis
  proof (cases "tm_running x \<and> sint (tm_value x) \<le> 1")
    case True
    let ?w = "tm_set t ?h w"
    let ?d = "timer_dest parent x"
    have dest: "timer_dest parent ?h = ?d" by (simp add: timer_dest_def)
    have d: "?d \<noteq> BroadcastClient" using mx(3) assms(3) by (simp add: timer_dest_def)
    obtain e where e: "timer_fire this t ?d ?w = Return () (?w\<lparr>sw_ev := e\<rparr>)"
      "mail_added (\<lambda>c. if ?d = ClientAt c then [timer_event this t (ClientAt c)] else []) (sw_ev w) e"
      using timer_fire_spec [of ?w ?d this t] assms(4,5) d by (auto simp: tm_set_def)
    have "(\<lambda>c. if ?d = ClientAt c then [timer_event this t (ClientAt c)] else []) =
        tick_mail this parent (tm_objs w) [t]"
      using True assms(1) by (auto simp: tick_mail_def tick_spec_def)
    moreover have "tick_one this parent t w = Return () (w\<lparr>sw_ev := e, tm_objs := (tm_objs w)(t \<mapsto> fst (tick_spec x))\<rparr>)"
      using True assms(1) mx(1,2) dec e(1) dest
      by (simp add: ops tick_spec_def free)
    ultimately show ?thesis using e(2) by auto
  next
    case False
    have mail: "tick_mail this parent (tm_objs w) [t] = (\<lambda>_. [])"
      using False assms(1) by (auto simp: tick_mail_def tick_spec_def)
    have "tick_one this parent t w = Return () (w\<lparr>tm_objs := (tm_objs w)(t \<mapsto> fst (tick_spec x))\<rparr>)"
      using False assms(1) mx(1,2) dec same by (cases x) (auto simp: ops tick_spec_def)
    then show ?thesis using mail_added_refl [OF assms(4)] mail
      by (intro exI [of _ "sw_ev w"]) simp
  qed
qed

lemma tick_mail_cong:
  assumes "\<And>t. t \<in> set ts \<Longrightarrow> objs t = objs' t"
  shows "tick_mail this parent objs ts = tick_mail this parent objs' ts"
proof -
  have "filter (\<lambda>t. snd (tick_spec (the (objs t))) \<and> timer_dest parent (the (objs t)) = ClientAt c) ts =
      filter (\<lambda>t. snd (tick_spec (the (objs' t))) \<and> timer_dest parent (the (objs' t)) = ClientAt c) ts" for c
    using assms by (intro filter_cong) auto
  then show ?thesis by (simp add: tick_mail_def fun_eq_iff)
qed

lemma tick_loop_spec:
  assumes "distinct ts" "\<forall>t \<in> set ts. \<exists>x. tm_objs w t = Some x \<and> timer_fine x" "parent \<noteq> BroadcastClient"
    "ev_wf (sw_ev w)" "event_client (sw_ev w) \<noteq> []"
  shows "\<exists>e. tick_loop this parent ts w = Return () (w\<lparr>sw_ev := e, tm_objs := ticked ts (tm_objs w)\<rparr>) \<and>
    mail_added (tick_mail this parent (tm_objs w) ts) (sw_ev w) e"
  using assms
proof (induction ts arbitrary: w)
  case Nil
  then show ?case using mail_added_refl [of "sw_ev w"]
    by (intro exI [of _ "sw_ev w"]) (simp add: ticked_def tick_mail_def)
next
  case (Cons t ts)
  obtain x where x: "tm_objs w t = Some x" "timer_fine x" using Cons.prems(2) by auto
  obtain e1 where e1: "tick_one this parent t w = Return () (w\<lparr>sw_ev := e1, tm_objs := (tm_objs w)(t \<mapsto> fst (tick_spec x))\<rparr>)"
    "mail_added (tick_mail this parent (tm_objs w) [t]) (sw_ev w) e1"
    using tick_one_spec [OF x Cons.prems(3-5)] by blast
  let ?w1 = "w\<lparr>sw_ev := e1, tm_objs := (tm_objs w)(t \<mapsto> fst (tick_spec x))\<rparr>"
  have ev1: "ev_wf e1" "event_client e1 \<noteq> []"
    using e1(2) Cons.prems(5) by (auto simp: mail_added_def ev_moves_def)
  have live: "\<forall>s \<in> set ts. \<exists>y. tm_objs ?w1 s = Some y \<and> timer_fine y" using Cons.prems(1,2) by auto
  have "distinct ts" using Cons.prems(1) by simp
  have ev2: "ev_wf (sw_ev ?w1)" "event_client (sw_ev ?w1) \<noteq> []" using ev1 by simp_all
  obtain e2 where e2: "tick_loop this parent ts ?w1 = Return () (?w1\<lparr>sw_ev := e2, tm_objs := ticked ts (tm_objs ?w1)\<rparr>)"
    "mail_added (tick_mail this parent (tm_objs ?w1) ts) (sw_ev ?w1) e2"
    using Cons.IH [OF \<open>distinct ts\<close> live Cons.prems(3) ev2] by blast
  have "tick_mail this parent (tm_objs ?w1) ts = tick_mail this parent (tm_objs w) ts"
    using Cons.prems(1) by (intro tick_mail_cong) auto
  then have "mail_added (\<lambda>c. tick_mail this parent (tm_objs w) [t] c @ tick_mail this parent (tm_objs w) ts c)
      (sw_ev w) e2"
    using mail_added_trans [OF e1(2)] e2(2) by simp
  moreover have "(\<lambda>c. tick_mail this parent (tm_objs w) [t] c @ tick_mail this parent (tm_objs w) ts c) =
      tick_mail this parent (tm_objs w) (t # ts)"
    by (simp add: tick_mail_def fun_eq_iff)
  moreover have "ticked ts (tm_objs ?w1) = ticked (t # ts) (tm_objs w)"
    using x(1) Cons.prems(1) by (auto simp: ticked_def fun_eq_iff)
  ultimately show ?case using e1(1) e2(1) by (simp only: tick_loop_one) (auto intro!: exI [of _ e2])
qed

lemma tick_dest [simp]: "timer_dest parent (fst (tick_spec x)) = timer_dest parent x"
  by (simp add: tick_spec_def timer_dest_def)

lemma timer_fine_tick: "timer_fine x \<Longrightarrow> timer_fine (fst (tick_spec x))"
  using sint_dec_u64 [of "tm_value x"] sint_lt [of "tm_value x"]
  by (auto simp: timer_fine_def tick_spec_def time_fits_def)

text \<open>The state in which a tick is correct, for the timer thread object \<open>this\<close>.\<close>

definition timers_ok :: "nat \<Rightarrow> timer_world \<Rightarrow> bool" where
  "timers_ok this w \<longleftrightarrow> ev_wf (sw_ev w) \<and> event_client (sw_ev w) \<noteq> [] \<and> vector_mutex w = MutexFree \<and>
     distinct (timer_vector w) \<and> (\<forall>t \<in> set (timer_vector w). \<exists>x. tm_objs w t = Some x \<and> timer_fine x) \<and>
     (\<exists>ob. tt_objs w this = Some ob \<and> tt_parent ob \<noteq> BroadcastClient)"

definition parent_of :: "nat \<Rightarrow> timer_world \<Rightarrow> client_ptr" where
  "parent_of this w = tt_parent (the (tt_objs w this))"

lemma Tick_eq:
  assumes "timers_ok this w"
  shows "\<exists>e. Tick this w = Return () (w\<lparr>sw_ev := e, tm_objs := ticked (timer_vector w) (tm_objs w)\<rparr>) \<and>
    mail_added (tick_mail this (parent_of this w) (tm_objs w) (timer_vector w)) (sw_ev w) e"
proof -
  note ok = assms [unfolded timers_ok_def]
  obtain ob where ob: "tt_objs w this = Some ob" "tt_parent ob \<noteq> BroadcastClient" using ok by blast
  let ?w = "w\<lparr>vector_mutex := MutexHeld\<rparr>"
  obtain e where e: "tick_loop this (tt_parent ob) (timer_vector w) ?w =
      Return () (?w\<lparr>sw_ev := e, tm_objs := ticked (timer_vector w) (tm_objs w)\<rparr>)"
    "mail_added (tick_mail this (tt_parent ob) (tm_objs w) (timer_vector w)) (sw_ev w) e"
    using tick_loop_spec [of "timer_vector w" ?w "tt_parent ob" this] ok ob(2) by auto
  have "w = w\<lparr>vector_mutex := MutexFree\<rparr>" using ok by simp
  then show ?thesis using e ob(1) ok
    by (auto simp: Tick_def vector_lock_def vector_unlock_def mutex_lock_def mutex_unlock_def parent_of_def
        intro!: exI [of _ e])
qed

lemma timers_ok_tick:
  assumes "timers_ok this w" "mail_added m (sw_ev w) e"
  shows "timers_ok this (w\<lparr>sw_ev := e, tm_objs := ticked (timer_vector w) (tm_objs w)\<rparr>)"
  using assms timer_fine_tick by (fastforce simp: timers_ok_def mail_added_def ev_moves_def ticked_def)

section \<open>Many ticks\<close>

fun tick_many :: "nat \<Rightarrow> nat \<Rightarrow> timer_world \<Rightarrow> (timer_world, unit) outcome" where
  "tick_many this 0 w = Return () w"
| "tick_many this (Suc n) w = bindO (Tick this w) (\<lambda>_. tick_many this n)"

fun fire_count :: "nat \<Rightarrow> csTimer \<Rightarrow> nat" where
  "fire_count 0 x = 0"
| "fire_count (Suc n) x = (if snd (tick_spec x) then 1 else 0) + fire_count n (fst (tick_spec x))"

text \<open>Expiry at the value, then at every interval; a timer whose value is past expires at once.\<close>

definition fires :: "nat \<Rightarrow> csTimer \<Rightarrow> nat" where
  "fires n x = (let v = nat (max 1 (sint (tm_value x))); i = nat (sint (tm_interval x)) in
     if \<not> tm_running x \<or> n < v then 0 else if i = 0 then 1 else 1 + (n - v) div i)"

lemma fire_count_stopped: "\<not> tm_running x \<Longrightarrow> fire_count n x = 0"
  by (induction n) (auto simp: tick_spec_def)

lemma fire_count_fires: "fire_count n x = fires n x"
proof (induction n arbitrary: x)
  case 0
  show ?case by (simp add: fires_def Let_def max_def)
next
  case (Suc n)
  define i where "i = nat (sint (tm_interval x))"
  consider "\<not> tm_running x" | "tm_running x" "sint (tm_value x) \<le> 1" | "tm_running x" "1 < sint (tm_value x)"
    by linarith
  then show ?case
  proof cases
    case 1
    then show ?thesis using fire_count_stopped [of x "Suc n"] by (simp add: fires_def)
  next
    case 2
    let ?y = "x\<lparr>tm_value := tm_interval x, tm_running := (sint (tm_interval x) > 0)\<rparr>"
    have "fires n ?y = (if i = 0 then 0 else n div i)"
    proof (cases "i = 0")
      case False
      then have "nat (max 1 (sint (tm_interval x))) = i" by (simp add: i_def)
      then show ?thesis using False le_div_geq [of i n]
        by (cases "n < i") (simp_all add: fires_def Let_def i_def [symmetric], simp_all add: i_def)
    qed (simp add: fires_def i_def)
    then show ?thesis using 2 Suc.IH [of ?y] by (simp add: tick_spec_def fires_def Let_def i_def [symmetric])
  next
    case 3
    let ?y = "x\<lparr>tm_value := tm_value x - 1\<rparr>"
    have v: "sint (tm_value x - 1) = sint (tm_value x) - 1" using 3 by (intro sint_dec_u64) simp
    have "nat (max 1 (sint (tm_value ?y))) = nat (sint (tm_value x)) - 1"
      "nat (max 1 (sint (tm_value x))) = nat (sint (tm_value x))" "1 < nat (sint (tm_value x))"
      using 3 v by (simp_all add: nat_diff_distrib)
    then have "fires n ?y = fires (Suc n) x" by (auto simp: fires_def Let_def)
    then show ?thesis using 3 Suc.IH [of ?y] by (simp add: tick_spec_def)
  qed
qed

text \<open>The events of timer \<open>t\<close> that wait in the queue of client \<open>c\<close>.\<close>

definition timer_events :: "nat \<Rightarrow> nat \<Rightarrow> ev_world \<Rightarrow> nat" where
  "timer_events t c e = length (filter (\<lambda>x. ev_class x = EvTimer t) (the (abs_queue e c)))"

lemma timer_event_class [simp]: "ev_class (timer_event this t dst) = EvTimer t"
  by (simp add: timer_event_def csEventTimer_ctor_def)

lemma tick_mail_count:
  assumes "distinct ts"
  shows "length (filter (\<lambda>x. ev_class x = EvTimer t) (tick_mail this parent objs ts c)) =
    (if t \<in> set ts \<and> snd (tick_spec (the (objs t))) \<and> timer_dest parent (the (objs t)) = ClientAt c
     then 1 else 0)"
proof -
  let ?P = "\<lambda>t. snd (tick_spec (the (objs t))) \<and> timer_dest parent (the (objs t)) = ClientAt c"
  have one: "filter (\<lambda>s. s = t) (filter P ts) = (if t \<in> set ts \<and> P t then [t] else [])" for P
    using assms by (induction ts) (auto simp: filter_empty_conv)
  have "filter (\<lambda>x. ev_class x = EvTimer t) (tick_mail this parent objs ts c) =
      map (\<lambda>t. timer_event this t (ClientAt c)) (filter (\<lambda>s. s = t) (filter ?P ts))"
    by (simp add: tick_mail_def filter_map comp_def)
  then show ?thesis by (simp only: one) simp
qed

lemma tick_many_spec:
  assumes "timers_ok this w" "t \<in> set (timer_vector w)" "tm_objs w t = Some x"
    "timer_dest (parent_of this w) x = ClientAt c" "enabled (sw_ev w) c"
  shows "\<exists>w'. tick_many this n w = Return () w' \<and> timers_ok this w' \<and>
    timer_events t c (sw_ev w') = timer_events t c (sw_ev w) + fire_count n x"
  using assms
proof (induction n arbitrary: w x)
  case (Suc n)
  obtain e where e: "Tick this w = Return () (w\<lparr>sw_ev := e, tm_objs := ticked (timer_vector w) (tm_objs w)\<rparr>)"
    "mail_added (tick_mail this (parent_of this w) (tm_objs w) (timer_vector w)) (sw_ev w) e"
    using Tick_eq [OF Suc.prems(1)] by blast
  let ?w = "w\<lparr>sw_ev := e, tm_objs := ticked (timer_vector w) (tm_objs w)\<rparr>"
  have on: "enabled (sw_ev ?w) c" using e(2) Suc.prems(5) by (simp add: mail_added_def ev_moves_def)
  have "timer_events t c e = timer_events t c (sw_ev w) + (if snd (tick_spec x) then 1 else 0)"
    using e(2) Suc.prems tick_mail_count [of "timer_vector w" t this "parent_of this w" "tm_objs w" c]
    by (simp add: timer_events_def mail_added_def timers_ok_def)
  moreover obtain w' where "tick_many this n ?w = Return () w'" "timers_ok this w'"
    "timer_events t c (sw_ev w') = timer_events t c (sw_ev ?w) + fire_count n (fst (tick_spec x))"
    using Suc.IH [OF timers_ok_tick [OF Suc.prems(1) e(2)], of "fst (tick_spec x)"] Suc.prems(2-4) on
    by (auto simp: ticked_def parent_of_def)
  ultimately show ?case using e(1) by auto
qed simp

section \<open>Properties\<close>

text \<open>
  C11. One tick. In a well-formed state \<open>Tick\<close> returns; every registered timer is advanced by
  one second exactly as \<open>tick_spec\<close> says (a stopped one is left alone, an expiring one is
  reloaded from its interval and stops when that is not positive), and every enabled client
  finds, behind what it had, one timer event for each timer that expired and is aimed at it,
  in the order of registration. No event is lost or leaked.
\<close>

theorem tick_correct:
  assumes "timers_ok this w"
  shows "\<exists>w'. Tick this w = Return () w' \<and> timers_ok this w' \<and>
    tm_objs w' = ticked (timer_vector w) (tm_objs w) \<and> timer_vector w' = timer_vector w \<and>
    (\<forall>c. abs_queue (sw_ev w') c = (if enabled (sw_ev w) c
       then Some (the (abs_queue (sw_ev w) c) @
         tick_mail this (parent_of this w) (tm_objs w) (timer_vector w) c)
       else abs_queue (sw_ev w) c)) \<and>
    (\<forall>b \<in> loose (sw_ev w'). b \<in> loose (sw_ev w) \<or> persistent_at (sw_ev w') b)"
proof -
  obtain e where e: "Tick this w = Return () (w\<lparr>sw_ev := e, tm_objs := ticked (timer_vector w) (tm_objs w)\<rparr>)"
    "mail_added (tick_mail this (parent_of this w) (tm_objs w) (timer_vector w)) (sw_ev w) e"
    using Tick_eq [OF assms] by blast
  then show ?thesis using timers_ok_tick [OF assms e(2)]
    by (auto simp: mail_added_def ev_moves_def)
qed

text \<open>
  C22. How often a timer fires. Over \<open>n\<close> ticks in which nobody takes events, a running timer
  aimed at an enabled client adds exactly \<open>fires n\<close> events to that client's queue: none before
  its value has run down, then one at once and one more each full interval, and only that one
  when the interval is not positive.
\<close>

theorem timer_fires:
  assumes "timers_ok this w" "t \<in> set (timer_vector w)" "tm_objs w t = Some x"
    "timer_dest (parent_of this w) x = ClientAt c" "enabled (sw_ev w) c"
  shows "\<exists>w'. tick_many this n w = Return () w' \<and> timers_ok this w' \<and>
    timer_events t c (sw_ev w') = timer_events t c (sw_ev w) + fires n x"
  using tick_many_spec [OF assms] by (simp add: fire_count_fires)

lemma tm_locked_eq:
  assumes "tm_objs w t = Some x" "tm_mutex x = MutexFree"
    "f (x\<lparr>tm_mutex := MutexHeld\<rparr>)\<lparr>tm_mutex := MutexFree\<rparr> = f x"
  shows "tm_locked t f w = Return () (tm_set t (f x) w)"
  using assms by (simp add: tm_locked_def tm_lock_def tm_unlock_def tm_read_def tm_set_def)

lemma tm_mutex_same:
  assumes "tm_mutex x = MutexFree"
  shows "x\<lparr>tm_mutex := MutexFree\<rparr> = x"
    "x\<lparr>tm_value := v, tm_mutex := MutexFree\<rparr> = x\<lparr>tm_value := v\<rparr>"
    "x\<lparr>tm_interval := v, tm_mutex := MutexFree\<rparr> = x\<lparr>tm_interval := v\<rparr>"
    "x\<lparr>tm_running := b, tm_mutex := MutexFree\<rparr> = x\<lparr>tm_running := b\<rparr>"
  using assms by (cases x, simp)+

lemma tm_updates:
  assumes "tm_objs w t = Some x" "tm_mutex x = MutexFree"
  shows "tm_locked t (\<lambda>y. y\<lparr>tm_running := b\<rparr>) w = Return () (tm_set t (x\<lparr>tm_running := b\<rparr>) w)"
    "tm_locked t (\<lambda>y. y\<lparr>tm_value := v\<rparr>) w = Return () (tm_set t (x\<lparr>tm_value := v\<rparr>) w)"
    "tm_locked t (\<lambda>y. y\<lparr>tm_interval := v\<rparr>) w = Return () (tm_set t (x\<lparr>tm_interval := v\<rparr>) w)"
  by (rule tm_locked_eq [OF assms], simp add: tm_mutex_same [OF assms(2)])+

lemma sint_add_fits:
  fixes a b :: time_t
  assumes "time_fits (sint a + sint b)"
  shows "sint (a + b) = sint a + sint b"
proof -
  have "signed_take_bit 63 (sint a + sint b) = sint a + sint b"
    using assms by (intro signed_take_bit_int_eq_self) (auto simp: time_fits_def)
  then show ?thesis by (simp add: sint_word_ariths(1))
qed

text \<open>
  The operations on a timer. On a live timer each operation does what it says and nothing
  else, and leaves its mutex free; reading the remaining time does not change it.
\<close>

theorem timer_operations:
  assumes "tm_objs w t = Some x" "tm_mutex x = MutexFree" "time_fits (sint (tm_value x) + sint d)"
  shows "csTimer_Start t w = Return () (tm_set t (x\<lparr>tm_running := True\<rparr>) w) \<and>
    csTimer_Stop t w = Return () (tm_set t (x\<lparr>tm_running := False\<rparr>) w) \<and>
    (\<exists>w'. csTimer_SetValue t v w = Return () w' \<and> tm_objs w' = (tm_objs w)(t \<mapsto> x\<lparr>tm_value := v\<rparr>)) \<and>
    (\<exists>w'. csTimer_SetInterval t v w = Return () w' \<and> tm_objs w' = (tm_objs w)(t \<mapsto> x\<lparr>tm_interval := v\<rparr>)) \<and>
    (\<exists>w'. csTimer_Extend t d w = Return () w' \<and> tm_objs w' = (tm_objs w)(t \<mapsto> x\<lparr>tm_value := tm_value x + d\<rparr>) \<and>
      sint (tm_value x + d) = sint (tm_value x) + sint d) \<and>
    csTimer_GetInterval t w = Return (tm_interval x) w \<and>
    csTimer_GetRemaining t w = Return (tm_value x) w"
proof -
  note upd = tm_updates [OF assms(1,2)] and same = tm_mutex_same [OF assms(2)]
  note add = sint_add_fits [OF assms(3)]
  note prims = tm_lock_def tm_unlock_def tm_read_def tm_set_def sys_log_def
  show ?thesis
  proof (intro conjI)
    show "csTimer_Start t w = Return () (tm_set t (x\<lparr>tm_running := True\<rparr>) w)"
      "csTimer_Stop t w = Return () (tm_set t (x\<lparr>tm_running := False\<rparr>) w)"
      by (simp_all add: csTimer_Start_def csTimer_Stop_def upd)
    show "\<exists>w'. csTimer_SetValue t v w = Return () w' \<and> tm_objs w' = (tm_objs w)(t \<mapsto> x\<lparr>tm_value := v\<rparr>)"
      by (simp add: csTimer_SetValue_def upd prims)
    show "\<exists>w'. csTimer_SetInterval t v w = Return () w' \<and> tm_objs w' = (tm_objs w)(t \<mapsto> x\<lparr>tm_interval := v\<rparr>)"
      by (simp add: csTimer_SetInterval_def upd prims)
    show "\<exists>w'. csTimer_Extend t d w = Return () w' \<and>
        tm_objs w' = (tm_objs w)(t \<mapsto> x\<lparr>tm_value := tm_value x + d\<rparr>) \<and>
        sint (tm_value x + d) = sint (tm_value x) + sint d"
      using assms add by (simp add: csTimer_Extend_def prims same(2))
    show "csTimer_GetInterval t w = Return (tm_interval x) w"
      using assms(1) by (simp add: csTimer_GetInterval_def tm_read_def)
    show "csTimer_GetRemaining t w = Return (tm_value x) w"
      using assms(1,2) by (simp add: csTimer_GetRemaining_def prims same(1) fun_upd_idem)
  qed
qed

section \<open>The timer thread object\<close>

definition timer_ready :: "pthread_env \<Rightarrow> nat \<Rightarrow> timer_world \<Rightarrow> bool" where
  "timer_ready env this w \<longleftrightarrow> ev_wf (sw_ev w) \<and> this \<notin> set (event_client (sw_ev w)) \<and>
     pt_attr_init env = 0 \<and> pt_attr_setstacksize env CS_THREAD_STACK_SIZE = 0 \<and>
     (tt_instance w = None \<longrightarrow> vector_mutex w = MutexNull)"

lemma csThreadTimer_ctor_start:
  assumes "timer_ready env this w"
  obtains e where "csThread_ctor env this CS_THREAD_STACK_SIZE w = Return () (set_thread this
      (Some \<lparr>th_id = invalid_id, th_attr = Some CS_THREAD_STACK_SIZE\<rparr>) (w\<lparr>sw_ev := e\<rparr>))"
    "ev_wf e" "ev_clients e this \<noteq> None"
  using csThread_ctor_ok [of w this env CS_THREAD_STACK_SIZE] assms by (auto simp: timer_ready_def)

lemma csThread_Join_timer:
  fixes w :: timer_world
  assumes "csThread_Join env this w = Return () w'"
  shows "tt_instance w' = tt_instance w" "tt_objs w' = tt_objs w" "tm_objs w' = tm_objs w"
    "sw_ev w' = sw_ev w" "vector_mutex w' = vector_mutex w"
  using assms
  by (auto simp: csThread_Join_def Let_def set_thread_def sys_log_def split: option.splits if_splits)

lemma csThreadTimer_dtor_frame:
  assumes "csThreadTimer_dtor env this w = Return () w'"
  shows "tt_instance w' = tt_instance w" "tm_objs w' = tm_objs w"
    "tt_instance w = Some this \<Longrightarrow> vector_mutex w' = MutexNull"
proof -
  obtain ob where ob: "tt_objs w this = Some ob"
    using assms by (auto simp: csThreadTimer_dtor_def split: option.splits)
  let ?m = "\<lambda>w1. if tt_instance w1 \<noteq> Some this then w1
    else w1\<lparr>tt_kernel := (tt_kernel w1)(tt_timer_id ob := None), vector_mutex := MutexNull\<rparr>"
  obtain w1 w2 where w1: "csThread_Join env this w = Return () w1"
    and w2: "ev_op (csEventClient_dtor this) (?m w1) = Return () w2"
    and w': "w' = set_thread this None (w2\<lparr>tt_objs := (tt_objs w2)(this := None)\<rparr>)"
    using assms [unfolded csThreadTimer_dtor_def ob option.case Let_def bindO_Return_iff] by auto
  obtain e where e: "w2 = (?m w1)\<lparr>sw_ev := e\<rparr>" using ev_op_frame [OF w2] by blast
  note j = csThread_Join_timer [OF w1]
  show "tt_instance w' = tt_instance w" "tm_objs w' = tm_objs w"
    "tt_instance w = Some this \<Longrightarrow> vector_mutex w' = MutexNull"
    using j e by (simp_all add: w' set_thread_def)
qed

interpretation timer_single: singleton tt_instance "csThreadTimer_ctor env created parent"
  "csThreadTimer_dtor env" "timer_ready env" for env created parent
proof (unfold_locales, goal_cases)
  case (1 p s t)
  obtain e where "csThread_ctor env p CS_THREAD_STACK_SIZE s = Return () (set_thread p
      (Some \<lparr>th_id = invalid_id, th_attr = Some CS_THREAD_STACK_SIZE\<rparr>) (s\<lparr>sw_ev := e\<rparr>))"
    using csThreadTimer_ctor_start [OF 1(1)] by blast
  then show ?case using 1 abandon_not_Return
    by (auto simp: csThreadTimer_ctor_def Let_def timer_ready_def set_thread_def
        split: if_splits sum.splits)
next
  case (2 p s)
  obtain e where e: "csThread_ctor env p CS_THREAD_STACK_SIZE s = Return () (set_thread p
      (Some \<lparr>th_id = invalid_id, th_attr = Some CS_THREAD_STACK_SIZE\<rparr>) (s\<lparr>sw_ev := e\<rparr>))"
    "ev_wf e" "ev_clients e p \<noteq> None"
    using csThreadTimer_ctor_start [OF 2(1)] by blast
  let ?s = "set_thread p (Some \<lparr>th_id = invalid_id, th_attr = Some CS_THREAD_STACK_SIZE\<rparr>) (s\<lparr>sw_ev := e\<rparr>)"
  have "\<exists>v. abandon p (csException_es EEXIST ''csThreadTimer'') ?s =
      Throw (csException_es EEXIST ''csThreadTimer'') v"
    using e(2,3) abandon_throws [of ?s p] by auto
  moreover have "tt_instance ?s = tt_instance s" by (simp add: set_thread_def)
  ultimately show ?case using e(1) 2(2) by (auto simp: csThreadTimer_ctor_def csException_es_def)
next
  case (3 p s t)
  then show ?case by (rule csThreadTimer_dtor_frame)
qed

text \<open>
  The timer thread exists once, and timers must not outlive it. After one timer thread was
  created and destroyed, a second one is refused with \<open>EEXIST\<close>, because the instance pointer
  is never reset; and a timer that is still alive then cannot be destroyed, nor a new one
  made, without using the mutex that the thread's destructor freed: undefined behaviour.
\<close>

theorem timer_thread_once:
  assumes "timer_ready env p w" "csThreadTimer_ctor env created parent p w = Return () w1"
    "csThreadTimer_dtor env p w1 = Return () w2" "timer_ready env r w2"
  shows "(\<exists>e w3. csThreadTimer_ctor env created parent r w2 = Throw e w3 \<and> eint e = EEXIST) \<and>
    (\<forall>t x. tm_objs w2 t = Some x \<and> tm_mutex x = MutexFree \<longrightarrow> csTimer_dtor t w2 = Undef) \<and>
    csTimer_ctor t' i v n target w2 = Undef"
proof -
  have inst: "tt_instance w1 = Some p" using timer_single.create_registers [OF assms(1,2)] by blast
  have w2: "tt_instance w2 = Some p" "vector_mutex w2 = MutexNull"
    using csThreadTimer_dtor_frame [OF assms(3)] inst by auto
  have "csTimer_dtor t w2 = Undef" if "tm_objs w2 t = Some x" "tm_mutex x = MutexFree" for t x
    using that w2 tm_updates(1) [OF that]
    by (auto simp: csTimer_dtor_def csTimer_Stop_def RemoveTimer_def vector_lock_def mutex_lock_def
        tm_set_def)
  moreover have "csTimer_ctor t' i v n target w2 = Undef"
    using w2 by (simp add: csTimer_ctor_def AddTimer_def vector_lock_def mutex_lock_def tm_set_def)
  ultimately show ?thesis using timer_single.created_once [OF assms] by blast
qed

section \<open>The loop of the thread\<close>

lemma pop_front:
  assumes "ev_wf e" "abs_queue e c = Some (q # r)" "IsSticky q \<longrightarrow> clonable q"
  shows "\<exists>a e' x. EventPop c e = Return (Some a) e' \<and> ev_wf e' \<and> ev_heap e' a = Some x \<and> a \<notin> queued e' \<and>
    ev_id x = ev_id q \<and> event_client e' = event_client e"
proof -
  obtain ob where ob: "ev_clients e c = Some ob" using abs_queue_client [OF assms(2)] by blast
  obtain y e' where y: "EventPop c e = Return y e'" "ev_wf e'" "set_option y \<subseteq> loose e'"
    "ev_moves {} (set_option y) e e'"
    "map_option (\<lambda>a. the (ev_heap e' a)) y = fst (pop_spec (q # r))"
    using EventPop_spec [OF assms(1) ob assms(2)] assms(3) by (auto simp: clonable_def)
  have "\<exists>z. fst (pop_spec (q # r)) = Some z \<and> ev_id z = ev_id q"
    using assms(3) by (cases "IsSticky q") (auto simp: pop_spec_def clonable_def clone_event_def split: option.splits)
  then obtain z where z: "fst (pop_spec (q # r)) = Some z" "ev_id z = ev_id q" by blast
  then obtain a where a: "y = Some a" "the (ev_heap e' a) = z" using y(5) by (cases y) auto
  have "a \<in> loose e'" using y(3) a(1) by simp
  then obtain x where "ev_heap e' a = Some x" "a \<notin> queued e'" by (auto simp: loose_def)
  then show ?thesis using y(1,2,4) a z(2) by (auto simp: ev_moves_def)
qed

text \<open>
  The thread ends on the quit event. When the first event in its queue is \<open>csEVENT_QUIT\<close>
  the loop of \<open>Entry\<close> returns in its next turn, before it looks at another signal, and no
  timer is advanced.
\<close>

theorem timer_thread_quits:
  assumes "timers_ok this w" "abs_queue (sw_ev w) this = Some (q # r)" "ev_id q = csEVENT_QUIT"
    "IsSticky q \<longrightarrow> clonable q"
  shows "\<exists>w'. csThreadTimer_Entry env settime strsignal signo this (s # ss) w = Return (Some ()) w' \<and>
    tm_objs w' = tm_objs w \<and> timers_ok this w'"
proof -
  have wf: "ev_wf (sw_ev w)" using assms(1) by (simp add: timers_ok_def)
  obtain a e x where pop: "EventPop this (sw_ev w) = Return (Some a) e" "ev_wf e" "ev_heap e a = Some x"
    "a \<notin> queued e" "ev_id x = ev_id q" "event_client e = event_client (sw_ev w)"
    using pop_front [OF wf assms(2,4)] by blast
  let ?e = "e\<lparr>ev_heap := kill a (ev_heap e)\<rparr>"
  have "ev_wf ?e" using kill_loose(1) [of e a] pop(2,4) by (simp add: ev_wf_def)
  moreover obtain ob where "tt_objs w this = Some ob" using assms(1) by (auto simp: timers_ok_def)
  ultimately show ?thesis using pop assms(1,3) EventDestroy_eq [OF pop(3)]
    by (simp add: csThreadTimer_Entry_def timer_turn_def ev_op_Return ev_read_def sys_log_def timers_ok_def)
qed

lemma timer_turn_tick:
  assumes "timers_ok this w" "abs_queue (sw_ev w) this = Some []"
  shows "timer_turn env strsignal signo this (Inr signo) w = bindO (Tick this w) (\<lambda>_. Return True)"
proof -
  obtain ob where ob: "ev_clients (sw_ev w) this = Some ob" "event_queue ob = []"
    using assms(2) by (auto simp: abs_queue_def)
  have "EventPop this (sw_ev w) = Return None (sw_ev w)"
    using EventPop_eq(1) [OF _ ob] assms(1) by (simp add: timers_ok_def ev_wf_def)
  then show ?thesis by (simp add: timer_turn_def ev_op_Return)
qed

lemma own_mail_empty:
  assumes "\<forall>t \<in> set ts. timer_dest parent (the (objs t)) \<noteq> ClientAt this"
  shows "tick_mail this parent objs ts this = []"
  using assms by (auto simp: tick_mail_def filter_empty_conv)

lemma timer_loop_ticks:
  assumes "timers_ok this w" "abs_queue (sw_ev w) this = Some []"
    "\<forall>t \<in> set (timer_vector w). timer_dest (parent_of this w) (the (tm_objs w t)) \<noteq> ClientAt this"
  shows "timer_loop env strsignal signo this (replicate n (Inr signo)) w =
    bindO (tick_many this n w) (\<lambda>_. Return None)"
  using assms
proof (induction n arbitrary: w)
  case (Suc n)
  obtain e where e: "Tick this w = Return () (w\<lparr>sw_ev := e, tm_objs := ticked (timer_vector w) (tm_objs w)\<rparr>)"
    "mail_added (tick_mail this (parent_of this w) (tm_objs w) (timer_vector w)) (sw_ev w) e"
    using Tick_eq [OF Suc.prems(1)] by blast
  let ?w = "w\<lparr>sw_ev := e, tm_objs := ticked (timer_vector w) (tm_objs w)\<rparr>"
  have "abs_queue (sw_ev ?w) this = Some []"
    using e(2) own_mail_empty [OF Suc.prems(3)] Suc.prems(2) by (simp add: mail_added_def)
  moreover have "\<forall>t \<in> set (timer_vector ?w). timer_dest (parent_of this ?w) (the (tm_objs ?w t)) \<noteq> ClientAt this"
    using Suc.prems(1,3) by (fastforce simp: ticked_def parent_of_def timers_ok_def)
  ultimately have "timer_loop env strsignal signo this (replicate n (Inr signo)) ?w =
      bindO (tick_many this n ?w) (\<lambda>_. Return None)"
    using Suc.IH [OF timers_ok_tick [OF Suc.prems(1) e(2)]] by blast
  then show ?case using timer_turn_tick [OF Suc.prems(1,2)] e(1) by simp
qed simp

text \<open>
  From signals to events. A timer thread without mail of its own that receives \<open>n\<close> timer
  signals delivers \<open>fires n\<close> events of a timer to the client it is aimed at, and waits on.
\<close>

theorem signals_become_events:
  assumes "timers_ok this w" "abs_queue (sw_ev w) this = Some []"
    "\<forall>t \<in> set (timer_vector w). timer_dest (parent_of this w) (the (tm_objs w t)) \<noteq> ClientAt this"
    "t \<in> set (timer_vector w)" "tm_objs w t = Some x"
    "timer_dest (parent_of this w) x = ClientAt c" "enabled (sw_ev w) c"
  shows "\<exists>w'. csThreadTimer_Entry env settime strsignal signo this (replicate n (Inr signo)) w = Return None w' \<and>
    timer_events t c (sw_ev w') = timer_events t c (sw_ev w) + fires n x"
proof -
  obtain ob where ob: "tt_objs w this = Some ob" using assms(1) by (auto simp: timers_ok_def)
  let ?v = "if settime then w\<lparr>tt_kernel := (tt_kernel w)(tt_timer_id ob \<mapsto> True)\<rparr> else w"
  let ?w = "sys_log Level_Debug ''Timer thread started.'' [] ?v"
  have ok: "timers_ok this ?w" "abs_queue (sw_ev ?w) this = Some []"
    "\<forall>t \<in> set (timer_vector ?w). timer_dest (parent_of this ?w) (the (tm_objs ?w t)) \<noteq> ClientAt this"
    using assms(1-3) by (simp_all add: sys_log_def timers_ok_def parent_of_def)
  have t: "t \<in> set (timer_vector ?w)" "tm_objs ?w t = Some x" "timer_dest (parent_of this ?w) x = ClientAt c"
    "enabled (sw_ev ?w) c" "sw_ev ?w = sw_ev w"
    using assms(4-7) by (simp_all add: sys_log_def parent_of_def)
  have "csThreadTimer_Entry env settime strsignal signo this (replicate n (Inr signo)) w =
      timer_loop env strsignal signo this (replicate n (Inr signo)) ?w"
    using ob by (simp add: csThreadTimer_Entry_def)
  with tick_many_spec [OF ok(1) t(1-4), of n] t(5) show ?thesis
    unfolding timer_loop_ticks [OF ok] by (auto simp: fire_count_fires)
qed

section \<open>Witnesses\<close>

definition two_second_timer :: csTimer where
  "two_second_timer = \<lparr>tm_running = True, tm_id = 500, tm_target = NullClient, tm_value = 1,
     tm_interval = 2, tm_mutex = MutexFree\<rparr>"

definition timer_example :: "ev_world \<Rightarrow> timer_world" where
  "timer_example e = \<lparr>sw_ev = e, sw_threads = Map.empty, sw_joined = [], sw_log = [],
     tm_objs = [9 \<mapsto> two_second_timer], timer_vector = [9], vector_mutex = MutexFree,
     tt_instance = Some 1, tt_objs = [1 \<mapsto> \<lparr>tt_parent = ClientAt 0, tt_timer_id = 0\<rparr>],
     tt_kernel = [0 \<mapsto> False]\<rparr>"

abbreviation quiet :: ev_world where
  "quiet \<equiv> two_clients quit_event (user_event 1)"

text \<open>The same with the quit event in the queue of client 1.\<close>

definition told_to_quit :: ev_world where
  "told_to_quit = quiet\<lparr>ev_clients := (ev_clients quiet)(1 \<mapsto> idle_client\<lparr>event_queue := [0]\<rparr>)\<rparr>"

lemma told_to_quit_simps [simp]:
  "ev_wf told_to_quit" "event_client told_to_quit = [0, 1]"
  "abs_queue told_to_quit (Suc 0) = Some [quit_event]"
  by (auto simp: told_to_quit_def two_clients_def idle_client_def ev_wf_def ev_core_def abs_queue_def
      critical_free_def critical_init_def split: if_splits)

lemma two_second_timer_fine [simp]: "timer_fine two_second_timer"
  by (simp add: timer_fine_def two_second_timer_def time_fits_def)

lemma timer_example_simps [simp]:
  "sw_ev (timer_example e) = e" "timer_vector (timer_example e) = [9]"
  "tm_objs (timer_example e) = [9 \<mapsto> two_second_timer]"
  "parent_of (Suc 0) (timer_example e) = ClientAt 0" "timer_dest (ClientAt 0) two_second_timer = ClientAt 0"
  "ev_wf e \<Longrightarrow> event_client e \<noteq> [] \<Longrightarrow> timers_ok (Suc 0) (timer_example e)"
  by (simp_all add: timer_example_def parent_of_def timer_dest_def timers_ok_def)
    (simp_all add: two_second_timer_def)

lemma two_second_timer_fires: "fires 5 two_second_timer = 3"
  by (simp add: fires_def two_second_timer_def)

theorem tick_correct_witness:
  "\<exists>w'. Tick 1 (timer_example quiet) = Return () w' \<and>
    map_option (map ev_class) (abs_queue (sw_ev w') 0) = Some [EvTimer 9]"
proof -
  have "tick_mail 1 (ClientAt 0) [9 \<mapsto> two_second_timer] [9] 0 = [timer_event 1 9 (ClientAt 0)]"
    by (simp add: tick_mail_def tick_spec_def) (simp add: two_second_timer_def)
  then show ?thesis using tick_correct [of 1 "timer_example quiet"] by auto
qed

theorem timer_fires_witness:
  "\<exists>w'. tick_many 1 5 (timer_example quiet) = Return () w' \<and> timer_events 9 0 (sw_ev w') = 3"
  using timer_fires [of 1 "timer_example quiet" 9 two_second_timer 0 5] two_second_timer_fires
  by (auto simp: timer_events_def)

theorem timer_operations_witness:
  "\<exists>w'. csTimer_Extend 9 60 (timer_example quiet) = Return () w' \<and>
    tm_objs w' = [9 \<mapsto> two_second_timer\<lparr>tm_value := 61\<rparr>]"
proof -
  have "tm_mutex two_second_timer = MutexFree" "tm_value two_second_timer = 1"
    by (simp_all add: two_second_timer_def)
  then show ?thesis
    using timer_operations [of "timer_example quiet" 9 two_second_timer 60] by (auto simp: time_fits_def)
qed

theorem timer_thread_quits_witness:
  "\<exists>w'. csThreadTimer_Entry good_pthreads True (\<lambda>_. []) 34 1 [Inr 34] (timer_example told_to_quit) =
    Return (Some ()) w' \<and> tm_objs w' = [9 \<mapsto> two_second_timer]"
  using timer_thread_quits [of 1 "timer_example told_to_quit" quit_event "[]" good_pthreads True "\<lambda>_. []" 34
      "Inr 34" "[]"] by (auto simp: clonable_def)

theorem signals_become_events_witness:
  "\<exists>w'. csThreadTimer_Entry good_pthreads True (\<lambda>_. []) 34 1 (replicate 5 (Inr 34)) (timer_example quiet) =
    Return None w' \<and> timer_events 9 0 (sw_ev w') = 3"
  using signals_become_events [of 1 "timer_example quiet" 9 two_second_timer 0 good_pthreads True "\<lambda>_. []" 34 5]
    two_second_timer_fires by (auto simp: timer_events_def)

text \<open>A timer thread that is made, started and destroyed while a timer is alive.\<close>

definition before_timers :: timer_world where
  "before_timers = \<lparr>sw_ev = ev_init, sw_threads = Map.empty, sw_joined = [], sw_log = [],
     tm_objs = [9 \<mapsto> two_second_timer], timer_vector = [9], vector_mutex = MutexNull,
     tt_instance = None, tt_objs = Map.empty, tt_kernel = Map.empty\<rparr>"

theorem timer_thread_once_witness:
  "\<exists>w1 w2 e w3. csThreadTimer_ctor good_pthreads (Inr 3) (ClientAt 0) 1 before_timers = Return () w1 \<and>
    csThreadTimer_dtor good_pthreads 1 w1 = Return () w2 \<and>
    csThreadTimer_ctor good_pthreads (Inr 3) (ClientAt 0) 2 w2 = Throw e w3 \<and> eint e = EEXIST \<and>
    csTimer_dtor 9 w2 = Undef"
proof -
  have ready: "timer_ready good_pthreads 1 before_timers"
    by (simp add: timer_ready_def before_timers_def good_pthreads_def CS_THREAD_STACK_SIZE_def)
  obtain e1 e2 where e: "csEventClient_ctor 1 ev_init = Return () e1" "csEventClient_dtor 1 e1 = Return () e2"
    "ev_wf e2" "event_client e2 = []"
    using client_ctor_dtor [of ev_init 1] by auto
  let ?t = "\<lparr>th_id = invalid_id, th_attr = Some 32768\<rparr>"
  let ?w1 = "before_timers\<lparr>sw_ev := e1, sw_threads := [1 \<mapsto> ?t], vector_mutex := MutexFree,
    tt_instance := Some 1, tt_objs := [1 \<mapsto> \<lparr>tt_parent = ClientAt 0, tt_timer_id = 3\<rparr>],
    tt_kernel := [3 \<mapsto> False]\<rparr>"
  let ?w2 = "before_timers\<lparr>sw_ev := e2, sw_threads := Map.empty, vector_mutex := MutexNull,
    tt_instance := Some 1\<rparr>"
  have w1: "csThreadTimer_ctor good_pthreads (Inr 3) (ClientAt 0) 1 before_timers = Return () ?w1"
    using e(1) by (simp add: csThreadTimer_ctor_def csThread_ctor_def ev_op_def zoomO_def before_timers_def
        good_pthreads_def CS_THREAD_STACK_SIZE_def set_thread_def)
  have w2: "csThreadTimer_dtor good_pthreads 1 ?w1 = Return () ?w2"
    using e(2) by (simp add: csThreadTimer_dtor_def csThread_Join_def ev_op_def zoomO_def before_timers_def
        good_pthreads_def set_thread_def)
  have "timer_ready good_pthreads 2 ?w2"
    using e(3,4) by (simp add: timer_ready_def good_pthreads_def CS_THREAD_STACK_SIZE_def)
  from timer_thread_once [OF ready w1 w2 this] show ?thesis using w1 w2
    by (auto simp: before_timers_def two_second_timer_def)
qed

end
