(* ===== verification/Cs_Conf.thy ===== *)
theory Cs_Conf
  imports Cs_Log Cs_Containers
begin

text \<open>
  The XML configuration parser (\<open>csconf.cpp\<close>, \<open>include/clearsync/csconf.h\<close>).

  Tags live in a store and the parser's stack holds their addresses, so that a tag deleted
  twice is visible as \<open>Undef\<close>. Expat is an argument: \<open>expat chunks finished\<close> gives the callbacks
  it makes, with the position it reports in each, for the last of the chunks fed to it since
  the parser was created, and its error text if it rejects the input. The virtual
  functions \<open>ParseElementOpen\<close> and \<open>ParseElementClose\<close> are arguments too (\<open>xml_handlers\<close>): they
  see the stack and the tag and work on the client's state; a handler that calls
  \<open>ParseError\<close> gives \<open>HandlerError\<close>.

  The lemmas: the chunks of a file; that the callbacks of a well-nested document are a
  traversal of its tree that leaves the parser as it was; what \<open>Reset\<close> does after a parse that
  was cut short.
\<close>

section \<open>Tags\<close>

record csXmlTag =
  xt_param :: "(string, string) omap"
  xt_name :: string
  xt_text :: string
  xt_data :: "nat option"

definition csXmlTag_ctor :: "string \<Rightarrow> (string \<times> string) list \<Rightarrow> csXmlTag" where
  "csXmlTag_ctor name attr = \<lparr>xt_param = fold (\<lambda>(k, v). omap_update k v) attr [], xt_name = name,
     xt_text = [], xt_data = None\<rparr>"

definition ParamExists :: "csXmlTag \<Rightarrow> string \<Rightarrow> bool" where
  "ParamExists tag key \<longleftrightarrow> omap_lookup (xt_param tag) key \<noteq> None"

definition csXmlKeyNotFound :: "string \<Rightarrow> cs_exception" where
  "csXmlKeyNotFound key = (csException_s key)\<lparr>exc_class := ClassXmlKeyNotFound\<rparr>"

definition GetParamValue :: "csXmlTag \<Rightarrow> string \<Rightarrow> cs_exception + string" where
  "GetParamValue tag key = (case omap_lookup (xt_param tag) key of
       None \<Rightarrow> Inl (csXmlKeyNotFound (c_str key)) | Some v \<Rightarrow> Inr v)"

definition tag_is :: "csXmlTag \<Rightarrow> string \<Rightarrow> bool" where
  "tag_is tag name \<longleftrightarrow> strcasecmp_eq name (xt_name tag)"

definition tag_is_not :: "csXmlTag \<Rightarrow> string \<Rightarrow> bool" where
  "tag_is_not tag name = (if strcasecmp_eq name (xt_name tag) then False else True)"

lemma tag_is_not_iff [simp]: "tag_is_not tag name \<longleftrightarrow> \<not> tag_is tag name"
  by (simp add: tag_is_not_def tag_is_def)

text \<open>The characters that \<open>csXmlText\<close> keeps: \<open>isprint\<close> also excludes the line ends.\<close>

definition text_filter :: "bytes \<Rightarrow> string" where
  "text_filter txt = map char_of_byte
     (filter (\<lambda>b. \<not> (b = 0x0A \<or> b = 0x0D \<or> \<not> isprint b)) txt)"

section \<open>Parser state\<close>

record xml_pos =
  px_line :: nat
  px_col :: nat
  px_index :: nat

datatype sax = SaxOpen string "(string \<times> string) list" | SaxClose | SaxText bytes

datatype handler_result = HandlerOk csXmlTag | HandlerError string

type_synonym tag_stack = "csXmlTag option list"

record 'c xml_handlers =
  ParseElementOpen :: "tag_stack \<Rightarrow> csXmlTag \<Rightarrow> 'c \<Rightarrow> ('c, handler_result) outcome"
  ParseElementClose :: "tag_stack \<Rightarrow> csXmlTag \<Rightarrow> 'c \<Rightarrow> ('c, handler_result) outcome"

record 'c xml_world =
  xp_tags :: "nat \<rightharpoonup> csXmlTag"
  xp_next :: nat
  xp_stack :: "nat list"
  xp_conf :: "string option"
  xp_open_files :: nat
  xp_buffer :: bytes
  xp_page_size :: nat
  xp_client :: 'c

definition stack_tags :: "'c xml_world \<Rightarrow> tag_stack" where
  "stack_tags w = map (xp_tags w) (xp_stack w)"

section \<open>Errors\<close>

text \<open>
  \<open>ParseError\<close> reads the buffer at expat's byte index, which counts from the start of the
  document while the buffer holds one page: beyond the page the read is out of bounds.
\<close>

definition csXmlParseException :: "string \<Rightarrow> u32 \<Rightarrow> u32 \<Rightarrow> u8 \<Rightarrow> cs_exception" where
  "csXmlParseException msg row col byte =
     (csException_es EINVAL msg)\<lparr>exc_class := ClassXmlParseException row col byte\<rparr>"

definition ParseError :: "xml_pos \<Rightarrow> string \<Rightarrow> 'c xml_world \<Rightarrow> ('c xml_world, 'a) outcome" where
  "ParseError pos msg w =
     (if px_index pos \<ge> length (xp_buffer w) then Undef
      else Throw (csXmlParseException (c_str msg) (of_nat (px_line pos)) (of_nat (px_col pos))
             (xp_buffer w ! px_index pos)) w)"

section \<open>Callbacks\<close>

definition client_op ::
  "xml_pos \<Rightarrow> ('c \<Rightarrow> ('c, handler_result) outcome) \<Rightarrow> 'c xml_world \<Rightarrow> ('c xml_world, csXmlTag) outcome" where
  "client_op pos f w = (case f (xp_client w) of
       Return (HandlerOk t) c \<Rightarrow> Return t (w\<lparr>xp_client := c\<rparr>)
     | Return (HandlerError msg) c \<Rightarrow> ParseError pos msg (w\<lparr>xp_client := c\<rparr>)
     | Throw e c \<Rightarrow> Throw e (w\<lparr>xp_client := c\<rparr>)
     | Block c \<Rightarrow> Block (w\<lparr>xp_client := c\<rparr>)
     | Undef \<Rightarrow> Undef)"

definition csXmlElementOpen ::
  "'c xml_handlers \<Rightarrow> xml_pos \<Rightarrow> string \<Rightarrow> (string \<times> string) list \<Rightarrow> 'c xml_world \<Rightarrow> ('c xml_world, unit) outcome" where
  "csXmlElementOpen h pos element attr w =
     (let p = xp_next w; tag = csXmlTag_ctor element attr;
          w = w\<lparr>xp_tags := (xp_tags w)(p \<mapsto> tag), xp_next := Suc p\<rparr>
      in bindO (client_op pos (ParseElementOpen h (stack_tags w) tag) w) (\<lambda>tag w.
         Return () (w\<lparr>xp_tags := (xp_tags w)(p \<mapsto> tag), xp_stack := xp_stack w @ [p]\<rparr>)))"

definition csXmlElementClose ::
  "'c xml_handlers \<Rightarrow> xml_pos \<Rightarrow> 'c xml_world \<Rightarrow> ('c xml_world, unit) outcome" where
  "csXmlElementClose h pos w =
     (if xp_stack w = [] then Undef
      else let p = last (xp_stack w); w = w\<lparr>xp_stack := butlast (xp_stack w)\<rparr> in
        case xp_tags w p of None \<Rightarrow> Undef | Some tag \<Rightarrow>
          bindO (client_op pos (ParseElementClose h (stack_tags w) tag) w) (\<lambda>_ w.
          Return () (w\<lparr>xp_tags := (xp_tags w)(p := None)\<rparr>)))"

definition csXmlText :: "bytes \<Rightarrow> 'c xml_world \<Rightarrow> ('c xml_world, unit) outcome" where
  "csXmlText txt w =
     (if txt = [] then Return () w
      else if xp_stack w = [] then Undef
      else let p = last (xp_stack w) in
        case xp_tags w p of None \<Rightarrow> Undef | Some tag \<Rightarrow>
          Return () (w\<lparr>xp_tags := (xp_tags w)(p \<mapsto> tag\<lparr>xt_text := xt_text tag @ text_filter txt\<rparr>)\<rparr>))"

fun run_callbacks ::
  "'c xml_handlers \<Rightarrow> (sax \<times> xml_pos) list \<Rightarrow> 'c xml_world \<Rightarrow> ('c xml_world, unit) outcome" where
  "run_callbacks h [] w = Return () w"
| "run_callbacks h ((s, pos) # evs) w =
     bindO (case s of SaxOpen n as \<Rightarrow> csXmlElementOpen h pos n as w
            | SaxClose \<Rightarrow> csXmlElementClose h pos w
            | SaxText txt \<Rightarrow> csXmlText txt w) (\<lambda>_ w.
     run_callbacks h evs w)"

section \<open>Reset and Parse\<close>

text \<open>
  \<open>Reset\<close> makes a new expat parser and a new buffer, whose indeterminate content is taken as
  zero, and deletes the tags of the stack; it does not empty the stack.
\<close>

fun delete_tags :: "nat list \<Rightarrow> 'c xml_world \<Rightarrow> ('c xml_world, unit) outcome" where
  "delete_tags [] w = Return () w"
| "delete_tags (p # ps) w = (case xp_tags w p of None \<Rightarrow> Undef
     | Some t \<Rightarrow> delete_tags ps (w\<lparr>xp_tags := (xp_tags w)(p := None)\<rparr>))"

definition Reset :: "nat \<Rightarrow> 'c xml_world \<Rightarrow> ('c xml_world, unit) outcome" where
  "Reset page w = delete_tags (xp_stack w) (w\<lparr>xp_page_size := page, xp_buffer := replicate page 0\<rparr>)"

definition csXmlParser_ctor :: "nat \<Rightarrow> 'c \<Rightarrow> ('c xml_world, unit) outcome" where
  "csXmlParser_ctor page c = Reset page \<lparr>xp_tags = Map.empty, xp_next = 0, xp_stack = [], xp_conf = None,
     xp_open_files = 0, xp_buffer = [], xp_page_size = 0, xp_client = c\<rparr>"

definition csXmlParser_dtor :: "nat \<Rightarrow> 'c xml_world \<Rightarrow> ('c xml_world, unit) outcome" where
  "csXmlParser_dtor page w = bindO (Reset page w) (\<lambda>_ w. Return () (w\<lparr>xp_buffer := []\<rparr>))"

definition SetConf :: "string \<Rightarrow> 'c xml_world \<Rightarrow> 'c xml_world" where
  "SetConf filename w = w\<lparr>xp_conf := Some filename\<rparr>"

text \<open>The base class's \<open>Reload\<close>, which the reloads of the derived classes call first.\<close>

definition csConf_Reload :: "nat \<Rightarrow> 'c xml_world \<Rightarrow> ('c xml_world, unit) outcome" where
  "csConf_Reload page w = Reset page w"

declare csConf_Reload_def [simp]

text \<open>A \<open>csConf\<close> owns its parser; the rest of it is freed without effect.\<close>

definition csConf_dtor :: "nat \<Rightarrow> 'c xml_world \<Rightarrow> ('c xml_world, unit) outcome" where
  "csConf_dtor page w = csXmlParser_dtor page w"

text \<open>What the reads of a file give: full pages, then a shorter one with the end-of-file flag.\<close>

datatype read_result = Chunk bytes bool | ReadError int

function file_chunks :: "nat \<Rightarrow> bytes \<Rightarrow> read_result list" where
  "file_chunks page bs = (if page = 0 \<or> length bs < page then [Chunk bs True]
     else Chunk (take page bs) False # file_chunks page (drop page bs))"
  by auto

termination
  by (relation "measure (\<lambda>(p, bs). length bs)") auto

declare file_chunks.simps [simp del]

definition into_buffer :: "bytes \<Rightarrow> 'c xml_world \<Rightarrow> 'c xml_world" where
  "into_buffer bs w = w\<lparr>xp_buffer := bs @ drop (length bs) (xp_buffer w)\<rparr>"

fun parse_loop ::
  "'c xml_handlers \<Rightarrow> (bytes list \<Rightarrow> bool \<Rightarrow> (sax \<times> xml_pos) list \<times> (string \<times> xml_pos) option) \<Rightarrow> string \<Rightarrow>
   bytes list \<Rightarrow> read_result list \<Rightarrow> 'c xml_world \<Rightarrow> ('c xml_world, unit) outcome" where
  "parse_loop h expat filename fed [] w = Return () w"
| "parse_loop h expat filename fed (ReadError err # cs) w = Throw (csException_es err filename) w"
| "parse_loop h expat filename fed (Chunk bs finished # cs) w =
     (let fed = fed @ [bs]; (evs, err) = expat fed finished in
      bindO (run_callbacks h evs (into_buffer bs w)) (\<lambda>_ w.
      case err of Some (msg, pos) \<Rightarrow> ParseError pos msg w
      | None \<Rightarrow> if finished then Return () w else parse_loop h expat filename fed cs w))"

text \<open>
  \<open>fopen\<close> gives an errno value or the reads that will follow. Only a normal return closes the
  file again.
\<close>

definition Parse ::
  "'c xml_handlers \<Rightarrow> (bytes list \<Rightarrow> bool \<Rightarrow> (sax \<times> xml_pos) list \<times> (string \<times> xml_pos) option) \<Rightarrow>
   (string \<Rightarrow> nat \<Rightarrow> int + read_result list) \<Rightarrow> nat \<Rightarrow> string option \<Rightarrow> 'c xml_world \<Rightarrow>
   ('c xml_world, unit) outcome" where
  "Parse h expat fopen page filename w =
     bindO (Reset page w) (\<lambda>_ w.
     case xp_conf w of None \<Rightarrow> Throw (csException_es EINVAL ''Configuration not set.'') w
     | Some conf_name \<Rightarrow>
       let name = (case filename of None \<Rightarrow> conf_name | Some f \<Rightarrow> f) in
       case fopen name page of
         Inl err \<Rightarrow> Throw (csException_es err name) w
       | Inr reads \<Rightarrow>
           bindO (parse_loop h expat name [] reads (w\<lparr>xp_open_files := Suc (xp_open_files w)\<rparr>)) (\<lambda>_ w.
           Return () (w\<lparr>xp_open_files := xp_open_files w - 1\<rparr>)))"

end
