(* ===== verification/Cs_Conf_Properties.thy ===== *)
theory Cs_Conf_Properties
  imports Cs_Conf
begin

text \<open>
  What the configuration parser does on a well-formed document, and what happens after a
  document that is not: the callbacks traverse the element tree; a parse that was cut short
  leaves tags on the stack, which the next two resets delete twice; an error beyond the
  first page makes the error report itself read out of bounds.
\<close>

section \<open>Documents\<close>

datatype xnode = XText bytes | XElem string "(string \<times> string) list" "xnode list"

fun node_events :: "xnode \<Rightarrow> sax list" and nodes_events :: "xnode list \<Rightarrow> sax list" where
  "node_events (XText t) = [SaxText t]"
| "node_events (XElem n as ns) = SaxOpen n as # nodes_events ns @ [SaxClose]"
| "nodes_events [] = []"
| "nodes_events (x # xs) = node_events x @ nodes_events xs"

text \<open>
  The traversal that a configuration is meant to get: the open handler, the content, the close
  handler with the collected text. The stack is the list of the enclosing tags, innermost
  last; the result is that stack, in which only the innermost text can have grown, and the
  client's state; \<open>None\<close> when a handler does not return normally.
\<close>

fun visit_node :: "'c xml_handlers \<Rightarrow> csXmlTag list \<Rightarrow> xnode \<Rightarrow> 'c \<Rightarrow> (csXmlTag list \<times> 'c) option"
and visit_nodes :: "'c xml_handlers \<Rightarrow> csXmlTag list \<Rightarrow> xnode list \<Rightarrow> 'c \<Rightarrow> (csXmlTag list \<times> 'c) option" where
  "visit_node h stk (XText t) c =
     (if t = [] then Some (stk, c) else if stk = [] then None
      else Some (butlast stk @ [last stk\<lparr>xt_text := xt_text (last stk) @ text_filter t\<rparr>], c))"
| "visit_node h stk (XElem n as ns) c =
     (case ParseElementOpen h (map Some stk) (csXmlTag_ctor n as) c of
        Return (HandlerOk tag) c \<Rightarrow> (case visit_nodes h (stk @ [tag]) ns c of
            None \<Rightarrow> None
          | Some (stk', c) \<Rightarrow> (case ParseElementClose h (map Some (butlast stk')) (last stk') c of
                Return (HandlerOk _) c \<Rightarrow> Some (butlast stk', c) | _ \<Rightarrow> None))
      | _ \<Rightarrow> None)"
| "visit_nodes h stk [] c = Some (stk, c)"
| "visit_nodes h stk (x # xs) c = (case visit_node h stk x c of None \<Rightarrow> None
     | Some (stk, c) \<Rightarrow> visit_nodes h stk xs c)"

section \<open>Callbacks as a traversal\<close>

definition xml_ok :: "'c xml_world \<Rightarrow> bool" where
  "xml_ok w \<longleftrightarrow> distinct (xp_stack w) \<and> set (xp_stack w) \<subseteq> dom (xp_tags w) \<and>
     (\<forall>p \<in> dom (xp_tags w). p < xp_next w)"

text \<open>\<open>traversed w stk c w'\<close>: same parser, the stack's tags are now \<open>stk\<close>, the client \<open>c\<close>.\<close>

definition traversed :: "'c xml_world \<Rightarrow> csXmlTag list \<Rightarrow> 'c \<Rightarrow> 'c xml_world \<Rightarrow> bool" where
  "traversed w stk c w' \<longleftrightarrow> xml_ok w' \<and> xp_stack w' = xp_stack w \<and> stack_tags w' = map Some stk \<and>
     xp_client w' = c \<and> xp_conf w' = xp_conf w \<and> xp_open_files w' = xp_open_files w \<and>
     xp_buffer w' = xp_buffer w \<and> xp_page_size w' = xp_page_size w \<and>
     (\<forall>p. p \<notin> set (xp_stack w) \<longrightarrow> xp_tags w' p = xp_tags w p)"

lemma traversed_trans:
  "traversed w s1 c1 w1 \<Longrightarrow> traversed w1 s2 c2 w2 \<Longrightarrow> traversed w s2 c2 w2"
  by (simp add: traversed_def)

lemma run_callbacks_append:
  "run_callbacks h (a @ b) w = bindO (run_callbacks h a w) (\<lambda>_. run_callbacks h b)"
proof (induction a arbitrary: w)
  case (Cons x a)
  then show ?case by (cases x) (auto simp: bindO_assoc Cons.IH intro!: bindO_cong_Return)
qed simp

lemma stack_tags_last:
  assumes "stack_tags w = map Some stk" "stk \<noteq> []"
  shows "xp_stack w \<noteq> []" "xp_tags w (last (xp_stack w)) = Some (last stk)" "length (xp_stack w) = length stk"
proof -
  show l: "length (xp_stack w) = length stk"
    using assms(1) by (simp add: stack_tags_def) (metis length_map)
  show ne: "xp_stack w \<noteq> []" using l assms(2) by auto
  have "last (map (xp_tags w) (xp_stack w)) = last (map Some stk)" using assms(1) by (simp add: stack_tags_def)
  then show "xp_tags w (last (xp_stack w)) = Some (last stk)" using ne assms(2) by (simp add: last_map)
qed

lemma text_traversed:
  assumes ok: "xml_ok w" and st: "stack_tags w = map Some stk" "stk \<noteq> []" and t: "t \<noteq> []"
  shows "\<exists>w'. csXmlText t w = Return () w' \<and>
    traversed w (butlast stk @ [last stk\<lparr>xt_text := xt_text (last stk) @ text_filter t\<rparr>]) (xp_client w) w'"
proof -
  note l = stack_tags_last [OF st]
  let ?p = "last (xp_stack w)" and ?t = "last stk\<lparr>xt_text := xt_text (last stk) @ text_filter t\<rparr>"
  let ?w = "w\<lparr>xp_tags := (xp_tags w)(?p \<mapsto> ?t)\<rparr>"
  have run: "csXmlText t w = Return () ?w" using t l by (simp add: csXmlText_def Let_def)
  have sp: "xp_stack w = butlast (xp_stack w) @ [?p]" using l(1) by simp
  have "?p \<notin> set (butlast (xp_stack w))" using ok sp unfolding xml_ok_def
    by (metis distinct.simps(2) distinct_append not_distinct_conv_prefix)
  then have "map ((xp_tags w)(?p \<mapsto> ?t)) (butlast (xp_stack w)) = map (xp_tags w) (butlast (xp_stack w))"
    by (auto simp: map_fun_upd)
  also have "\<dots> = map Some (butlast stk)"
    using arg_cong [OF st(1) [unfolded stack_tags_def], of butlast] by (simp add: map_butlast)
  finally have "stack_tags ?w = map Some (butlast stk @ [?t])"
    using arg_cong [OF sp, of "map ((xp_tags w)(?p \<mapsto> ?t))"] unfolding map_append list.map stack_tags_def by simp
  moreover have "xml_ok ?w" using ok l(1,2) unfolding xml_ok_def by auto
  moreover have "?p \<in> set (xp_stack w)" using l(1) by simp
  ultimately show ?thesis using run by (auto simp: traversed_def)
qed

lemma open_pushed:
  assumes ok: "xml_ok w" and st: "stack_tags w = map Some stk"
    and h: "ParseElementOpen h (map Some stk) (csXmlTag_ctor n as) (xp_client w) = Return (HandlerOk tag) c"
  shows "\<exists>w'. csXmlElementOpen h pos n as w = Return () w' \<and> xml_ok w' \<and>
    xp_stack w' = xp_stack w @ [xp_next w] \<and> stack_tags w' = map Some (stk @ [tag]) \<and> xp_client w' = c \<and>
    xp_conf w' = xp_conf w \<and> xp_open_files w' = xp_open_files w \<and> xp_buffer w' = xp_buffer w \<and>
    xp_page_size w' = xp_page_size w \<and> (\<forall>p. p \<noteq> xp_next w \<longrightarrow> xp_tags w' p = xp_tags w p)"
proof -
  let ?p = "xp_next w"
  have fresh: "?p \<notin> set (xp_stack w)" "?p \<notin> dom (xp_tags w)" using ok unfolding xml_ok_def by auto
  have same: "map ((xp_tags w)(?p \<mapsto> t)) (xp_stack w) = map Some stk" for t
    using st fresh(1) by (auto simp: stack_tags_def map_fun_upd)
  show ?thesis using ok fresh same h
    by (auto simp: csXmlElementOpen_def Let_def client_op_def stack_tags_def xml_ok_def less_Suc_eq)
qed

lemma close_popped:
  assumes ok: "xml_ok w" and st: "stack_tags w = map Some stk" "stk \<noteq> []"
    and h: "ParseElementClose h (map Some (butlast stk)) (last stk) (xp_client w) = Return (HandlerOk t) c"
  shows "\<exists>w'. csXmlElementClose h pos w = Return () w' \<and> xml_ok w' \<and>
    xp_stack w' = butlast (xp_stack w) \<and> stack_tags w' = map Some (butlast stk) \<and> xp_client w' = c \<and>
    xp_conf w' = xp_conf w \<and> xp_open_files w' = xp_open_files w \<and> xp_buffer w' = xp_buffer w \<and>
    xp_page_size w' = xp_page_size w \<and> xp_tags w' = (xp_tags w)(last (xp_stack w) := None)"
proof -
  note l = stack_tags_last [OF st]
  let ?p = "last (xp_stack w)"
  have sp: "xp_stack w = butlast (xp_stack w) @ [?p]" using l(1) by simp
  have d: "distinct (butlast (xp_stack w))" "?p \<notin> set (butlast (xp_stack w))"
    using ok sp unfolding xml_ok_def by (metis distinct_append not_distinct_conv_prefix)+
  have sub: "set (butlast (xp_stack w)) \<subseteq> dom (xp_tags w)"
    using ok unfolding xml_ok_def by (auto dest: in_set_butlastD)
  have tags: "map (xp_tags w) (butlast (xp_stack w)) = map Some (butlast stk)"
    using arg_cong [OF st(1) [unfolded stack_tags_def], of butlast] by (simp add: map_butlast)
  then have tags': "map ((xp_tags w)(?p := None)) (butlast (xp_stack w)) = map Some (butlast stk)"
    using d(2) by (simp add: map_fun_upd)
  show ?thesis
    using l h d sub tags tags' ok
    by (auto simp: csXmlElementClose_def Let_def client_op_def stack_tags_def xml_ok_def)
qed

lemma visit_traversed:
  fixes h :: "'c xml_handlers"
  shows "visit_node h stk x c = Some (stk', c') \<Longrightarrow> xml_ok w \<Longrightarrow> stack_tags w = map Some stk \<Longrightarrow>
      xp_client w = c \<Longrightarrow> map fst evs = node_events x \<Longrightarrow>
      \<exists>w'. run_callbacks h evs w = Return () w' \<and> traversed w stk' c' w'"
    and "visit_nodes h stk xs c = Some (stk', c') \<Longrightarrow> xml_ok w \<Longrightarrow> stack_tags w = map Some stk \<Longrightarrow>
      xp_client w = c \<Longrightarrow> map fst evs = nodes_events xs \<Longrightarrow>
      \<exists>w'. run_callbacks h evs w = Return () w' \<and> traversed w stk' c' w'"
proof (induction h stk x c and h stk xs c arbitrary: stk' c' w evs and stk' c' w evs
    rule: visit_node_visit_nodes.induct)
  case (1 h stk t c)
  obtain pos where evs: "evs = [(SaxText t, pos)]" using "1.prems"(5) by (cases evs) auto
  show ?case
  proof (cases "t = []")
    case True
    then show ?thesis using 1 evs by (auto simp: csXmlText_def traversed_def)
  next
    case False
    then have "stk \<noteq> []" using "1.prems"(1) by auto
    then show ?thesis using text_traversed [OF "1.prems"(2,3) _ False] 1 False evs
      by (auto split: if_splits)
  qed
next
  case (2 h stk n as ns c)
  obtain tag c1 where o: "ParseElementOpen h (map Some stk) (csXmlTag_ctor n as) c = Return (HandlerOk tag) c1"
    using "2.prems"(1) by (auto split: outcome.splits handler_result.splits)
  obtain stk2 c2 where v: "visit_nodes h (stk @ [tag]) ns c1 = Some (stk2, c2)"
    using "2.prems"(1) o by (auto split: option.splits)
  obtain t where cl: "ParseElementClose h (map Some (butlast stk2)) (last stk2) c2 = Return (HandlerOk t) c'"
    and stk': "stk' = butlast stk2"
    using "2.prems"(1) o v by (auto split: outcome.splits handler_result.splits)
  obtain p1 mid p2 where evs: "evs = (SaxOpen n as, p1) # mid @ [(SaxClose, p2)]" "map fst mid = nodes_events ns"
    using "2.prems"(5) by (auto simp: map_eq_Cons_conv map_eq_append_conv)
  obtain w1 where w1: "csXmlElementOpen h p1 n as w = Return () w1" "xml_ok w1"
    "xp_stack w1 = xp_stack w @ [xp_next w]" "stack_tags w1 = map Some (stk @ [tag])" "xp_client w1 = c1"
    "xp_conf w1 = xp_conf w" "xp_open_files w1 = xp_open_files w" "xp_buffer w1 = xp_buffer w"
    "xp_page_size w1 = xp_page_size w" "\<forall>p. p \<noteq> xp_next w \<longrightarrow> xp_tags w1 p = xp_tags w p"
    using open_pushed [OF "2.prems"(2,3), of h n as tag c1 p1] o "2.prems"(4) by blast
  obtain w2 where w2: "run_callbacks h mid w1 = Return () w2" "traversed w1 stk2 c2 w2"
    using "2.IH" [OF o refl v w1(2,4,5) evs(2)] by blast
  have ok2: "xml_ok w2" "stack_tags w2 = map Some stk2" "xp_client w2 = c2" "xp_stack w2 = xp_stack w @ [xp_next w]"
    using w2(2) w1(3) by (simp_all add: traversed_def)
  have "stk2 \<noteq> []" using ok2(2,4) by (auto simp: stack_tags_def)
  from close_popped [OF ok2(1,2) this, of h t c' p2] cl ok2(3) obtain w3 where
    w3: "csXmlElementClose h p2 w2 = Return () w3" "xml_ok w3" "xp_stack w3 = butlast (xp_stack w2)"
    "stack_tags w3 = map Some (butlast stk2)" "xp_client w3 = c'" "xp_conf w3 = xp_conf w2"
    "xp_open_files w3 = xp_open_files w2" "xp_buffer w3 = xp_buffer w2" "xp_page_size w3 = xp_page_size w2"
    "xp_tags w3 = (xp_tags w2)(last (xp_stack w2) := None)" by auto
  have "xp_tags w (xp_next w) = None" using "2.prems"(2) by (auto simp: xml_ok_def)
  then have "xp_tags w3 p = xp_tags w p" if "p \<notin> set (xp_stack w)" for p
    using that w2(2) w1(3,10) ok2(4) by (simp add: w3(10) traversed_def)
  then have "traversed w stk' c' w3"
    using w1 w2(2) w3 ok2(4) stk' by (simp add: traversed_def)
  then show ?case using evs(1) w1(1) w2(1) w3(1) by (auto simp: run_callbacks_append)
next
  case (3 h stk c)
  then show ?case by (auto simp: traversed_def)
next
  case (4 h stk x xs c)
  obtain stk1 c1 where v: "visit_node h stk x c = Some (stk1, c1)" "visit_nodes h stk1 xs c1 = Some (stk', c')"
    using "4.prems"(1) by (auto split: option.splits)
  obtain e1 e2 where evs: "evs = e1 @ e2" "map fst e1 = node_events x" "map fst e2 = nodes_events xs"
    using "4.prems"(5) by (auto simp: map_eq_append_conv)
  obtain w1 where w1: "run_callbacks h e1 w = Return () w1" "traversed w stk1 c1 w1"
    using "4.IH"(1) [OF v(1) "4.prems"(2-4) evs(2)] by blast
  obtain w2 where "run_callbacks h e2 w1 = Return () w2" "traversed w1 stk' c' w2"
    using "4.IH"(2) [OF v(1) refl v(2) _ _ _ evs(3), of w1] w1(2) by (auto simp: traversed_def)
  then show ?case using w1 evs(1) traversed_trans by (fastforce simp: run_callbacks_append)
qed

section \<open>Whole files\<close>

text \<open>Updates of the buffer are written last.\<close>

lemma buffer_last:
  "w\<lparr>xp_buffer := b, xp_tags := t\<rparr> = w\<lparr>xp_tags := t, xp_buffer := b\<rparr>"
  "w\<lparr>xp_buffer := b, xp_next := n\<rparr> = w\<lparr>xp_next := n, xp_buffer := b\<rparr>"
  "w\<lparr>xp_buffer := b, xp_stack := s\<rparr> = w\<lparr>xp_stack := s, xp_buffer := b\<rparr>"
  "w\<lparr>xp_buffer := b, xp_open_files := n\<rparr> = w\<lparr>xp_open_files := n, xp_buffer := b\<rparr>"
  "w\<lparr>xp_buffer := b, xp_client := c\<rparr> = w\<lparr>xp_client := c, xp_buffer := b\<rparr>"
  by (cases w, simp)+

lemma client_op_buffer:
  "client_op pos f w = Return t v \<Longrightarrow> client_op pos' f (w\<lparr>xp_buffer := b\<rparr>) = Return t (v\<lparr>xp_buffer := b\<rparr>)"
  by (auto simp: client_op_def ParseError_def buffer_last split: outcome.splits handler_result.splits if_splits)

lemma callback_buffer:
  "csXmlElementOpen h pos n as w = Return () v \<Longrightarrow>
     csXmlElementOpen h pos n as (w\<lparr>xp_buffer := b\<rparr>) = Return () (v\<lparr>xp_buffer := b\<rparr>)"
  "csXmlElementClose h pos w = Return () v \<Longrightarrow>
     csXmlElementClose h pos (w\<lparr>xp_buffer := b\<rparr>) = Return () (v\<lparr>xp_buffer := b\<rparr>)"
  "csXmlText t w = Return () v \<Longrightarrow> csXmlText t (w\<lparr>xp_buffer := b\<rparr>) = Return () (v\<lparr>xp_buffer := b\<rparr>)"
proof -
  assume "csXmlElementOpen h pos n as w = Return () v"
  then obtain t u where "client_op pos (ParseElementOpen h (stack_tags (w\<lparr>xp_tags := (xp_tags w)(xp_next w \<mapsto>
      csXmlTag_ctor n as), xp_next := Suc (xp_next w)\<rparr>)) (csXmlTag_ctor n as)) (w\<lparr>xp_tags := (xp_tags w)(xp_next w \<mapsto>
      csXmlTag_ctor n as), xp_next := Suc (xp_next w)\<rparr>) = Return t u"
    "v = u\<lparr>xp_tags := (xp_tags u)(xp_next w \<mapsto> t), xp_stack := xp_stack u @ [xp_next w]\<rparr>"
    by (auto simp: csXmlElementOpen_def Let_def bindO_Return_iff)
  then show "csXmlElementOpen h pos n as (w\<lparr>xp_buffer := b\<rparr>) = Return () (v\<lparr>xp_buffer := b\<rparr>)"
    using client_op_buffer [of pos _ _ t u pos b]
    by (simp add: csXmlElementOpen_def Let_def stack_tags_def buffer_last)
next
  assume a: "csXmlElementClose h pos w = Return () v"
  then obtain tag where t: "xp_stack w \<noteq> []" "xp_tags w (last (xp_stack w)) = Some tag"
    by (auto simp: csXmlElementClose_def Let_def split: if_splits option.splits)
  obtain t' u where "client_op pos (ParseElementClose h (map (xp_tags w) (butlast (xp_stack w))) tag)
      (w\<lparr>xp_stack := butlast (xp_stack w)\<rparr>) = Return t' u"
    "v = u\<lparr>xp_tags := (xp_tags u)(last (xp_stack w) := None)\<rparr>"
    using a t by (auto simp: csXmlElementClose_def Let_def bindO_Return_iff stack_tags_def)
  then show "csXmlElementClose h pos (w\<lparr>xp_buffer := b\<rparr>) = Return () (v\<lparr>xp_buffer := b\<rparr>)"
    using client_op_buffer [of pos _ _ t' u pos b] t
    by (simp add: csXmlElementClose_def Let_def stack_tags_def buffer_last)
next
  assume "csXmlText t w = Return () v"
  then show "csXmlText t (w\<lparr>xp_buffer := b\<rparr>) = Return () (v\<lparr>xp_buffer := b\<rparr>)"
    by (auto simp: csXmlText_def Let_def buffer_last split: if_splits option.splits)
qed

lemma run_callbacks_any_buffer:
  "run_callbacks h evs w = Return () v \<Longrightarrow> run_callbacks h evs (w\<lparr>xp_buffer := b\<rparr>) = Return () (v\<lparr>xp_buffer := b\<rparr>)"
proof (induction evs arbitrary: w)
  case (Cons e evs)
  obtain s pos where e: "e = (s, pos)" by (cases e)
  from Cons.prems e obtain u where u: "(case s of SaxOpen n as \<Rightarrow> csXmlElementOpen h pos n as w
      | SaxClose \<Rightarrow> csXmlElementClose h pos w | SaxText txt \<Rightarrow> csXmlText txt w) = Return () u"
    "run_callbacks h evs u = Return () v"
    by (auto simp: bindO_Return_iff)
  have "(case s of SaxOpen n as \<Rightarrow> csXmlElementOpen h pos n as (w\<lparr>xp_buffer := b\<rparr>)
      | SaxClose \<Rightarrow> csXmlElementClose h pos (w\<lparr>xp_buffer := b\<rparr>)
      | SaxText txt \<Rightarrow> csXmlText txt (w\<lparr>xp_buffer := b\<rparr>)) = Return () (u\<lparr>xp_buffer := b\<rparr>)"
    using u(1) by (cases s) (simp_all add: callback_buffer)
  with Cons.IH [OF u(2)] show ?case using e by simp
qed simp

text \<open>
  The callbacks that expat makes for a sequence of reads, when it accepts all of them and the
  last one is marked as the end.
\<close>

fun expat_events ::
  "(bytes list \<Rightarrow> bool \<Rightarrow> (sax \<times> xml_pos) list \<times> (string \<times> xml_pos) option) \<Rightarrow> bytes list \<Rightarrow>
   read_result list \<Rightarrow> (sax \<times> xml_pos) list option" where
  "expat_events expat fed [] = None"
| "expat_events expat fed (ReadError e # cs) = None"
| "expat_events expat fed (Chunk bs finished # cs) = (case expat (fed @ [bs]) finished of
       (evs, Some err) \<Rightarrow> None
     | (evs, None) \<Rightarrow> if finished then Some evs else map_option ((@) evs) (expat_events expat (fed @ [bs]) cs))"

lemma parse_loop_callbacks:
  assumes "expat_events expat fed reads = Some evs" "run_callbacks h evs w = Return () v"
  shows "\<exists>b. parse_loop h expat name fed reads w = Return () (v\<lparr>xp_buffer := b\<rparr>)"
  using assms
proof (induction reads arbitrary: fed evs w v)
  case (Cons r reads)
  then obtain bs fin where r: "r = Chunk bs fin" by (cases r) auto
  obtain e1 where e1: "expat (fed @ [bs]) fin = (e1, None)"
    using Cons.prems(1) r by (auto split: prod.splits option.splits)
  let ?b = "bs @ drop (length bs) (xp_buffer w)"
  show ?case
  proof (cases fin)
    case True
    then show ?thesis using Cons.prems e1 r run_callbacks_any_buffer [of h evs w v ?b]
      by (auto simp: into_buffer_def)
  next
    case False
    then obtain e2 where e2: "expat_events expat (fed @ [bs]) reads = Some e2" "evs = e1 @ e2"
      using Cons.prems(1) e1 r by auto
    obtain u where u: "run_callbacks h e1 w = Return () u" "run_callbacks h e2 u = Return () v"
      using Cons.prems(2) e2(2) by (auto simp: run_callbacks_append bindO_Return_iff)
    note u1 = run_callbacks_any_buffer [OF u(1), of ?b] and u2 = run_callbacks_any_buffer [OF u(2), of ?b]
    from Cons.IH [OF e2(1) u2] show ?thesis using e1 r False u1 by (auto simp: into_buffer_def)
  qed
qed simp

section \<open>What a client of the parser keeps\<close>

text \<open>
  The contract between the parser and a class derived from it: both handlers keep a property
  of the client's state, on a normal return as well as with an exception. Then so does
  every parse, whatever the file and whatever expat says about it.
\<close>

locale conf_client =
  fixes h :: "'c xml_handlers" and keep :: "'c \<Rightarrow> bool"
  assumes open_keeps: "keep c \<Longrightarrow> run_state (ParseElementOpen h stk tag c) = Some c' \<Longrightarrow> keep c'"
    and close_keeps: "keep c \<Longrightarrow> run_state (ParseElementClose h stk tag c) = Some c' \<Longrightarrow> keep c'"
begin

lemma ParseError_keeps: "run_state (ParseError pos msg w) = Some w' \<Longrightarrow> xp_client w' = xp_client w"
  by (auto simp: ParseError_def split: if_splits)

lemma client_op_keeps:
  assumes "keep (xp_client w)" "run_state (client_op pos f w) = Some w'"
    "\<And>c'. run_state (f (xp_client w)) = Some c' \<Longrightarrow> keep c'"
  shows "keep (xp_client w')"
  using assms ParseError_keeps
  by (fastforce simp: client_op_def split: outcome.splits handler_result.splits)

lemma callback_keeps:
  assumes "keep (xp_client w)"
  shows "run_state (csXmlElementOpen h pos n as w) = Some w' \<Longrightarrow> keep (xp_client w')"
    "run_state (csXmlElementClose h pos w) = Some w' \<Longrightarrow> keep (xp_client w')"
    "run_state (csXmlText t w) = Some w' \<Longrightarrow> keep (xp_client w')"
proof -
  let ?u = "w\<lparr>xp_tags := (xp_tags w)(xp_next w \<mapsto> csXmlTag_ctor n as), xp_next := Suc (xp_next w)\<rparr>"
  have op: "keep (xp_client v)" if "run_state (client_op pos (ParseElementOpen h stk tag) ?u) = Some v" for stk tag v
    using client_op_keeps [OF _ that] open_keeps assms by simp
  show "keep (xp_client w')" if a: "run_state (csXmlElementOpen h pos n as w) = Some w'"
  proof -
    let ?m = "client_op pos (ParseElementOpen h (stack_tags ?u) (csXmlTag_ctor n as)) ?u"
    obtain v where "run_state ?m = Some v" "xp_client w' = xp_client v"
      using a by (cases ?m) (auto simp: csXmlElementOpen_def Let_def)
    then show ?thesis using op by simp
  qed
  let ?u = "w\<lparr>xp_stack := butlast (xp_stack w)\<rparr>"
  have cl: "keep (xp_client v)" if "run_state (client_op pos (ParseElementClose h stk tag) ?u) = Some v" for stk tag v
    using client_op_keeps [OF _ that] close_keeps assms by simp
  show "keep (xp_client w')" if a: "run_state (csXmlElementClose h pos w) = Some w'"
  proof -
    obtain tag where t: "xp_stack w \<noteq> []" "xp_tags w (last (xp_stack w)) = Some tag"
      using a by (auto simp: csXmlElementClose_def Let_def split: if_splits option.splits)
    let ?m = "client_op pos (ParseElementClose h (stack_tags ?u) tag) ?u"
    obtain v where "run_state ?m = Some v" "xp_client w' = xp_client v"
      using a t by (cases ?m) (auto simp: csXmlElementClose_def Let_def)
    then show ?thesis using cl by simp
  qed
  show "run_state (csXmlText t w) = Some w' \<Longrightarrow> keep (xp_client w')"
    using assms by (auto simp: csXmlText_def Let_def split: if_splits option.splits)
qed

lemma run_callbacks_keeps:
  "keep (xp_client w) \<Longrightarrow> run_state (run_callbacks h evs w) = Some w' \<Longrightarrow> keep (xp_client w')"
proof (induction evs arbitrary: w)
  case (Cons e evs)
  obtain s pos where e: "e = (s, pos)" by (cases e)
  let ?r = "case s of SaxOpen n as \<Rightarrow> csXmlElementOpen h pos n as w | SaxClose \<Rightarrow> csXmlElementClose h pos w
    | SaxText txt \<Rightarrow> csXmlText txt w"
  have r: "keep (xp_client v)" if "run_state ?r = Some v" for v
    using that callback_keeps [OF Cons.prems(1)] by (auto split: sax.splits)
  show ?case using Cons.prems(2) r Cons.IH e by (cases ?r) auto
qed simp

lemma parse_loop_keeps:
  "keep (xp_client w) \<Longrightarrow> run_state (parse_loop h expat name fed cs w) = Some w' \<Longrightarrow> keep (xp_client w')"
proof (induction cs arbitrary: fed w)
  case (Cons c cs)
  show ?case
  proof (cases c)
    case (Chunk bs fin)
    obtain evs err where x: "expat (fed @ [bs]) fin = (evs, err)" by fastforce
    let ?w = "into_buffer bs w"
    have r: "keep (xp_client v)" if "run_state (run_callbacks h evs ?w) = Some v" for v
      using run_callbacks_keeps [OF _ that] Cons.prems(1) by (simp add: into_buffer_def)
    show ?thesis
    proof (cases "run_callbacks h evs ?w")
      case (Return u v)
      then have v: "keep (xp_client v)" using r by simp
      show ?thesis
      proof (cases err)
        case (Some mp)
        then have "run_state (ParseError (snd mp) (fst mp) v :: (_, unit) outcome) = Some w'"
          using Cons.prems(2) Chunk x Return by (cases mp) simp
        from ParseError_keeps [OF this] v show ?thesis by simp
      qed (use Cons v Chunk x Return in \<open>auto split: if_splits\<close>)
    qed (use Cons.prems Chunk x r in auto)
  qed (use Cons.prems in auto)
qed simp

lemma Reset_client: "run_state (Reset page w) = Some w' \<Longrightarrow> xp_client w' = xp_client w"
proof -
  have "run_state (delete_tags ps v) = Some w' \<Longrightarrow> xp_client w' = xp_client v" for ps v
    by (induction ps arbitrary: v) (auto split: option.splits)
  then show "run_state (Reset page w) = Some w' \<Longrightarrow> xp_client w' = xp_client w" by (fastforce simp: Reset_def)
qed

lemma Parse_keeps:
  assumes "keep (xp_client w)" "run_state (Parse h expat fopen page f w) = Some w'"
  shows "keep (xp_client w')"
proof (cases "Reset page w")
  case (Return u v)
  then have v: "xp_client v = xp_client w" using Reset_client [of page w v] by simp
  show ?thesis
  proof (cases "xp_conf v")
    case None
    then show ?thesis using assms Return v by (auto simp: Parse_def)
  next
    case (Some name)
    define path where "path = (case f of None \<Rightarrow> name | Some g \<Rightarrow> g)"
    show ?thesis
    proof (cases "fopen path page")
      case (Inl e)
      then show ?thesis using assms Return v Some by (auto simp: Parse_def Let_def path_def)
    next
      case (Inr reads)
      let ?m = "parse_loop h expat path [] reads (v\<lparr>xp_open_files := Suc (xp_open_files v)\<rparr>)"
      obtain z where "run_state ?m = Some z" "xp_client w' = xp_client z"
        using assms(2) Return Some Inr by (cases ?m) (auto simp: Parse_def Let_def path_def)
      then show ?thesis using parse_loop_keeps [of "v\<lparr>xp_open_files := Suc (xp_open_files v)\<rparr>"] assms(1) v by simp
    qed
  qed
qed (use assms Reset_client [of page w w'] in \<open>auto simp: Parse_def\<close>)

end

section \<open>Properties\<close>

lemma Reset_empty:
  "xp_stack w = [] \<Longrightarrow> Reset page w = Return () (w\<lparr>xp_page_size := page, xp_buffer := replicate page 0\<rparr>)"
  by (simp add: Reset_def)

lemma Parse_document:
  assumes "xml_ok w" "xp_stack w = []" "xp_conf w = Some name" "fopen name page = Inr reads"
    "expat_events expat [] reads = Some evs" "map fst evs = node_events (XElem n as ns)"
    "visit_node h [] (XElem n as ns) (xp_client w) = Some ([], c)"
  shows "\<exists>w'. Parse h expat fopen page None w = Return () w' \<and> xp_client w' = c \<and> xp_stack w' = [] \<and>
    xp_tags w' = xp_tags w \<and> xp_open_files w' = xp_open_files w \<and> xml_ok w'"
proof -
  let ?w = "w\<lparr>xp_page_size := page, xp_buffer := replicate page 0, xp_open_files := Suc (xp_open_files w)\<rparr>"
  have ok: "xml_ok ?w" "stack_tags ?w = map Some []" "xp_client ?w = xp_client w"
    using assms(1,2) by (simp_all add: xml_ok_def stack_tags_def)
  obtain v where v: "run_callbacks h evs ?w = Return () v" "traversed ?w [] c v"
    using visit_traversed(1) [OF assms(7) ok assms(6)] by blast
  obtain b where b: "parse_loop h expat name [] reads ?w = Return () (v\<lparr>xp_buffer := b\<rparr>)"
    using parse_loop_callbacks [OF assms(5) v(1)] by blast
  let ?v = "v\<lparr>xp_buffer := b, xp_open_files := xp_open_files v - 1\<rparr>"
  have "Parse h expat fopen page None w = Return () ?v"
    using assms(2-4) b by (simp add: Parse_def Reset_empty)
  moreover have "xp_tags v = xp_tags w" using v(2) assms(2) by (auto simp: traversed_def)
  ultimately show ?thesis using v(2) assms(2) by (auto simp: traversed_def xml_ok_def)
qed

text \<open>
  C9. Parsing a well-formed configuration. If expat accepts the file and reports the elements
  of a document, in whatever pieces the reads deliver it, then \<open>Parse\<close> has exactly the effect
  of the recursive traversal of the document: each element's open handler, its content, its
  close handler with the printable text directly inside it; and afterwards the parser is
  empty again: no tag is left allocated or on the stack and the file is closed.
\<close>

theorem parse_visits_document:
  assumes "xml_ok w" "xp_stack w = []" "xp_conf w = Some name" "fopen name page = Inr reads"
    "expat_events expat [] reads = Some evs" "map fst evs = node_events (XElem n as ns)"
    "visit_node h [] (XElem n as ns) (xp_client w) = Some ([], c)"
  shows "\<exists>w'. Parse h expat fopen page None w = Return () w' \<and> xp_client w' = c \<and> xp_stack w' = [] \<and>
    xp_tags w' = xp_tags w \<and> xp_open_files w' = xp_open_files w \<and> xml_ok w'"
  by (rule Parse_document) (fact assms)+

lemma delete_tags_eq:
  assumes "distinct ps" "set ps \<subseteq> dom (xp_tags v)"
  shows "delete_tags ps v = Return () (v\<lparr>xp_tags := (\<lambda>p. if p \<in> set ps then None else xp_tags v p)\<rparr>)"
  using assms
proof (induction ps arbitrary: v)
  case (Cons p ps)
  then obtain t where t: "xp_tags v p = Some t" by auto
  let ?v = "v\<lparr>xp_tags := (xp_tags v)(p := None)\<rparr>"
  have "set ps \<subseteq> dom (xp_tags ?v)" using Cons.prems by auto
  from Cons.IH [OF _ this] show ?case using t Cons.prems(1)
    by (auto simp: fun_eq_iff intro!: arg_cong [where f = "\<lambda>x. v\<lparr>xp_tags := x\<rparr>"])
qed simp

lemma Reset_nonempty:
  assumes "xml_ok w" "xp_stack w \<noteq> []"
  obtains w1 where "Reset page w = Return () w1" "xp_stack w1 = xp_stack w" "Reset page w1 = Undef"
proof -
  let ?w = "w\<lparr>xp_page_size := page, xp_buffer := replicate page 0\<rparr>"
  let ?w1 = "?w\<lparr>xp_tags := (\<lambda>p. if p \<in> set (xp_stack w) then None else xp_tags w p)\<rparr>"
  have "Reset page w = Return () ?w1"
    using assms(1) delete_tags_eq [of "xp_stack w" ?w] by (simp add: Reset_def xml_ok_def cong: if_cong)
  moreover obtain p ps where "xp_stack w = p # ps" using assms(2) by (cases "xp_stack w") auto
  then have "Reset page ?w1 = Undef" by (simp add: Reset_def)
  ultimately show ?thesis using that by simp
qed

text \<open>
  After a parse that was cut short. When an error leaves tags on the stack, the next
  \<open>Reset\<close> deletes them and keeps their addresses on the stack; a second \<open>Reset\<close>, or a \<open>Parse\<close>,
  which starts with one, deletes them again: undefined behaviour. Loading the plugin
  configurations calls \<open>Reset\<close> and then \<open>Parse\<close> for each file, so one malformed file is enough.
\<close>

theorem reset_deletes_twice:
  assumes "xml_ok w" "xp_stack w \<noteq> []"
  shows "\<exists>w1. Reset page w = Return () w1 \<and> xp_stack w1 = xp_stack w \<and> Reset page w1 = Undef \<and>
    Parse h expat fopen page f w1 = Undef"
proof -
  obtain w1 where "Reset page w = Return () w1" "xp_stack w1 = xp_stack w" "Reset page w1 = Undef"
    by (rule Reset_nonempty [OF assms])
  then show ?thesis by (simp add: Parse_def)
qed

text \<open>
  Syntax errors beyond the first page. When expat rejects the document in a later read and
  reports a byte index that is not on the first page, \<open>ParseError\<close> reads its one-page buffer
  at that index: instead of the parse exception the behaviour is undefined.
\<close>

theorem late_syntax_error_undefined:
  assumes "xp_stack w = []" "xp_conf w = Some name" "fopen name page = Inr (Chunk b1 False # Chunk b2 fin # cs)"
    "length b1 \<le> page" "length b2 \<le> page" "expat [b1] False = (evs, None)"
    "run_callbacks h evs (w\<lparr>xp_page_size := page, xp_buffer := b1 @ replicate (page - length b1) 0,
       xp_open_files := Suc (xp_open_files w)\<rparr>) = Return () v"
    "length (xp_buffer v) = page" "expat [b1, b2] fin = ([], Some (msg, pos))" "page \<le> px_index pos"
  shows "Parse h expat fopen page None w = Undef"
proof -
  let ?w = "w\<lparr>xp_page_size := page, xp_buffer := replicate page 0, xp_open_files := Suc (xp_open_files w)\<rparr>"
  have "into_buffer b1 ?w = w\<lparr>xp_page_size := page, xp_buffer := b1 @ replicate (page - length b1) 0,
       xp_open_files := Suc (xp_open_files w)\<rparr>"
    by (simp add: into_buffer_def buffer_last)
  then have "parse_loop h expat name [] (Chunk b1 False # Chunk b2 fin # cs) ?w = Undef"
    using assms(5-10) by (simp add: ParseError_def) (simp add: into_buffer_def)
  then show ?thesis using assms(1-3) by (simp add: Parse_def Reset_empty)
qed

section \<open>Instances\<close>

text \<open>A client that keeps the names it sees opened and the texts it sees closed.\<close>

definition trace_handlers :: "string list xml_handlers" where
  "trace_handlers = \<lparr>
     ParseElementOpen = (\<lambda>stk tag c. Return (HandlerOk tag) (c @ [xt_name tag])),
     ParseElementClose = (\<lambda>stk tag c. Return (HandlerOk tag) (c @ [xt_text tag]))\<rparr>"

definition pos0 :: xml_pos where
  "pos0 = \<lparr>px_line = 1, px_col = 0, px_index = 0\<rparr>"

definition fresh_xml :: "string list xml_world" where
  "fresh_xml = \<lparr>xp_tags = Map.empty, xp_next = 0, xp_stack = [], xp_conf = Some ''c'',
     xp_open_files = 0, xp_buffer = [0, 0, 0, 0], xp_page_size = 4, xp_client = []\<rparr>"

text \<open>What expat reports for \<open><a>h</a>\<close> delivered as two pages of four bytes.\<close>

definition two_reads :: "read_result list" where
  "two_reads = file_chunks 4 [0x3C, 0x61, 0x3E, 0x68, 0x3C, 0x2F, 0x61, 0x3E]"

definition small_expat :: "bytes list \<Rightarrow> bool \<Rightarrow> (sax \<times> xml_pos) list \<times> (string \<times> xml_pos) option" where
  "small_expat fed finished =
     (if finished then ([], None)
      else if length fed = 1 then ([(SaxOpen ''a'' [], pos0), (SaxText [0x68], pos0)], None)
      else ([(SaxClose, pos0)], None))"

theorem parse_visits_document_witness:
  "\<exists>w'. Parse trace_handlers small_expat (\<lambda>_ _. Inr two_reads) 4 None fresh_xml = Return () w' \<and>
    xp_client w' = [''a'', ''h''] \<and> xp_stack w' = [] \<and> xp_tags w' = xp_tags fresh_xml \<and>
    xp_open_files w' = xp_open_files fresh_xml \<and> xml_ok w'"
proof (rule parse_visits_document [where name = "''c''" and reads = two_reads and n = "''a''" and as = "[]"
      and ns = "[XText [0x68]]" and
      evs = "[(SaxOpen ''a'' [], pos0), (SaxText [0x68], pos0), (SaxClose, pos0)]"])
  show "expat_events small_expat [] two_reads = Some [(SaxOpen ''a'' [], pos0), (SaxText [0x68], pos0), (SaxClose, pos0)]"
    by (simp add: two_reads_def file_chunks.simps small_expat_def)
  show "visit_node trace_handlers [] (XElem ''a'' [] [XText [0x68]]) (xp_client fresh_xml) = Some ([], [''a'', ''h''])"
    by (simp add: trace_handlers_def fresh_xml_def csXmlTag_ctor_def text_filter_def isprint_def char_of_byte_def
        char_of_def bit_Suc_0_iff)
qed (simp_all add: xml_ok_def fresh_xml_def)

theorem reset_deletes_twice_witness:
  "\<exists>w1. Reset 4 (fresh_xml\<lparr>xp_tags := [0 \<mapsto> csXmlTag_ctor ''a'' []], xp_next := 1, xp_stack := [0]\<rparr>) = Return () w1 \<and>
    xp_stack w1 = xp_stack (fresh_xml\<lparr>xp_tags := [0 \<mapsto> csXmlTag_ctor ''a'' []], xp_next := 1, xp_stack := [0]\<rparr>) \<and>
    Reset 4 w1 = Undef \<and> Parse trace_handlers small_expat (\<lambda>_ _. Inr two_reads) 4 None w1 = Undef"
  by (rule reset_deletes_twice) (simp_all add: xml_ok_def fresh_xml_def)

theorem late_syntax_error_undefined_witness:
  "Parse trace_handlers
     (\<lambda>fed fin. if length fed = 1 then ([], None) else ([], Some (''bad'', pos0\<lparr>px_index := 5\<rparr>)))
     (\<lambda>_ _. Inr two_reads) 4 None fresh_xml = Undef"
  by (rule late_syntax_error_undefined [where name = "''c''" and ?b1.0 = "[0x3C, 0x61, 0x3E, 0x68]" and
        ?b2.0 = "[0x3C, 0x2F, 0x61, 0x3E]" and fin = False and cs = "[Chunk [] True]" and evs = "[]" and
        msg = "''bad''" and pos = "pos0\<lparr>px_index := 5\<rparr>", OF _ _ _ _ _ _ run_callbacks.simps(1)])
    (simp_all add: fresh_xml_def two_reads_def file_chunks.simps pos0_def)

end
