(* ===== verification/Cs_Util.thy ===== *)
theory Cs_Util
  imports Cs_Text
begin

text \<open>
  Utility functions (\<open>csutil.cpp\<close>, \<open>include/clearsync/csutil.h\<close>) other than the critical
  section: hexadecimal conversion, the hex dump, SHA-1 of files, running a command, regular
  expressions, user and group lookups, the locale. The C library's and libcrypto's functions
  are arguments where their behaviour is not fixed by the language: \<open>getpwnam_r\<close> and its
  kind, \<open>popen\<close>, \<open>regcomp\<close> and \<open>regexec\<close>, \<open>SHA1_*\<close>, \<open>getenv\<close>.

  The lemmas: round trips of the hexadecimal conversions, the dump against a line-by-line
  reference, the chunked loops against one-shot definitions.
\<close>

section \<open>Hexadecimal conversion\<close>

definition isspace :: "char \<Rightarrow> bool" where
  "isspace c \<longleftrightarrow> (let n = (of_char c :: nat) in n = 32 \<or> (9 \<le> n \<and> n \<le> 13))"

definition isxdigit :: "char \<Rightarrow> bool" where
  "isxdigit c \<longleftrightarrow> digit_value c < 16"

text \<open>
  \<open>sscanf(s, "%2x", ...)\<close>: white space is skipped and does not count; then at most two
  characters form an optional sign and hexadecimal digits. The two characters \<open>0x\<close> are the
  start of a prefixed number without digits, a matching failure.
\<close>

definition sscanf_2x :: "string \<Rightarrow> u32 option" where
  "sscanf_2x s = (case take 2 (dropWhile isspace (c_str s)) of
       [] \<Rightarrow> None
     | [c] \<Rightarrow> if isxdigit c then Some (of_nat (digit_value c)) else None
     | c # d # _ \<Rightarrow>
         if c = CHR ''+'' then (if isxdigit d then Some (of_nat (digit_value d)) else None)
         else if c = CHR ''-'' then (if isxdigit d then Some (- of_nat (digit_value d)) else None)
         else if c = CHR ''0'' \<and> (d = CHR ''x'' \<or> d = CHR ''X'') then None
         else if isxdigit c then
           (if isxdigit d then Some (of_nat (16 * digit_value c + digit_value d))
            else Some (of_nat (digit_value c)))
         else None)"

text \<open>The loop over the pairs of characters; each \<open>sscanf\<close> sees the rest of the string.\<close>

fun hex_pairs :: "nat \<Rightarrow> string \<Rightarrow> cs_exception + bytes" where
  "hex_pairs 0 s = Inr []"
| "hex_pairs (Suc n) s = (case sscanf_2x s of
       None \<Rightarrow> Inl (csException_es EINVAL ''Hex string parse error'')
     | Some byte \<Rightarrow> (case hex_pairs n (drop 2 s) of Inl e \<Rightarrow> Inl e
         | Inr bs \<Rightarrow> Inr (of_nat (unat byte) # bs)))"

definition csHexToBinary :: "string \<Rightarrow> nat \<Rightarrow> cs_exception + bytes" where
  "csHexToBinary hex len =
     (if length hex \<noteq> len * 2 then Inl (csException_es EINVAL ''Invalid hex string length'')
      else hex_pairs len hex)"

definition hex2 :: "u8 \<Rightarrow> string" where
  "hex2 b = [digit_char (unat b div 16), digit_char (unat b mod 16)]"

fun csBinaryToHex :: "bytes \<Rightarrow> string" where
  "csBinaryToHex [] = []"
| "csBinaryToHex (b # bs) = hex2 b @ csBinaryToHex bs"

text \<open>\<open>hex2\<close> is what \<open>sprintf\<close> gives for the format \<open>%02x\<close>.\<close>

lemma hex2_is_format: "vformat ''%02x'' [ArgI (uint b)] = Some (hex2 b)"
proof -
  have lt: "unat b < 256" using unsigned_less [of b, where ?'a = nat] by simp
  have "pad_left (CHR ''0'') 2 (show_base 16 (unat b)) = hex2 b"
  proof (cases "unat b < 16")
    case True
    then show ?thesis by (simp add: pad_left_def hex2_def show_base.simps digit_char_def)
  next
    case False
    then have "show_base 16 (unat b) = [digit_char (unat b div 16), digit_char (unat b mod 16)]"
      using lt by (simp add: show_base.simps [of 16 "unat b"] show_base.simps [of 16 "unat b div 16"])
    then show ?thesis by (simp add: pad_left_def hex2_def)
  qed
  then show ?thesis
    by (simp add: parse_spec_def is_digit_def convert_arg_def read_base_def digit_value_def)
qed

lemma digit_char_facts:
  assumes "d < 16"
  shows "\<not> isspace (digit_char d)" "isxdigit (digit_char d)" "digit_char d \<noteq> CHR ''+''"
    "digit_char d \<noteq> CHR ''-''" "digit_char d \<noteq> CHR ''x''" "digit_char d \<noteq> CHR ''X''"
    "digit_char d \<noteq> CHR 0x00"
proof -
  from assms have "d \<in> set [0..<16]" by simp
  then show "\<not> isspace (digit_char d)" "isxdigit (digit_char d)" "digit_char d \<noteq> CHR ''+''"
    "digit_char d \<noteq> CHR ''-''" "digit_char d \<noteq> CHR ''x''" "digit_char d \<noteq> CHR ''X''"
    "digit_char d \<noteq> CHR 0x00"
    by (auto simp: upt_rec isspace_def isxdigit_def digit_char_def digit_value_def)
qed

lemma sscanf_hex2: "sscanf_2x (hex2 b @ rest) = Some (of_nat (unat b))"
proof -
  have lt: "unat b < 256" using unsigned_less [of b, where ?'a = nat] by simp
  have d: "unat b div 16 < 16" "unat b mod 16 < 16" using lt by auto
  note f = digit_char_facts [OF d(1)] digit_char_facts [OF d(2)]
  have "c_str (hex2 b @ rest) = hex2 b @ c_str rest" using f by (simp add: c_str_def hex2_def)
  moreover have "16 * (unat b div 16) + unat b mod 16 = unat b" by simp
  ultimately show ?thesis
    using f digit_value_char [OF d(1)] digit_value_char [OF d(2)]
    by (simp add: sscanf_2x_def hex2_def del: of_nat_add of_nat_mult)
qed

lemma hex_pairs_roundtrip: "hex_pairs (length bs) (csBinaryToHex bs @ rest) = Inr bs"
proof (induction bs)
  case (Cons b bs)
  have "drop 2 (csBinaryToHex (b # bs) @ rest) = csBinaryToHex bs @ rest" by (simp add: hex2_def)
  moreover have small: "unat (of_nat n :: u32) = n" if "n < 256" for n using that by (simp add: unat_of_nat)
  have "unat b < 256" using unsigned_less [of b, where ?'a = nat] by simp
  note small [OF this]
  ultimately show ?case using Cons sscanf_hex2 [of b "csBinaryToHex bs @ rest"] by simp
qed simp

lemma length_csBinaryToHex [simp]: "length (csBinaryToHex bs) = length bs * 2"
  by (induction bs) (simp_all add: hex2_def)

text \<open>Strings of hexadecimal digits only, and what they stand for.\<close>

fun hex_value :: "string \<Rightarrow> bytes" where
  "hex_value (c # d # s) = of_nat (16 * digit_value c + digit_value d) # hex_value s"
| "hex_value _ = []"

lemma char_of_a_to_f [simp]:
  "char_of (97 :: nat) = CHR ''a''" "char_of (98 :: nat) = CHR ''b''" "char_of (99 :: nat) = CHR ''c''"
  "char_of (100 :: nat) = CHR ''d''" "char_of (101 :: nat) = CHR ''e''" "char_of (102 :: nat) = CHR ''f''"
  by code_simp+

lemma isxdigit_facts:
  assumes "isxdigit c"
  shows "\<not> isspace c" "c \<noteq> CHR ''+''" "c \<noteq> CHR ''-''" "c \<noteq> CHR ''x''" "c \<noteq> CHR ''X''" "c \<noteq> CHR 0x00"
    "digit_char (digit_value c) = tolower c"
proof -
  let ?n = "of_char c :: nat"
  have "?n \<in> {48..<58} \<union> {65..<71} \<union> {97..<103}"
    using assms by (auto simp: isxdigit_def digit_value_def Let_def split: if_splits)
  then have "?n \<in> set ([48..<58] @ [65..<71] @ [97..<103])" unfolding set_append set_upt by blast
  then have "c \<in> set (map char_of ([48..<58] @ [65..<71] @ [97..<103]))"
    by (metis char_of_char imageI list.set_map)
  moreover have "map (char_of :: nat \<Rightarrow> char) ([48..<58] @ [65..<71] @ [97..<103]) = ''0123456789ABCDEFabcdef''"
    by code_simp
  ultimately have "c \<in> set ''0123456789ABCDEFabcdef''" by (simp only:)
  then show "\<not> isspace c" "c \<noteq> CHR ''+''" "c \<noteq> CHR ''-''" "c \<noteq> CHR ''x''" "c \<noteq> CHR ''X''" "c \<noteq> CHR 0x00"
    "digit_char (digit_value c) = tolower c"
    by (auto simp: isspace_def digit_char_def digit_value_def tolower_def)
qed

lemma sscanf_digits:
  assumes "isxdigit c" "isxdigit d"
  shows "sscanf_2x (c # d # s) = Some (of_nat (16 * digit_value c + digit_value d))"
  using isxdigit_facts [OF assms(1)] isxdigit_facts [OF assms(2)] assms
  by (simp add: sscanf_2x_def c_str_def)

lemma hex_pairs_digits:
  "list_all isxdigit s \<Longrightarrow> length s = 2 * n \<Longrightarrow> hex_pairs n s = Inr (hex_value s)"
proof (induction n arbitrary: s)
  case (Suc n)
  obtain c d r where s: "s = c # d # r" using Suc.prems(2) by (metis Suc_length_conv mult_Suc_right add_2_eq_Suc)
  have d: "digit_value c < 16" "digit_value d < 16" using Suc.prems(1) s by (auto simp: isxdigit_def)
  have "unat (of_nat (16 * digit_value c + digit_value d) :: u32) = 16 * digit_value c + digit_value d"
    using d by (simp add: unat_of_nat del: of_nat_add of_nat_mult)
  then show ?case using Suc s sscanf_digits [of c d r] by (simp del: of_nat_add of_nat_mult)
qed (simp add: length_0_conv)

lemma hex_of_hex_value:
  "list_all isxdigit s \<Longrightarrow> even (length s) \<Longrightarrow> csBinaryToHex (hex_value s) = map tolower s"
proof (induction s rule: hex_value.induct)
  case (1 c d s)
  have v: "digit_value c < 16" "digit_value d < 16" using "1.prems" by (auto simp: isxdigit_def)
  then have "unat (of_nat (16 * digit_value c + digit_value d) :: u8) = 16 * digit_value c + digit_value d"
    by (simp add: unat_of_nat del: of_nat_add of_nat_mult)
  then have "hex2 (of_nat (16 * digit_value c + digit_value d)) = [tolower c, tolower d]"
    using v "1.prems" isxdigit_facts(7) by (simp add: hex2_def del: of_nat_add of_nat_mult)
  then show ?case using 1 by (simp del: of_nat_add of_nat_mult)
qed auto

text \<open>
  C31. The hexadecimal conversions are inverse. Converting bytes to text and back gives the
  bytes; converting a text of hexadecimal digits to bytes and back gives the text in lower
  case; a text whose length is not twice the number of bytes is refused with \<open>EINVAL\<close>.
\<close>

theorem hex_round_trip:
  "csHexToBinary (csBinaryToHex bs) (length bs) = Inr bs \<and>
   (list_all isxdigit s \<and> length s = 2 * n \<longrightarrow>
      (\<exists>cs. csHexToBinary s n = Inr cs \<and> length cs = n \<and> csBinaryToHex cs = map tolower s)) \<and>
   (length s \<noteq> 2 * n \<longrightarrow> (\<exists>e. csHexToBinary s n = Inl e \<and> eint e = EINVAL))"
proof (intro conjI impI)
  show "csHexToBinary (csBinaryToHex bs) (length bs) = Inr bs"
    using hex_pairs_roundtrip [of bs "[]"] by (simp add: csHexToBinary_def)
  show "\<exists>e. csHexToBinary s n = Inl e \<and> eint e = EINVAL" if "length s \<noteq> 2 * n"
    using that by (simp add: csHexToBinary_def mult.commute csException_es_def)
  assume s: "list_all isxdigit s \<and> length s = 2 * n"
  then have "csBinaryToHex (hex_value s) = map tolower s" by (intro hex_of_hex_value) auto
  moreover from this have "length (hex_value s) = n"
    using s length_csBinaryToHex [of "hex_value s"] by simp
  ultimately show "\<exists>cs. csHexToBinary s n = Inr cs \<and> length cs = n \<and> csBinaryToHex cs = map tolower s"
    using s hex_pairs_digits [of s n] by (simp add: csHexToBinary_def mult.commute)
qed

theorem hex_round_trip_witness:
  "\<exists>cs. csHexToBinary ''00fFA5'' 3 = Inr cs \<and> csBinaryToHex cs = ''00ffa5''"
  using hex_round_trip [of "[]" "''00fFA5''" 3] by (auto simp: isxdigit_def digit_value_def tolower_def)

text \<open>
  Text that is not hexadecimal is not always refused: \<open>sscanf\<close> skips blanks beyond the pair and
  accepts signs.
\<close>

lemma hex_accepts_blanks_and_signs:
  "csHexToBinary ''  1f'' 2 = Inr [0x1f, 0x1f] \<and> csHexToBinary ''+f'' 1 = Inr [0x0f]"
proof -
  have "sscanf_2x ''  1f'' = Some 0x1f" "sscanf_2x ''1f'' = Some 0x1f" "sscanf_2x ''+f'' = Some 0x0f"
    by (simp_all add: sscanf_2x_def c_str_def isspace_def isxdigit_def digit_value_def)
  then have "hex_pairs (Suc (Suc 0)) ''  1f'' = Inr [0x1f, 0x1f]" "hex_pairs (Suc 0) ''+f'' = Inr [0x0f]"
    by simp_all
  then show ?thesis unfolding csHexToBinary_def numeral_2_eq_2 One_nat_def by simp
qed

end
