(* ===== verification/Cs_HexDump.thy ===== *)
theory Cs_HexDump
  imports Cs_Util
begin

text \<open>
  The hex dump of \<open>csutil.cpp\<close> (\<open>csHexDump\<close>): its loop over the bytes with two line buffers,
  and that it prints what a line-by-line reference prints.
\<close>

section \<open>Hex dump\<close>

definition hex2_upper :: "u8 \<Rightarrow> string" where
  "hex2_upper b = [''0123456789ABCDEF'' ! (unat b div 16), ''0123456789ABCDEF'' ! (unat b mod 16)]"

text \<open>\<open>%.5x\<close> for the address, \<open>%5.5s:  %-49.49s %s\<close> for the line.\<close>

definition addr_str :: "nat \<Rightarrow> string" where
  "addr_str a = pad_left (CHR ''0'') 5 (show_base 16 a)"

definition dump_line :: "string \<Rightarrow> string \<Rightarrow> string \<Rightarrow> string" where
  "dump_line addrs hexs chars = pad_left (CHR '' '') 5 (take 5 addrs) @ '':  '' @
     (take 49 hexs @ replicate (49 - length hexs) (CHR '' '')) @ '' '' @ chars @ [CHR 0x0A]"

definition print_char :: "u8 \<Rightarrow> char" where
  "print_char b = (if isprint b then char_of_byte b else CHR ''.'')"

record hexdump =
  hd_addr :: string
  hd_hex :: string
  hd_chars :: string
  hd_out :: string

text \<open>One turn of the loop, for the byte at offset \<open>n - 1\<close>; the buffers hold 52 and 20 characters.\<close>

definition hexdump_step :: "nat \<times> u8 \<Rightarrow> hexdump \<Rightarrow> hexdump" where
  "hexdump_step nb h = (let n = fst nb; b = snd nb;
       a = (if n mod 16 = 1 then addr_str (n - 1) else hd_addr h);
       hx = hd_hex h @ take (53 - length (hd_hex h) - 1) (hex2_upper b @ '' '');
       ch = hd_chars h @ take (21 - length (hd_chars h) - 1) [print_char b]
     in if n mod 16 = 0
        then \<lparr>hd_addr = a, hd_hex = [], hd_chars = [], hd_out = hd_out h @ dump_line a hx ch\<rparr>
        else \<lparr>hd_addr = a, hd_hex = (if n mod 8 = 0 then hx @ take (53 - length hx - 1) '' '' else hx),
              hd_chars = ch, hd_out = hd_out h\<rparr>)"

definition hexdump_loop :: "bytes \<Rightarrow> hexdump" where
  "hexdump_loop bs = fold hexdump_step (zip [1..<Suc (length bs)] bs)
     \<lparr>hd_addr = [], hd_hex = [], hd_chars = [], hd_out = []\<rparr>"

text \<open>
  The counter is a 32-bit number compared with \<open><=\<close>: for the largest length the loop never
  ends and runs out of the buffer, \<open>None\<close>.
\<close>

definition csHexDump :: "bytes \<Rightarrow> string option" where
  "csHexDump bs = (if length bs \<ge> 2 ^ 32 - 1 then None
     else let h = hexdump_loop bs in
       Some (hd_out h @ (if hd_hex h \<noteq> [] then dump_line (hd_addr h) (hd_hex h) (hd_chars h) else [])))"

text \<open>The reference: one line for each sixteen bytes.\<close>

definition ref_hex :: "bytes \<Rightarrow> string" where
  "ref_hex xs = concat (map (\<lambda>b. hex2_upper b @ '' '') (take 8 xs)) @ (if length xs < 8 then [] else '' '') @
     concat (map (\<lambda>b. hex2_upper b @ '' '') (drop 8 xs))"

definition ref_line :: "nat \<Rightarrow> bytes \<Rightarrow> string" where
  "ref_line a xs = dump_line (addr_str a) (ref_hex xs) (map print_char xs)"

fun ref_dump :: "nat \<Rightarrow> bytes \<Rightarrow> string" where
  "ref_dump a [] = []"
| "ref_dump a (b # bs) = ref_line a (take 16 (b # bs)) @ ref_dump (a + 16) (drop 16 (b # bs))"

lemma length_hexes: "length (concat (map (\<lambda>b. hex2_upper b @ '' '') xs)) = 3 * length xs"
  by (induction xs) (simp_all add: hex2_upper_def)

lemma length_ref_hex: "length (ref_hex xs) = 3 * length xs + (if length xs < 8 then 0 else 1)"
  by (simp add: ref_hex_def length_hexes del: length_concat) arith

lemma ref_hex_snoc:
  "ref_hex (xs @ [b]) = (if length xs < 8 then ref_hex xs @ hex2_upper b @ '' '' @
     (if length xs = 7 then '' '' else []) else ref_hex xs @ hex2_upper b @ '' '')"
  by (auto simp: ref_hex_def)

text \<open>The state after the first \<open>length xs\<close> bytes; \<open>q\<close> whole lines are out.\<close>

definition dump_state :: "nat \<Rightarrow> bytes \<Rightarrow> string \<Rightarrow> hexdump \<Rightarrow> bool" where
  "dump_state a line out h \<longleftrightarrow> length line < 16 \<and> hd_out h = out \<and> hd_hex h = ref_hex line \<and>
     hd_chars h = map print_char line \<and> (line \<noteq> [] \<longrightarrow> hd_addr h = addr_str a)"

lemma mod_16_8: "l < 16 \<Longrightarrow> Suc (16 * q + l) mod 16 = Suc l mod 16" "Suc (16 * q + l) mod 8 = Suc l mod 8"
proof -
  show "Suc (16 * q + l) mod 16 = Suc l mod 16" using mod_mult_self4 [of 16 q "Suc l"] by simp
  show "Suc (16 * q + l) mod 8 = Suc l mod 8" using mod_mult_self4 [of 8 "2 * q" "Suc l"] by simp
qed

lemma small_mod: "l < 15 \<Longrightarrow> Suc l mod 16 \<noteq> 0 \<and> (Suc l mod 16 = 1 \<longleftrightarrow> l = 0) \<and> (Suc l mod 8 = 0 \<longleftrightarrow> l = 7)"
  by presburger

lemma hexdump_step_partial:
  assumes "dump_state (16 * q) line out h" "length line < 15"
  shows "dump_state (16 * q) (line @ [b]) out (hexdump_step (Suc (16 * q + length line), b) h)"
proof -
  let ?n = "Suc (16 * q + length line)"
  have m: "?n mod 16 \<noteq> 0" "?n mod 16 = 1 \<longleftrightarrow> line = []" "?n mod 8 = 0 \<longleftrightarrow> length line = 7"
    unfolding mod_16_8(2) using small_mod [OF assms(2)] mod_16_8(1) [of "length line" q] assms(2) by auto
  have len: "length (ref_hex line) \<le> 43" using assms(2) by (simp add: length_ref_hex)
  have h: "hd_out h = out" "hd_hex h = ref_hex line" "hd_chars h = map print_char line"
    "line \<noteq> [] \<longrightarrow> hd_addr h = addr_str (16 * q)"
    using assms(1) by (simp_all add: dump_state_def)
  have t1: "take (53 - length (ref_hex line) - 1) (hex2_upper b @ '' '') = hex2_upper b @ '' ''"
    and t2: "take (53 - length (ref_hex line @ hex2_upper b @ '' '') - 1) '' '' = '' ''"
    and t3: "take (21 - length (map print_char line) - 1) [print_char b] = [print_char b]"
    using len assms(2) by (simp_all add: hex2_upper_def)
  show ?thesis
    unfolding dump_state_def hexdump_step_def Let_def fst_conv snd_conv h(1-3) t1 t2 t3
    using m assms(2) h(4) by (cases "length line = 7") (simp_all add: ref_hex_snoc)
qed

lemma hexdump_step_full:
  assumes "dump_state (16 * q) line out h" "length line = 15"
  shows "dump_state (16 * Suc q) [] (out @ ref_line (16 * q) (line @ [b]))
    (hexdump_step (Suc (16 * q + length line), b) h)"
proof -
  let ?n = "Suc (16 * q + length line)"
  have m: "?n mod 16 = 0" using mod_16_8 [of 15 q] assms(2) by simp
  have len: "length (ref_hex line) = 46" using assms(2) by (simp add: length_ref_hex)
  have h: "hd_out h = out" "hd_hex h = ref_hex line" "hd_chars h = map print_char line"
    "hd_addr h = addr_str (16 * q)"
    using assms by (auto simp: dump_state_def)
  have one: "?n mod 16 \<noteq> 1" using m by simp
  have t1: "take (53 - length (ref_hex line) - 1) (hex2_upper b @ '' '') = hex2_upper b @ '' ''"
    and t3: "take (21 - length (map print_char line) - 1) [print_char b] = [print_char b]"
    using len assms(2) by (simp_all add: hex2_upper_def)
  show ?thesis
    unfolding dump_state_def hexdump_step_def Let_def fst_conv snd_conv h t1 t3
    using m one assms(2) by (simp add: ref_hex_snoc ref_line_def) (simp add: ref_hex_def)
qed

lemma ref_dump_lines:
  "length ys = 16 \<Longrightarrow> length xs = 16 * q \<Longrightarrow> ref_dump a (xs @ ys) = ref_dump a xs @ ref_line (a + 16 * q) ys"
proof (induction q arbitrary: a xs)
  case 0
  then show ?case by (cases ys) (simp_all add: take_Cons' drop_Cons')
next
  case (Suc q)
  obtain b bs where xs: "xs = b # bs" using Suc.prems(2) by (cases xs) auto
  have "length (drop 16 xs) = 16 * q" using Suc.prems(2) by simp
  from Suc.IH [OF Suc.prems(1) this, of "a + 16"] show ?case
    using Suc.prems(2) by (simp add: xs add.assoc)
qed

definition dump_start :: hexdump where
  "dump_start = \<lparr>hd_addr = [], hd_hex = [], hd_chars = [], hd_out = []\<rparr>"

definition dump_after :: "nat \<Rightarrow> bytes \<Rightarrow> hexdump" where
  "dump_after k bs = fold hexdump_step (take k (zip [1..<Suc (length bs)] bs)) dump_start"

lemma dump_after_Suc:
  "k < length bs \<Longrightarrow> dump_after (Suc k) bs = hexdump_step (Suc k, bs ! k) (dump_after k bs)"
  by (simp add: dump_after_def take_Suc_conv_app_nth del: upt_Suc)

lemma dump_after_line:
  assumes "dump_state (16 * q) [] (ref_dump 0 (take (16 * q) bs)) (dump_after (16 * q) bs)"
    "r < 16" "16 * q + r \<le> length bs"
  shows "dump_state (16 * q) (take r (drop (16 * q) bs)) (ref_dump 0 (take (16 * q) bs)) (dump_after (16 * q + r) bs)"
  using assms(2,3)
proof (induction r)
  case 0
  then show ?case using assms(1) by simp
next
  case (Suc r)
  let ?l = "take r (drop (16 * q) bs)"
  have len: "length ?l = r" using Suc.prems by simp
  have "take (Suc r) (drop (16 * q) bs) = ?l @ [bs ! (16 * q + r)]"
    using Suc.prems by (simp add: take_Suc_conv_app_nth)
  then show ?case
    using Suc hexdump_step_partial [of q ?l _ _ "bs ! (16 * q + r)"] dump_after_Suc [of "16 * q + r" bs] len
    by simp
qed

lemma dump_after_lines:
  "16 * q \<le> length bs \<Longrightarrow> dump_state (16 * q) [] (ref_dump 0 (take (16 * q) bs)) (dump_after (16 * q) bs)"
proof (induction q)
  case 0
  then show ?case by (simp add: dump_state_def dump_after_def dump_start_def ref_hex_def)
next
  case (Suc q)
  let ?l = "take 15 (drop (16 * q) bs)" and ?b = "bs ! (16 * q + 15)"
  have len: "length ?l = 15" using Suc.prems by simp
  have st: "dump_state (16 * q) ?l (ref_dump 0 (take (16 * q) bs)) (dump_after (16 * q + 15) bs)"
    using Suc.prems by (intro dump_after_line Suc.IH) simp_all
  have "take (Suc 15) (drop (16 * q) bs) = ?l @ [?b]"
    using Suc.prems by (subst take_Suc_conv_app_nth) simp_all
  then have l16: "take 16 (drop (16 * q) bs) = ?l @ [?b]" by simp
  have "take (16 * Suc q) bs = take (16 * q) bs @ (?l @ [?b])"
    unfolding l16 [symmetric] mult_Suc_right add.commute [of 16] by (rule take_add)
  then have out: "ref_dump 0 (take (16 * Suc q) bs) = ref_dump 0 (take (16 * q) bs) @ ref_line (16 * q) (?l @ [?b])"
    using ref_dump_lines [of "?l @ [?b]" "take (16 * q) bs" q 0] len Suc.prems by simp
  have "dump_after (16 * Suc q) bs = hexdump_step (Suc (16 * q + 15), ?b) (dump_after (16 * q + 15) bs)"
    using dump_after_Suc [of "16 * q + 15" bs] Suc.prems by (simp add: add.commute)
  then show ?case unfolding out using hexdump_step_full [OF st len, of ?b] len by simp
qed

lemma ref_hex_Nil_iff: "ref_hex xs = [] \<longleftrightarrow> xs = []"
proof -
  have "length (ref_hex xs) = 0 \<longleftrightarrow> length xs = 0" by (cases xs) (auto simp: length_ref_hex)
  then show ?thesis by simp
qed

text \<open>
  C30. The dump is right. For every block short enough for the counter, \<open>csHexDump\<close> prints
  exactly the lines of the reference: sixteen bytes a line, in hexadecimal with a gap after
  eight and as characters, with the address in front; no line buffer ever overflows or is
  cut. For the one length that the 32-bit counter cannot pass, the loop does not end.
\<close>

theorem hex_dump_correct:
  "csHexDump bs = (if length bs < 2 ^ 32 - 1 then Some (ref_dump 0 bs) else None)"
proof -
  let ?q = "length bs div 16" and ?r = "length bs mod 16"
  have n: "16 * ?q + ?r = length bs" by simp
  let ?l = "drop (16 * ?q) bs"
  have "dump_state (16 * ?q) (take ?r ?l) (ref_dump 0 (take (16 * ?q) bs)) (dump_after (16 * ?q + ?r) bs)"
    by (intro dump_after_line dump_after_lines) simp_all
  then have st: "dump_state (16 * ?q) ?l (ref_dump 0 (take (16 * ?q) bs)) (hexdump_loop bs)"
    unfolding n by (simp add: minus_mult_div_eq_mod dump_after_def hexdump_loop_def dump_start_def del: upt_Suc)
  have ref: "ref_dump 0 bs = ref_dump 0 (take (16 * ?q) bs) @ (if ?l = [] then [] else ref_line (16 * ?q) ?l)"
  proof -
    have tail: "ref_dump a xs = (if xs = [] then [] else ref_line a xs)" if "length xs \<le> 16" for a xs
      using that by (cases xs) (simp_all add: take_Cons' drop_Cons')
    have gen: "ref_dump a xs = ref_dump a (take (16 * q) xs) @ ref_dump (a + 16 * q) (drop (16 * q) xs)"
      if "16 * q \<le> length xs" for a q xs using that
    proof (induction q arbitrary: a xs)
      case (Suc q)
      obtain b ys where xs: "xs = b # ys" using Suc.prems by (cases xs) auto
      have "16 * q \<le> length (drop 16 xs)" using Suc.prems by simp
      from Suc.IH [OF this, of "a + 16"] show ?case
        by (simp add: xs take_Cons' drop_Cons' add.assoc take_drop add.commute)
    qed simp
    have "length ?l \<le> 16" by (simp add: minus_mult_div_eq_mod less_imp_le)
    then show ?thesis using gen [of ?q bs 0] tail [of ?l "16 * ?q"] by simp
  qed
  show ?thesis using st by (auto simp: csHexDump_def Let_def ref dump_state_def ref_line_def ref_hex_Nil_iff)
qed

lemma length_show_base: "2 \<le> b \<Longrightarrow> n < b ^ k \<Longrightarrow> 0 < k \<Longrightarrow> length (show_base b n) \<le> k"
proof (induction k arbitrary: n)
  case (Suc k)
  show ?case
  proof (cases "n < b")
    case True
    then show ?thesis by (simp add: show_base.simps)
  next
    case False
    have "k \<noteq> 0" using False Suc.prems(2) by (cases k) auto
    moreover have "n div b < b ^ k" using Suc.prems(1,2) by (simp add: div_less_iff_less_mult mult.commute)
    ultimately have "length (show_base b (n div b)) \<le> k" using Suc by simp
    then show ?thesis using Suc.prems(1) False by (simp add: show_base.simps [of b n])
  qed
qed simp

lemma read_zeros: "read_base 16 (replicate k (CHR ''0'') @ s) = read_base 16 s"
proof (induction k)
  case (Suc k)
  then show ?case by (simp add: read_base_def digit_value_def)
qed simp

text \<open>
  The address column. Below one mebibyte the five characters in front of a line are its
  address. From there on the address has six digits, of which the format shows only the first
  five: the line at \<open>0x100000\<close> carries the same address as the line at \<open>0x10000\<close>.
\<close>

theorem dump_address_column:
  "(a < 2 ^ 20 \<longrightarrow> length (take 5 (addr_str a)) = 5 \<and> read_base 16 (take 5 (addr_str a)) = a) \<and>
   take 5 (addr_str 0x100000) = take 5 (addr_str 0x10000)"
proof (intro conjI impI)
  assume a: "a < 2 ^ 20"
  have len: "length (show_base 16 a) \<le> 5" using length_show_base [of 16 a 5] a by simp
  then have full: "take 5 (addr_str a) = addr_str a" by (simp add: addr_str_def pad_left_def)
  show "length (take 5 (addr_str a)) = 5" using len by (simp add: full) (simp add: addr_str_def pad_left_def)
  show "read_base 16 (take 5 (addr_str a)) = a"
    unfolding full by (simp add: addr_str_def pad_left_def read_zeros read_show_base)
next
  show "take 5 (addr_str 0x100000) = take 5 (addr_str 0x10000)"
    by (simp add: addr_str_def pad_left_def show_base.simps digit_char_def)
qed

theorem dump_address_column_witness: "read_base 16 (take 5 (addr_str 0xABCDE)) = 0xABCDE"
  using dump_address_column [of "0xABCDE"] by simp

end
