(* ===== verification/Cs_Sysutil.thy ===== *)
theory Cs_Sysutil
  imports Cs_Util
begin

text \<open>
  The functions of \<open>csutil.cpp\<close> that call the system: regular expressions, running a command,
  user and group lookups, SHA-1, the locale. What they call is an argument of the definition.
\<close>

section \<open>Regular expressions\<close>

text \<open>
  \<open>regcomp\<close> gives an error text or a compiled expression; \<open>regexec\<close> gives a return code and
  the offsets of the matches, \<open>(-1, -1)\<close> for a group that took no part. The offsets of an
  object that has not matched anything are uninitialised: \<open>None\<close>.
\<close>

record 're csRegEx =
  re_regex :: 're
  re_nmatch :: nat
  re_match :: "(int \<times> int) list option"
  re_matches :: "string option list"

definition csRegEx_ctor ::
  "(string \<Rightarrow> bool \<Rightarrow> string option + 're) \<Rightarrow> string \<Rightarrow> nat \<Rightarrow> cs_exception + 're csRegEx" where
  "csRegEx_ctor regcomp expr nmatch = (case regcomp expr (nmatch = 0) of
       Inl (Some errstr) \<Rightarrow> Inl (csException_ss expr errstr)
     | Inl None \<Rightarrow> Inl (csException_s ''Unknown regex compilation error'')
     | Inr re \<Rightarrow> Inr \<lparr>re_regex = re, re_nmatch = nmatch, re_match = None,
         re_matches = replicate nmatch None\<rparr>)"

definition match_text :: "string \<Rightarrow> int \<times> int \<Rightarrow> string" where
  "match_text subject m = take (nat (snd m - fst m)) (drop (nat (fst m)) subject)"

definition csRegEx_Execute ::
  "('re \<Rightarrow> string \<Rightarrow> nat \<Rightarrow> int \<times> (int \<times> int) list) \<Rightarrow> string option \<Rightarrow> 're csRegEx \<Rightarrow>
   cs_exception + int \<times> 're csRegEx" where
  "csRegEx_Execute regexec subject r = (case subject of
       None \<Rightarrow> Inl (csException_s ''Invalid regex subject'')
     | Some s \<Rightarrow> let (rc, m) = regexec (re_regex r) s (re_nmatch r) in
         Inr (rc, r\<lparr>re_match := Some m,
           re_matches := (if rc = 0 then map (\<lambda>x. Some (match_text s x)) (take (re_nmatch r) m)
                          else replicate (re_nmatch r) None)\<rparr>))"

text \<open>\<open>Inr None\<close> is a null pointer; reading uninitialised offsets is undefined, the outer \<open>None\<close>.\<close>

definition csRegEx_GetMatch :: "nat \<Rightarrow> 're csRegEx \<Rightarrow> (cs_exception + string option) option" where
  "csRegEx_GetMatch i r =
     (if i \<ge> re_nmatch r then Some (Inl (csException_s ''Invalid regex match offset''))
      else case re_match r of None \<Rightarrow> None
        | Some m \<Rightarrow> Some (Inr (if fst (m ! i) = -1 then None else re_matches r ! i)))"

text \<open>
  Matches. After a successful match every group that took part gives exactly the part of
  the subject between its offsets, and a group that did not gives a null pointer; an index
  beyond the groups that were asked for is refused, and so is a null subject.
\<close>

theorem regex_matches:
  assumes "regexec (re_regex r) s (re_nmatch r) = (0, m)" "length m = re_nmatch r"
  shows "\<exists>r'. csRegEx_Execute regexec (Some s) r = Inr (0, r') \<and>
    (\<forall>i < re_nmatch r. csRegEx_GetMatch i r' = Some (Inr (if fst (m ! i) = -1 then None
       else Some (match_text s (m ! i))))) \<and>
    (\<forall>i \<ge> re_nmatch r. \<exists>e. csRegEx_GetMatch i r' = Some (Inl e)) \<and>
    (\<exists>e. csRegEx_Execute regexec None r = Inl e)"
  using assms by (simp add: csRegEx_Execute_def csRegEx_GetMatch_def)

section \<open>Running a command\<close>

text \<open>
  \<open>fgets\<close> with a buffer of \<open>n\<close> bytes returns the text up to and including the first newline,
  but at most \<open>n - 1\<close> characters. The loop pushes each piece, as a C string, until the output
  of the command is used up.
\<close>

definition fgets_piece :: "nat \<Rightarrow> string \<Rightarrow> string" where
  "fgets_piece n s = (let l = takeWhile (\<lambda>c. c \<noteq> CHR 0x0A) s
     in take (n - 1) (if length l < length s then l @ [CHR 0x0A] else l))"

lemma fgets_line:
  obtains t r where "s = t @ r" "s \<noteq> [] \<Longrightarrow> t \<noteq> []" "\<And>n. fgets_piece n s = take (n - 1) t"
proof (cases "dropWhile (\<lambda>c. c \<noteq> CHR 0x0A) s")
  let ?l = "takeWhile (\<lambda>c. c \<noteq> CHR 0x0A) s"
  have split: "?l @ dropWhile (\<lambda>c. c \<noteq> CHR 0x0A) s = s" by (rule takeWhile_dropWhile_id)
  case Nil
  then have l: "?l = s" using split by simp
  show thesis by (rule that [of s "[]"]) (simp_all add: fgets_piece_def Let_def l)
next
  let ?l = "takeWhile (\<lambda>c. c \<noteq> CHR 0x0A) s"
  have split: "?l @ dropWhile (\<lambda>c. c \<noteq> CHR 0x0A) s = s" by (rule takeWhile_dropWhile_id)
  case (Cons c r)
  then have c: "c = CHR 0x0A" using hd_dropWhile [of "\<lambda>c. c \<noteq> CHR 0x0A" s] by simp
  have s: "s = (?l @ [CHR 0x0A]) @ r" using split Cons c by simp
  have "length s = length ?l + Suc (length r)" by (subst (1) s) simp
  then show thesis by (intro that [OF s]) (simp_all add: fgets_piece_def Let_def)
qed

lemma fgets_piece_prefix:
  assumes "s \<noteq> []" "2 \<le> n"
  shows "fgets_piece n s \<noteq> []" "fgets_piece n s @ drop (length (fgets_piece n s)) s = s"
    "length (fgets_piece n s) < n"
proof -
  obtain t r where t: "s = t @ r" "t \<noteq> []" and piece: "fgets_piece n s = take (n - 1) t"
    using fgets_line [of s] assms(1) by metis
  show "fgets_piece n s @ drop (length (fgets_piece n s)) s = s"
  proof -
    have "fgets_piece n s = take (min (n - 1) (length t)) s" using piece t(1) by (simp add: min_def)
    then show ?thesis by (auto simp: min_def)
  qed
  show "length (fgets_piece n s) < n" using assms(2) by (auto simp: piece)
  show "fgets_piece n s \<noteq> []" using t(2) assms(2) by (simp add: piece)
qed

function fgets_loop :: "nat \<Rightarrow> string \<Rightarrow> string list" where
  "fgets_loop n s = (if s = [] \<or> n < 2 then []
     else c_str (fgets_piece n s) # fgets_loop n (drop (length (fgets_piece n s)) s))"
  by auto

termination
proof (relation "measure (length \<circ> snd)", goal_cases)
  case (2 n s)
  then have "fgets_piece n s \<noteq> []" by (intro fgets_piece_prefix) auto
  moreover have "s \<noteq> []" using 2 by simp
  ultimately show ?case by (cases s; cases "fgets_piece n s") auto
qed simp

declare fgets_loop.simps [simp del]

text \<open>
  \<open>popen\<close> gives an errno value or a stream whose whole output and exit status are known; the
  first overload throws the output away.
\<close>

definition csExecute_output ::
  "(string \<Rightarrow> int + string \<times> int) \<Rightarrow> nat \<Rightarrow> string \<Rightarrow> string list \<Rightarrow> int \<times> string list" where
  "csExecute_output popen page_size command output = (case popen (c_str command) of
       Inl err \<Rightarrow> (err, output)
     | Inr (s, status) \<Rightarrow> (status, output @ fgets_loop page_size s))"

definition csExecute :: "(string \<Rightarrow> int + string \<times> int) \<Rightarrow> string \<Rightarrow> int" where
  "csExecute popen command = (case popen (c_str command) of Inl err \<Rightarrow> err | Inr (s, status) \<Rightarrow> status)"

lemma fgets_loop_concat:
  "2 \<le> n \<Longrightarrow> CHR 0x00 \<notin> set s \<Longrightarrow> concat (fgets_loop n s) = s \<and> (\<forall>l \<in> set (fgets_loop n s). l \<noteq> [] \<and> length l < n)"
proof (induction n s rule: fgets_loop.induct)
  case (1 n s)
  show ?case
  proof (cases "s = []")
    case True
    then show ?thesis by (simp add: fgets_loop.simps)
  next
    case False
    note p = fgets_piece_prefix [OF False "1.prems"(1)]
    have "set s = set (fgets_piece n s) \<union> set (drop (length (fgets_piece n s)) s)"
      using p(2) by (metis set_append)
    then have z: "CHR 0x00 \<notin> set (fgets_piece n s)" "CHR 0x00 \<notin> set (drop (length (fgets_piece n s)) s)"
      using "1.prems"(2) by auto
    then have "c_str (fgets_piece n s) = fgets_piece n s" by (auto simp: c_str_def takeWhile_eq_all_conv)
    then show ?thesis using "1.IH" "1.prems"(1) False z p by (subst (1 2) fgets_loop.simps) auto
  qed
qed

text \<open>
  The output of a command is complete. When the output contains no NUL, the strings that
  \<open>csExecute\<close> appends are, put together, exactly that output, none is empty and each fits the
  page-sized buffer; the result is the command's status.
\<close>

theorem execute_output_complete:
  assumes "2 \<le> page_size" "popen (c_str command) = Inr (s, status)" "CHR 0x00 \<notin> set s"
  shows "\<exists>new. csExecute_output popen page_size command output = (status, output @ new) \<and>
    concat new = s \<and> (\<forall>l \<in> set new. l \<noteq> [] \<and> length l < page_size) \<and>
    csExecute popen command = status"
  using fgets_loop_concat [OF assms(1,3)] assms(2) by (simp add: csExecute_output_def csExecute_def)

section \<open>Users and groups\<close>

text \<open>
  \<open>sysconf\<close> gives the buffer size, -1 when there is no limit; the \<open>_r\<close> functions get it and
  give a result or, when the result pointer is null, a return code, 0 for "not found".
\<close>

definition lookup_size :: "int \<Rightarrow> int" where
  "lookup_size sysconf = (if sysconf = -1 then 16384 else sysconf)"

definition csGetUserId ::
  "int \<Rightarrow> (string \<Rightarrow> int \<Rightarrow> int + u32) \<Rightarrow> string \<Rightarrow> cs_exception + u32" where
  "csGetUserId sysconf getpwnam_r user = (case getpwnam_r (c_str user) (lookup_size sysconf) of
       Inl rc \<Rightarrow> if rc = 0 then Inl (csException_ss ''User not found'' (c_str user))
                 else Inl (csException_es rc ''getpwnam_r'')
     | Inr uid \<Rightarrow> Inr uid)"

definition csGetUserName ::
  "int \<Rightarrow> (u32 \<Rightarrow> int \<Rightarrow> int + string) \<Rightarrow> u32 \<Rightarrow> cs_exception + string" where
  "csGetUserName sysconf getpwuid_r uid = (case getpwuid_r uid (lookup_size sysconf) of
       Inl rc \<Rightarrow> if rc = 0 then Inl (csException_es EINVAL ''User ID not found'')
                 else Inl (csException_es rc ''getpwuid_r'')
     | Inr name \<Rightarrow> Inr name)"

definition csGetGroupId ::
  "int \<Rightarrow> (string \<Rightarrow> int \<Rightarrow> int + u32) \<Rightarrow> string \<Rightarrow> cs_exception + u32" where
  "csGetGroupId sysconf getgrnam_r grp = (case getgrnam_r (c_str grp) (lookup_size sysconf) of
       Inl rc \<Rightarrow> if rc = 0 then Inl (csException_ss ''Group not found'' (c_str grp))
                 else Inl (csException_es rc ''getgrnam_r'')
     | Inr gid \<Rightarrow> Inr gid)"

definition csGetGroupName ::
  "int \<Rightarrow> (u32 \<Rightarrow> int \<Rightarrow> int + string) \<Rightarrow> u32 \<Rightarrow> cs_exception + string" where
  "csGetGroupName sysconf getgrgid_r gid = (case getgrgid_r gid (lookup_size sysconf) of
       Inl rc \<Rightarrow> if rc = 0 then Inl (csException_es EINVAL ''Group ID not found'')
                 else Inl (csException_es rc ''getgrgid_r'')
     | Inr name \<Rightarrow> Inr name)"

text \<open>
  An account database for the lookups: entries in order, and \<open>need n\<close> bytes of buffer for the
  entry with name \<open>n\<close>, below which the C library answers ERANGE (34) instead of a result.
\<close>

definition db_by_name :: "(string \<Rightarrow> int) \<Rightarrow> (string \<times> u32) list \<Rightarrow> string \<Rightarrow> int \<Rightarrow> int + u32" where
  "db_by_name need db n sz = (case map_of db n of None \<Rightarrow> Inl 0
     | Some i \<Rightarrow> if need n > sz then Inl 34 else Inr i)"

definition db_by_id :: "(string \<Rightarrow> int) \<Rightarrow> (string \<times> u32) list \<Rightarrow> u32 \<Rightarrow> int \<Rightarrow> int + string" where
  "db_by_id need db i sz = (case map_of (map (\<lambda>(n, i). (i, n)) db) i of None \<Rightarrow> Inl 0
     | Some n \<Rightarrow> if need n > sz then Inl 34 else Inr n)"

text \<open>
  User lookups over an account database with unique names and ids. A name whose entry fits
  the buffer is turned into its id and back; an unknown name and an unknown id are refused
  with their own exceptions; an entry that does not fit the suggested buffer is refused with
  ERANGE, because the call is not repeated with a larger one.
\<close>

theorem user_lookups:
  assumes "distinct (map fst db)" "distinct (map snd db)" "(n, i) \<in> set db" "CHR 0x00 \<notin> set n"
  shows "(need n \<le> lookup_size sc \<longrightarrow> csGetUserId sc (db_by_name need db) n = Inr i \<and>
      csGetUserName sc (db_by_id need db) i = Inr n) \<and>
    (need n > lookup_size sc \<longrightarrow> (\<exists>e. csGetUserId sc (db_by_name need db) n = Inl e \<and> eint e = 34)) \<and>
    (\<forall>m. c_str m \<notin> fst ` set db \<longrightarrow> csGetUserId sc (db_by_name need db) m =
       Inl (csException_ss ''User not found'' (c_str m))) \<and>
    (\<forall>j. j \<notin> snd ` set db \<longrightarrow> csGetUserName sc (db_by_id need db) j =
       Inl (csException_es EINVAL ''User ID not found''))"
proof -
  have cs: "c_str n = n" using assms(4) by (auto simp: c_str_def takeWhile_eq_all_conv)
  have "map fst (map (\<lambda>(n, i). (i, n)) db) = map snd db" by (simp add: comp_def case_prod_unfold)
  then have "distinct (map fst (map (\<lambda>(n, i). (i, n)) db))" using assms(2) by (simp only:)
  moreover have "(i, n) \<in> set (map (\<lambda>(n, i). (i, n)) db)" using assms(3) by force
  ultimately have 2: "map_of (map (\<lambda>(n, i). (i, n)) db) i = Some n" by (rule map_of_is_SomeI)
  have 1: "map_of db n = Some i" using assms(1,3) by (rule map_of_is_SomeI)
  have 3: "map_of (map (\<lambda>(n, i). (i, n)) db) j = None" if "j \<notin> snd ` set db" for j
    using that by (force simp: map_of_eq_None_iff)
  have 4: "map_of db m = None" if "m \<notin> fst ` set db" for m using that by (simp add: map_of_eq_None_iff)
  show ?thesis
    using 1 2 3 4 cs by (auto simp: csGetUserId_def csGetUserName_def db_by_name_def db_by_id_def csException_es_def)
qed

section \<open>SHA-1\<close>

text \<open>The three functions of libcrypto: \<open>init\<close> may fail; \<open>sha_update\<close> absorbs bytes.\<close>

function sha1_loop :: "(bytes \<Rightarrow> 'c \<Rightarrow> 'c) \<Rightarrow> nat \<Rightarrow> bytes \<Rightarrow> 'c \<Rightarrow> 'c" where
  "sha1_loop upd page bs ctx = (if bs = [] \<or> page = 0 then ctx
     else sha1_loop upd page (drop page bs) (upd (take page bs) ctx))"
  by auto

termination
  by (relation "measure (\<lambda>(u, p, bs, c). length bs)") auto

declare sha1_loop.simps [simp del]

definition csSHA1_file ::
  "'c option \<Rightarrow> (bytes \<Rightarrow> 'c \<Rightarrow> 'c) \<Rightarrow> ('c \<Rightarrow> bytes) \<Rightarrow> (string \<Rightarrow> int + bytes) \<Rightarrow> nat \<Rightarrow> string \<Rightarrow>
   cs_exception + bytes" where
  "csSHA1_file init upd final fopen_r page_size filename = (case fopen_r (c_str filename) of
       Inl err \<Rightarrow> Inl (csException_es err (c_str filename))
     | Inr content \<Rightarrow> (case init of
         None \<Rightarrow> Inl (csException_es EINVAL ''SHA1_Init'')
       | Some ctx \<Rightarrow> Inr (final (sha1_loop upd page_size content ctx))))"

definition csSHA1_buffer ::
  "'c option \<Rightarrow> (bytes \<Rightarrow> 'c \<Rightarrow> 'c) \<Rightarrow> ('c \<Rightarrow> bytes) \<Rightarrow> bytes \<Rightarrow> cs_exception + bytes" where
  "csSHA1_buffer init upd final buf = (case init of
       None \<Rightarrow> Inl (csException_es EINVAL ''SHA1_Init'')
     | Some ctx \<Rightarrow> Inr (final (upd buf ctx)))"

text \<open>
  C32. The digest of a file is the digest of its content. Reading the file in pages gives what
  the in-memory overload gives for the whole content, provided that absorbing two pieces one
  after the other is absorbing them together, as libcrypto documents of \<open>SHA1_Update\<close>.
\<close>

theorem sha1_file_is_sha1_of_content:
  fixes upd :: "bytes \<Rightarrow> 'c \<Rightarrow> 'c"
  assumes absorb: "\<And>a b c. upd b (upd a c) = upd (a @ b) c" and absorb_nil: "\<And>c. upd [] c = c"
    and "0 < page_size" "fopen_r (c_str filename) = Inr content"
  shows "csSHA1_file init upd final fopen_r page_size filename = csSHA1_buffer init upd final content"
proof -
  have "sha1_loop upd page_size bs ctx = upd bs ctx" for bs ctx
    using assms(3)
  proof (induction "length bs" arbitrary: bs ctx rule: less_induct)
    case less
    show ?case
    proof (cases "bs = []")
      case False
      then have "length (drop page_size bs) < length bs" using assms(3) by (cases bs) auto
      from less.hyps [OF this less.prems] show ?thesis using False assms(3)
        by (subst sha1_loop.simps) (simp add: absorb)
    next
      case True
      then have "sha1_loop upd page_size bs ctx = ctx" by (simp add: sha1_loop.simps)
      also have "\<dots> = upd bs ctx" unfolding True by (rule absorb_nil [symmetric])
      finally show ?thesis .
    qed
  qed
  then show ?thesis using assms(4) by (simp add: csSHA1_file_def csSHA1_buffer_def split: option.splits)
qed

section \<open>Locale and page size\<close>

definition csGetLocale :: "(string \<Rightarrow> string option) \<Rightarrow> string" where
  "csGetLocale getenv = (case getenv ''LC_ALL'' of Some v \<Rightarrow> v
     | None \<Rightarrow> (case getenv ''LANG'' of Some v \<Rightarrow> v | None \<Rightarrow> ''en_US''))"

definition csGetPageSize :: "int option \<Rightarrow> int" where
  "csGetPageSize getpagesize = (case getpagesize of None \<Rightarrow> 4096 | Some n \<Rightarrow> n)"

section \<open>Witnesses\<close>

theorem regex_matches_witness:
  "\<exists>r'. csRegEx_Execute (\<lambda>_ _ _. (0, [(1, 3)])) (Some ''abcd'')
      \<lparr>re_regex = (), re_nmatch = 1, re_match = None, re_matches = [None]\<rparr> = Inr (0, r') \<and>
    csRegEx_GetMatch 0 r' = Some (Inr (Some ''bc''))"
  using regex_matches [of "\<lambda>_ _ _. (0, [(1, 3)])" "\<lparr>re_regex = (), re_nmatch = 1, re_match = None,
      re_matches = [None]\<rparr>" "''abcd''" "[(1, 3)]"] by (auto simp: match_text_def)

theorem execute_output_complete_witness:
  "\<exists>new. csExecute_output (\<lambda>_. Inr (''one line'', 0)) 4 ''ls'' [] = (0, new) \<and> concat new = ''one line''"
  using execute_output_complete [of 4 "\<lambda>_. Inr (''one line'', 0)" "''ls''" "''one line''" 0 "[]"] by auto

theorem user_lookups_witness:
  "csGetUserId (-1) (db_by_name (\<lambda>_. 100) [(''root'', 0), (''sync'', 5)]) ''sync'' = Inr 5"
  using user_lookups [of "[(''root'', 0), (''sync'', 5)]" "''sync''" 5 "\<lambda>_. 100" "-1"]
  by (simp add: lookup_size_def)

theorem sha1_file_is_sha1_of_content_witness:
  "csSHA1_file (Some []) (\<lambda>b c. c @ b) (take 20) (\<lambda>_. Inr [1, 2, 3]) 2 ''f'' =
    csSHA1_buffer (Some []) (\<lambda>b c. c @ b) (take 20) [1, 2, 3]"
  by (rule sha1_file_is_sha1_of_content) simp_all

end
