(* ===== verification/Cs_Netlink.thy ===== *)
theory Cs_Netlink
  imports Cs_Thread
begin

unbundle bit_operations_syntax

text \<open>
  Netlink events and the netlink thread (\<open>csnetlink.cpp\<close>, \<open>include/clearsync/csnetlink.h\<close>).

  \<open>netlink_world\<close> extends the system state by the thread object, the static instance
  pointer, the open sockets and the datagrams sent. The receive buffer is a list of bytes as
  long as the allocation; a message pointer \<open>nh\<close> into it is the list of the bytes from there
  to the end of the allocation, so that a read past the end is visible as \<open>Undef\<close>. The layout
  of a netlink message, its macros (\<open>NLMSG_OK\<close>, \<open>NLMSG_NEXT\<close>, \<open>NLMSG_LENGTH\<close>) and its numbers
  are those of the Linux interface. The replies of a netlink event are part of the event
  object; its own mutex is taken and released inside one operation and is not in the state.

  The vector of waiting events is called \<open>event_client\<close> in the source, like the registry of
  the event clients that it hides; here it is \<open>nt_events\<close>.
\<close>

section \<open>Messages\<close>

record nlmsghdr =
  nlmsg_len :: u32
  nlmsg_type :: u16
  nlmsg_flags :: u16
  nlmsg_seq :: u32
  nlmsg_pid :: u32

definition put_u16 :: "u16 \<Rightarrow> bytes" where
  "put_u16 w = le_bytes 2 (unat w)"

definition get_u16 :: "bytes \<Rightarrow> u16" where
  "get_u16 bs = of_nat (le_value bs)"

definition put_nlmsghdr :: "nlmsghdr \<Rightarrow> bytes" where
  "put_nlmsghdr h = put_u32 (nlmsg_len h) @ put_u16 (nlmsg_type h) @ put_u16 (nlmsg_flags h) @
     put_u32 (nlmsg_seq h) @ put_u32 (nlmsg_pid h)"

definition get_nlmsghdr :: "bytes \<Rightarrow> nlmsghdr" where
  "get_nlmsghdr bs = \<lparr>nlmsg_len = get_u32 (take 4 bs), nlmsg_type = get_u16 (take 2 (drop 4 bs)),
     nlmsg_flags = get_u16 (take 2 (drop 6 bs)), nlmsg_seq = get_u32 (take 4 (drop 8 bs)),
     nlmsg_pid = get_u32 (take 4 (drop 12 bs))\<rparr>"

definition NLMSG_NOOP :: u16 where "NLMSG_NOOP = 1"
definition NLMSG_ERROR :: u16 where "NLMSG_ERROR = 2"
definition NLMSG_DONE :: u16 where "NLMSG_DONE = 3"
definition NLMSG_OVERRUN :: u16 where "NLMSG_OVERRUN = 4"
definition RTM_NEWROUTE :: u16 where "RTM_NEWROUTE = 24"
definition RTM_DELROUTE :: u16 where "RTM_DELROUTE = 25"
definition RTM_GETROUTE :: u16 where "RTM_GETROUTE = 26"
definition NLM_F_REQUEST :: u16 where "NLM_F_REQUEST = 0x001"
definition NLM_F_MULTI :: u16 where "NLM_F_MULTI = 0x002"
definition NLM_F_DUMP :: u16 where "NLM_F_DUMP = 0x300"

text \<open>
  The query types that are let through: \<open>RTM_GETLINK\<close>, \<open>RTM_GETADDR\<close>, \<open>RTM_GETROUTE\<close>,
  \<open>RTM_GETNEIGH\<close>, \<open>RTM_GETRULE\<close>, \<open>RTM_GETQDISC\<close>, \<open>RTM_GETTCLASS\<close>, \<open>RTM_GETTFILTER\<close>.
\<close>

definition query_types :: "u16 list" where
  "query_types = [18, 22, RTM_GETROUTE, 30, 34, 38, 42, 46]"

definition NLMSG_ALIGN :: "u32 \<Rightarrow> u32" where
  "NLMSG_ALIGN l = (l + 3) AND NOT 3"

definition NLMSG_LENGTH :: "u32 \<Rightarrow> u32" where
  "NLMSG_LENGTH l = l + 16"

definition NLMSG_OK :: "bytes \<Rightarrow> int \<Rightarrow> bool" where
  "NLMSG_OK nh len \<longleftrightarrow> 16 \<le> len \<and> 16 \<le> uint (nlmsg_len (get_nlmsghdr nh)) \<and>
     uint (nlmsg_len (get_nlmsghdr nh)) \<le> len"

section \<open>State\<close>

record csThreadNetlink =
  nt_parent :: client_ptr
  nt_events :: "nat list"
  nt_fd :: int
  nt_buffer :: bytes
  nt_seq :: u32

record netlink_world = sys_world +
  nt_instance :: "nat option"
  nt_objs :: "nat \<rightharpoonup> csThreadNetlink"
  nt_open :: "int list"
  nt_sent :: "bytes list"

definition csEventNetlink_ctor :: "netlink_type \<Rightarrow> u16 \<Rightarrow> csEvent" where
  "csEventNetlink_ctor type query = (csEvent_ctor csEVENT_NETLINK Flag_None)
     \<lparr>ev_class := EvNetlink type query 0 []\<rparr>"

definition nt_update :: "nat \<Rightarrow> (csThreadNetlink \<Rightarrow> csThreadNetlink) \<Rightarrow> netlink_world \<Rightarrow> netlink_world" where
  "nt_update this f w = w\<lparr>nt_objs := (nt_objs w)(this := map_option f (nt_objs w this))\<rparr>"

text \<open>A netlink event by its address: \<open>Undef\<close> if it is dead or of another class.\<close>

definition nl_event :: "nat \<Rightarrow> netlink_world \<Rightarrow> (netlink_world, csEvent \<times> netlink_type \<times> u16 \<times> u32 \<times> bytes list) outcome" where
  "nl_event a w = bindO (ev_op (ev_read a) w) (\<lambda>e w. case ev_class e of
       EvNetlink ty q sq rs \<Rightarrow> Return (e, ty, q, sq, rs) w | _ \<Rightarrow> Undef)"

definition nl_assign :: "nat \<Rightarrow> csEvent \<Rightarrow> netlink_world \<Rightarrow> (netlink_world, unit) outcome" where
  "nl_assign a e w = ev_op (ev_write a (\<lambda>_. e)) w"

section \<open>Replies\<close>

text \<open>
  The copy is \<open>NLMSG_LENGTH(nlmsg_len)\<close> bytes long. As \<open>nlmsg_len\<close> already counts the header,
  that is 16 bytes more than the message.
\<close>

definition AddReply :: "nat \<Rightarrow> bytes \<Rightarrow> netlink_world \<Rightarrow> (netlink_world, unit) outcome" where
  "AddReply a nh w =
     (let n = unat (NLMSG_LENGTH (nlmsg_len (get_nlmsghdr nh))) in
      if n > length nh then Undef
      else bindO (nl_event a w) (\<lambda>(e, ty, q, sq, rs) w.
           nl_assign a (e\<lparr>ev_class := EvNetlink ty q sq (rs @ [take n nh])\<rparr>) w))"

definition GetReply :: "nat \<Rightarrow> netlink_world \<Rightarrow> (netlink_world, bytes option) outcome" where
  "GetReply a w = bindO (nl_event a w) (\<lambda>(e, ty, q, sq, rs) w. case rs of
       [] \<Rightarrow> Return None w
     | r # rs \<Rightarrow> bindO (nl_assign a (e\<lparr>ev_class := EvNetlink ty q sq rs\<rparr>) w) (\<lambda>_ w. Return (Some r) w))"

definition reply_to :: "nat \<Rightarrow> nat \<Rightarrow> bytes \<Rightarrow> netlink_world \<Rightarrow> (netlink_world, unit) outcome" where
  "reply_to this a nh w = bindO (AddReply a nh w) (\<lambda>_ w.
     bindO (ev_op (ev_read a) w) (\<lambda>e w. ev_op (EventDispatch this a (ev_dst e)) w))"

fun watch_loop :: "nat \<Rightarrow> bytes \<Rightarrow> nat list \<Rightarrow> netlink_world \<Rightarrow> (netlink_world, unit) outcome" where
  "watch_loop this nh [] w = Return () w"
| "watch_loop this nh (a # as) w = bindO (nl_event a w) (\<lambda>(e, ty, q, sq, rs) w.
     if ty \<noteq> NL_RouteWatch then watch_loop this nh as w
     else bindO (reply_to this a nh w) (\<lambda>_ w. watch_loop this nh as w))"

text \<open>\<open>last_reply\<close>: this message ends the answer to its query.\<close>

definition last_reply :: "nlmsghdr \<Rightarrow> bool" where
  "last_reply h \<longleftrightarrow> nlmsg_type h = NLMSG_DONE \<or> nlmsg_type h = NLMSG_ERROR \<or>
     nlmsg_type h = NLMSG_OVERRUN \<or> nlmsg_flags h AND NLM_F_MULTI = 0"

text \<open>The loop over the queries; the result is the vector of events that still wait.\<close>

fun query_loop :: "nat \<Rightarrow> bytes \<Rightarrow> nat list \<Rightarrow> netlink_world \<Rightarrow> (netlink_world, nat list) outcome" where
  "query_loop this nh [] w = Return [] w"
| "query_loop this nh (a # as) w = bindO (nl_event a w) (\<lambda>(e, ty, q, sq, rs) w.
     if ty \<noteq> NL_Query \<or> sq \<noteq> nlmsg_seq (get_nlmsghdr nh)
     then bindO (query_loop this nh as w) (\<lambda>bs w. Return (a # bs) w)
     else bindO (reply_to this a nh w) (\<lambda>_ w.
          Return (if last_reply (get_nlmsghdr nh) then as else a # as) w))"

definition SendNetlinkReply :: "nat \<Rightarrow> bytes \<Rightarrow> netlink_world \<Rightarrow> (netlink_world, unit) outcome" where
  "SendNetlinkReply this nh w = (case nt_objs w this of None \<Rightarrow> Undef | Some ob \<Rightarrow>
     let type = nlmsg_type (get_nlmsghdr nh) in
     if type = RTM_NEWROUTE \<or> type = RTM_DELROUTE then watch_loop this nh (nt_events ob) w
     else if type = NLMSG_NOOP then Return () w
     else bindO (query_loop this nh (nt_events ob) w) (\<lambda>as w.
          Return () (nt_update this (\<lambda>ob. ob\<lparr>nt_events := as\<rparr>) w)))"

section \<open>Received messages\<close>

text \<open>The name of the thread, the first argument of its log lines.\<close>

definition nt_name :: fmt_arg where "nt_name = ArgS ''csThreadNetlink''"

definition nl_log_type :: "u16 \<Rightarrow> netlink_world \<Rightarrow> netlink_world" where
  "nl_log_type type w =
     (if type = NLMSG_ERROR then sys_log Level_Error ''%s: NLMSG_ERROR'' [nt_name] w
      else if type = NLMSG_OVERRUN then sys_log Level_Error ''%s: NLMSG_OVERRUN'' [nt_name] w
      else w)"

text \<open>
  The loop over the messages of a datagram, \<open>len\<close> bytes of which are left. A length that wraps
  to zero when it is rounded up would keep the pointer where it is for ever; it takes a
  datagram of four gigabytes, and the buffer holds a page.
\<close>

function message_loop :: "nat \<Rightarrow> bytes \<Rightarrow> int \<Rightarrow> netlink_world \<Rightarrow> (netlink_world, unit) outcome" where
  "message_loop this nh len w =
     (if \<not> NLMSG_OK nh len then Return () w
      else let h = get_nlmsghdr nh; step = NLMSG_ALIGN (nlmsg_len h) in
        bindO (SendNetlinkReply this nh (nl_log_type (nlmsg_type h) w)) (\<lambda>_ w.
        if step = 0 then Block w
        else message_loop this (drop (unat step) nh) (len - uint step) w))"
  by auto

termination
proof (relation "measure (\<lambda>(this, nh, len, w). nat len)", goal_cases)
  case (2 this nh len w h step u v)
  then have "uint step \<noteq> 0" "16 \<le> len" by (auto simp: NLMSG_OK_def uint_0_iff)
  moreover have "0 < uint step" using calculation(1) uint_ge_0 [of step] by linarith
  ultimately show ?case by simp
qed simp

declare message_loop.simps [simp del]

definition ProcessNetlinkMessage :: "nat \<Rightarrow> int \<Rightarrow> netlink_world \<Rightarrow> (netlink_world, unit) outcome" where
  "ProcessNetlinkMessage this len w = (case nt_objs w this of None \<Rightarrow> Undef | Some ob \<Rightarrow>
     message_loop this (nt_buffer ob) len w)"

section \<open>Queries\<close>

text \<open>
  \<open>time(NULL)\<close>, \<open>getpid()\<close> and the result of \<open>sendmsg\<close> are arguments; the request is a header
  and one byte of \<open>struct rtgenmsg\<close>, the family \<open>AF_UNSPEC\<close>.
\<close>

definition nl_request :: "u16 \<Rightarrow> u32 \<Rightarrow> u32 \<Rightarrow> bytes" where
  "nl_request query sq pid = put_nlmsghdr \<lparr>nlmsg_len = NLMSG_LENGTH 1, nlmsg_type = query,
     nlmsg_flags = NLM_F_REQUEST OR NLM_F_DUMP, nlmsg_seq = sq, nlmsg_pid = pid\<rparr> @ [0]"

definition next_seq :: "int \<Rightarrow> u32 \<Rightarrow> u32" where
  "next_seq now sq = (if uint (sq + 1) \<ge> now - 3600 * 24 then 1 else sq + 1)"

record netlink_env =
  ne_pid :: u32
  ne_now :: int
  ne_sendmsg :: "bytes \<Rightarrow> int option"
  ne_strerror :: "int \<Rightarrow> string"

definition SendNetlinkQuery ::
  "netlink_env \<Rightarrow> nat \<Rightarrow> nat \<Rightarrow> netlink_world \<Rightarrow> (netlink_world, unit) outcome" where
  "SendNetlinkQuery env this a w =
     bindO (nl_event a w) (\<lambda>(e, ty, q, sq, rs) w.
     if q \<notin> set query_types
     then Return () (sys_log Level_Error ''%s: invalid query type: %d'' [nt_name, ArgI (uint q)] w)
     else case nt_objs w this of None \<Rightarrow> Undef | Some ob \<Rightarrow>
       let sq = next_seq (ne_now env) (nt_seq ob);
           w = nt_update this (\<lambda>ob. ob\<lparr>nt_seq := sq\<rparr>) w;
           request = nl_request q sq (ne_pid env)
       in bindO (nl_assign a (e\<lparr>ev_class := EvNetlink ty q sq rs\<rparr>) w) (\<lambda>_ w.
          case ne_sendmsg env request of
            None \<Rightarrow> Return () (w\<lparr>nt_sent := nt_sent w @ [request]\<rparr>)
          | Some err \<Rightarrow> Return () (sys_log Level_Error ''%s: Unable to send NL message: %s''
              [nt_name, ArgS (ne_strerror env err)] w)))"

definition ProcessEvent ::
  "netlink_env \<Rightarrow> nat \<Rightarrow> nat \<Rightarrow> netlink_world \<Rightarrow> (netlink_world, unit) outcome" where
  "ProcessEvent env this a w =
     bindO (nl_event a w) (\<lambda>(e, ty, q, sq, rs) w.
     bindO (case ty of NL_Query \<Rightarrow> SendNetlinkQuery env this a w
            | NL_RouteWatch \<Rightarrow> Return () w) (\<lambda>_ w.
     bindO (ev_op (ev_write a (\<lambda>e. e\<lparr>ev_src := ev_dst e, ev_dst := ev_src e\<rparr>)) w) (\<lambda>_ w.
     Return () (nt_update this (\<lambda>ob. ob\<lparr>nt_events := nt_events ob @ [a]\<rparr>) w))))"

section \<open>The thread\<close>

text \<open>\<open>sock\<close> and \<open>bound\<close> are the results of \<open>socket\<close> and \<open>bind\<close>: an errno value or success.\<close>

definition csThreadNetlink_ctor ::
  "pthread_env \<Rightarrow> int + int \<Rightarrow> int option \<Rightarrow> nat \<Rightarrow> client_ptr \<Rightarrow> nat \<Rightarrow> netlink_world \<Rightarrow>
   (netlink_world, unit) outcome" where
  "csThreadNetlink_ctor env sock bound page parent this w =
     bindO (csThread_ctor env this CS_THREAD_STACK_SIZE w) (\<lambda>_ w.
     if nt_instance w \<noteq> None then abandon this (csException_es EEXIST ''csThreadNetlink'') w
     else
       let ob = \<lparr>nt_parent = parent, nt_events = [], nt_fd = -1, nt_buffer = [], nt_seq = 0\<rparr>;
           w = w\<lparr>nt_instance := Some this\<rparr>
       in case sock of
            Inl err \<Rightarrow> Return () (sys_log Level_Error ''%s: socket: %s'' [nt_name, ArgS (pt_strerror env err)]
              (w\<lparr>nt_objs := (nt_objs w)(this \<mapsto> ob)\<rparr>))
          | Inr fd \<Rightarrow> let w = w\<lparr>nt_open := nt_open w @ [fd]\<rparr> in (case bound of
                Some err \<Rightarrow> Return () (sys_log Level_Error ''%s: bind: %s'' [nt_name, ArgS (pt_strerror env err)]
                  (w\<lparr>nt_objs := (nt_objs w)(this \<mapsto> ob\<lparr>nt_fd := fd\<rparr>)\<rparr>))
              | None \<Rightarrow> Return () (sys_log Level_Debug ''%s: Initialized.'' [nt_name]
                  (w\<lparr>nt_objs := (nt_objs w)(this \<mapsto> ob\<lparr>nt_fd := fd, nt_buffer := replicate page 0\<rparr>)\<rparr>))))"

definition csThreadNetlink_dtor :: "pthread_env \<Rightarrow> nat \<Rightarrow> netlink_world \<Rightarrow> (netlink_world, unit) outcome" where
  "csThreadNetlink_dtor env this w =
     bindO (csThread_Join env this w) (\<lambda>_ w.
     case nt_objs w this of None \<Rightarrow> Undef | Some ob \<Rightarrow>
     let w = (if nt_instance w \<noteq> Some this \<or> nt_fd ob = -1 then w
              else w\<lparr>nt_open := remove1 (nt_fd ob) (nt_open w)\<rparr>)
     in bindO (ev_op (csEventClient_dtor this) w) (\<lambda>_ w.
        Return () (set_thread this None (w\<lparr>nt_objs := (nt_objs w)(this := None)\<rparr>))))"

text \<open>
  One turn of the loop in \<open>Entry\<close>. The input is what \<open>recvmsg\<close> gives, an error number or a
  datagram, of which the buffer takes as much as it holds, and how the wait for an event goes
  (\<open>EventPopWait\<close>). The result says whether the loop goes on.
\<close>

definition EVENT_TIMEOUT_MS :: int where "EVENT_TIMEOUT_MS = 500"

definition netlink_handle :: "netlink_env \<Rightarrow> nat \<Rightarrow> nat \<Rightarrow> netlink_world \<Rightarrow> (netlink_world, bool) outcome" where
  "netlink_handle env this a w =
     bindO (ev_op (ev_read a) w) (\<lambda>e w.
     if ev_id e = csEVENT_QUIT
     then bindO (ev_op (EventDestroy a) (sys_log Level_Debug ''Netlink thread terminated.'' [] w))
            (\<lambda>_ w. Return False w)
     else if ev_id e = csEVENT_NETLINK then bindO (ProcessEvent env this a w) (\<lambda>_ w. Return True w)
     else bindO (ev_op (EventDestroy a) (sys_log Level_Debug ''csThreadNetlink: unhandled event: %u''
            [ArgI (uint (ev_id e))] w)) (\<lambda>_ w. Return True w))"

record recv_input =
  ri_recv :: "int + bytes"
  ri_now :: timespec
  ri_waits :: "timespec option \<Rightarrow> (int \<times> (ev_world \<Rightarrow> ev_world)) list"

definition netlink_turn ::
  "netlink_env \<Rightarrow> nat \<Rightarrow> recv_input \<Rightarrow> netlink_world \<Rightarrow> (netlink_world, bool) outcome" where
  "netlink_turn env this inp w = (case nt_objs w this of None \<Rightarrow> Undef | Some ob \<Rightarrow>
     (case ri_recv inp of
        Inl err \<Rightarrow>
          if err \<noteq> EAGAIN \<and> err \<noteq> EWOULDBLOCK
          then Return False (sys_log Level_Error ''%s: recvmsg: %s'' [nt_name, ArgS (ne_strerror env err)] w)
          else bindO (ev_op (EventPopWait this EVENT_TIMEOUT_MS (ri_now inp) (ri_waits inp)) w) (\<lambda>event w.
               case event of None \<Rightarrow> Return True w | Some a \<Rightarrow> netlink_handle env this a w)
      | Inr bs \<Rightarrow>
          let bs = take (length (nt_buffer ob)) bs in
          bindO (ProcessNetlinkMessage this (int (length bs))
            (nt_update this (\<lambda>ob. ob\<lparr>nt_buffer := bs @ drop (length bs) (nt_buffer ob)\<rparr>) w)) (\<lambda>_ w.
          Return True w)))"

fun netlink_loop ::
  "netlink_env \<Rightarrow> nat \<Rightarrow> recv_input list \<Rightarrow> netlink_world \<Rightarrow> (netlink_world, unit option) outcome" where
  "netlink_loop env this [] w = Return None w"
| "netlink_loop env this (i # is) w = bindO (netlink_turn env this i w) (\<lambda>go w.
     if go then netlink_loop env this is w else Return (Some ()) w)"

definition csThreadNetlink_Entry ::
  "netlink_env \<Rightarrow> nat \<Rightarrow> recv_input list \<Rightarrow> netlink_world \<Rightarrow> (netlink_world, unit option) outcome" where
  "csThreadNetlink_Entry env this inputs w =
     netlink_loop env this inputs (sys_log Level_Debug ''Netlink thread started.'' [] w)"

end
