(* ===== verification/Cs_Netlink_Properties.thy ===== *)
theory Cs_Netlink_Properties
  imports Cs_Netlink
begin

unbundle bit_operations_syntax

text \<open>
  What the netlink thread does with queries and with the messages it receives: the header
  round trip and the walk over the messages of a datagram; that the answers to a query reach
  the client that asked, in order; what is lost or read out of bounds; and that the thread
  object exists once.
\<close>

section \<open>Messages in a datagram\<close>

lemma length_put_u16 [simp]: "length (put_u16 w) = 2"
  by (simp add: put_u16_def)

lemma get_put_u16 [simp]: "get_u16 (put_u16 w) = w"
  using unsigned_less [of w, where ?'a = nat] by (simp add: get_u16_def put_u16_def le_value_le_bytes)

lemma length_put_nlmsghdr [simp]: "length (put_nlmsghdr h) = 16"
  by (simp add: put_nlmsghdr_def)

lemma get_put_nlmsghdr [simp]: "get_nlmsghdr (put_nlmsghdr h @ rest) = h"
  by (cases h) (simp add: get_nlmsghdr_def put_nlmsghdr_def)

lemma unat_NLMSG_ALIGN:
  assumes "unat l + 3 < 2 ^ 32"
  shows "unat (NLMSG_ALIGN l) = (unat l + 3) div 4 * 4"
proof -
  have "NLMSG_ALIGN l = push_bit 2 (drop_bit 2 (l + 3))"
  proof (rule bit_word_eqI)
    fix n
    assume "n < LENGTH(32)"
    have three: "(3::u32) = mask 2" by (simp add: mask_eq_exp_minus_1)
    have "bit (NLMSG_ALIGN l) n \<longleftrightarrow> n < 32 \<and> 2 \<le> n \<and> bit (l + 3) n"
      unfolding NLMSG_ALIGN_def three by (auto simp: bit_simps)
    moreover have "2 \<le> n \<Longrightarrow> Suc (Suc (n - 2)) = n" by simp
    ultimately show "bit (NLMSG_ALIGN l) n = bit (push_bit 2 (drop_bit 2 (l + 3))) n"
      by (auto simp: bit_simps)
  qed
  moreover have "unat (l + 3) = unat l + 3"
    using assms by (simp add: unat_word_ariths(1))
  moreover have "unat (push_bit 2 (drop_bit 2 x)) = take_bit 32 (push_bit 2 (drop_bit 2 (unat x)))" for x :: u32
    using unsigned_less [of x, where ?'a = nat]
    by (simp only: unsigned_push_bit_eq unsigned_drop_bit_eq) (simp add: take_bit_nat_eq_self)
  moreover have "(unat l + 3) div 4 * 4 < 2 ^ 32" using assms by linarith
  ultimately show ?thesis
    by (simp only: push_bit_nat_def drop_bit_nat_def take_bit_nat_def) simp
qed

type_synonym nlmsg = "nlmsghdr \<times> bytes"

definition nlmsg_wf :: "nlmsg \<Rightarrow> bool" where
  "nlmsg_wf m \<longleftrightarrow> unat (nlmsg_len (fst m)) = 16 + length (snd m)"

definition nlmsg_bytes :: "nlmsg \<Rightarrow> bytes" where
  "nlmsg_bytes m = put_nlmsghdr (fst m) @ snd m"

definition nlmsg_padded :: "nlmsg \<Rightarrow> bytes" where
  "nlmsg_padded m = nlmsg_bytes m @
     replicate ((length (nlmsg_bytes m) + 3) div 4 * 4 - length (nlmsg_bytes m)) 0"

definition datagram :: "nlmsg list \<Rightarrow> bytes" where
  "datagram ms = concat (map nlmsg_padded ms)"

text \<open>Each message of the datagram is handed on, with what follows it in the buffer.\<close>

fun deliver :: "nat \<Rightarrow> nlmsg list \<Rightarrow> bytes \<Rightarrow> netlink_world \<Rightarrow> (netlink_world, unit) outcome" where
  "deliver this [] rest w = Return () w"
| "deliver this (m # ms) rest w =
     bindO (SendNetlinkReply this (datagram (m # ms) @ rest) (nl_log_type (nlmsg_type (fst m)) w))
       (\<lambda>_ w. deliver this ms rest w)"

lemma datagram_simps [simp]:
  "datagram [] = []" "datagram (m # ms) = nlmsg_padded m @ datagram ms"
  by (simp_all add: datagram_def)

lemma length_nlmsg_bytes [simp]: "length (nlmsg_bytes m) = 16 + length (snd m)"
  by (simp add: nlmsg_bytes_def)

lemma length_nlmsg_padded: "length (nlmsg_padded m) = (19 + length (snd m)) div 4 * 4"
proof -
  have "k \<le> (k + 3) div 4 * 4" for k :: nat by linarith
  from this [of "16 + length (snd m)"] show ?thesis by (simp add: nlmsg_padded_def add.commute)
qed

lemma get_hdr_padded [simp]: "get_nlmsghdr (nlmsg_padded m @ rest) = fst m"
  by (simp add: nlmsg_padded_def nlmsg_bytes_def)

lemma message_loop_deliver:
  assumes "\<forall>m \<in> set ms. nlmsg_wf m" "length (datagram ms) < 2 ^ 31"
  shows "message_loop this (datagram ms @ rest) (int (length (datagram ms))) w = deliver this ms rest w"
  using assms
proof (induction ms arbitrary: w)
  case Nil
  then show ?case by (subst message_loop.simps) (simp add: NLMSG_OK_def)
next
  case (Cons m ms)
  let ?l = "nlmsg_len (fst m)"
  have wf: "unat ?l = 16 + length (snd m)" using Cons.prems(1) by (simp add: nlmsg_wf_def)
  have len: "length (nlmsg_padded m) = (unat ?l + 3) div 4 * 4"
    using wf by (simp add: length_nlmsg_padded)
  have small: "unat ?l \<le> length (nlmsg_padded m)" "length (nlmsg_padded m) < 2 ^ 31"
    using Cons.prems(2) len by simp_all
  then have al: "unat (NLMSG_ALIGN ?l) = length (nlmsg_padded m)"
    using unat_NLMSG_ALIGN [of ?l] len by simp
  have ok: "NLMSG_OK (datagram (m # ms) @ rest) (int (length (datagram (m # ms))))"
    using small(1) wf by (simp add: NLMSG_OK_def uint_nat)
  have "unat (NLMSG_ALIGN ?l) \<noteq> 0" using al small wf by linarith
  then have nz: "NLMSG_ALIGN ?l \<noteq> 0" by auto
  have "int (length (datagram (m # ms))) - uint (NLMSG_ALIGN ?l) = int (length (datagram ms))"
    using al by (simp add: uint_nat)
  then show ?case using ok nz al Cons.IH Cons.prems
    by (subst message_loop.simps) (simp add: Let_def)
qed

section \<open>Answers\<close>

text \<open>A client to which an event can be dispatched, and what that does.\<close>

definition reachable_client :: "ev_world \<Rightarrow> nat \<Rightarrow> bool" where
  "reachable_client v c \<longleftrightarrow> event_client_mutex v = MutexFree \<and> c \<in> set (event_client v) \<and>
     (\<exists>ob. ev_clients v c = Some ob \<and> event_enable ob \<and> event_queue_mutex ob = MutexFree)"

definition queue_of :: "ev_world \<Rightarrow> nat \<Rightarrow> nat list" where
  "queue_of v c = (case ev_clients v c of None \<Rightarrow> [] | Some ob \<Rightarrow> event_queue ob)"

lemma dispatch_reachable:
  assumes "reachable_client v c" "ev_heap v a = Some e" "\<not> IsExclusive e" "\<not> IsHighPriority e"
  shows "\<exists>v'. EventDispatch this a (ClientAt c) v = Return () v' \<and>
    ev_heap v' = (ev_heap v)(a \<mapsto> e\<lparr>ev_dst := ClientAt c, ev_src := ClientAt this\<rparr>) \<and>
    queue_of v' c = queue_of v c @ [a] \<and> reachable_client v' c"
proof -
  obtain ob where ob: "ev_clients v c = Some ob" "event_enable ob" "event_queue_mutex ob = MutexFree"
    "event_client_mutex v = MutexFree" "c \<in> set (event_client v)"
    using assms(1) by (auto simp: reachable_client_def)
  show ?thesis using ob assms(2-4)
    by (simp add: EventDispatch_def mutex_lock_def mutex_unlock_def EventPush_def ev_prims queue_of_def
        reachable_client_def)
qed

text \<open>
  \<open>query_waits w this a c sq rs\<close>: the thread waits for answers with sequence number \<open>sq\<close> to
  the query \<open>a\<close> of client \<open>c\<close>, has the replies \<open>rs\<close> so far, and no other query waits for
  that number.
\<close>

definition nl_live :: "ev_world \<Rightarrow> nat \<Rightarrow> bool" where
  "nl_live v b \<longleftrightarrow> (\<exists>e ty q sq rs. ev_heap v b = Some e \<and> ev_class e = EvNetlink ty q sq rs)"

definition nl_query_for :: "ev_world \<Rightarrow> u32 \<Rightarrow> nat \<Rightarrow> bool" where
  "nl_query_for v sq b \<longleftrightarrow> (\<exists>e q rs. ev_heap v b = Some e \<and> ev_class e = EvNetlink NL_Query q sq rs)"

definition query_waits :: "netlink_world \<Rightarrow> nat \<Rightarrow> nat \<Rightarrow> nat \<Rightarrow> u32 \<Rightarrow> bytes list \<Rightarrow> bool" where
  "query_waits w this a c sq rs \<longleftrightarrow> (\<exists>ob e q.
     nt_objs w this = Some ob \<and> a \<in> set (nt_events ob) \<and> distinct (nt_events ob) \<and>
     ev_heap (sw_ev w) a = Some e \<and> ev_class e = EvNetlink NL_Query q sq rs \<and> ev_dst e = ClientAt c \<and>
     \<not> IsExclusive e \<and> \<not> IsHighPriority e \<and>
     (\<forall>b \<in> set (nt_events ob). nl_live (sw_ev w) b \<and> (b \<noteq> a \<longrightarrow> \<not> nl_query_for (sw_ev w) sq b)))"

lemma nl_event_eq:
  "ev_heap (sw_ev w) a = Some e \<Longrightarrow> ev_class e = EvNetlink ty q sq rs \<Longrightarrow>
   nl_event a w = Return (e, ty, q, sq, rs) w"
  by (simp add: nl_event_def ev_op_def zoomO_def ev_read_def)

lemma reply_to_eq:
  assumes "reachable_client (sw_ev w) c" "ev_heap (sw_ev w) a = Some e" "ev_class e = EvNetlink ty q sq rs"
    "ev_dst e = ClientAt c" "\<not> IsExclusive e" "\<not> IsHighPriority e"
    "unat (NLMSG_LENGTH (nlmsg_len (get_nlmsghdr nh))) \<le> length nh"
  shows "\<exists>v'. reply_to this a nh w = Return () (w\<lparr>sw_ev := v'\<rparr>) \<and>
    ev_heap v' = (ev_heap (sw_ev w))(a \<mapsto> e\<lparr>ev_class := EvNetlink ty q sq
      (rs @ [take (unat (NLMSG_LENGTH (nlmsg_len (get_nlmsghdr nh)))) nh]), ev_src := ClientAt this\<rparr>) \<and>
    queue_of v' c = queue_of (sw_ev w) c @ [a] \<and> reachable_client v' c"
proof -
  let ?r = "take (unat (NLMSG_LENGTH (nlmsg_len (get_nlmsghdr nh)))) nh"
  let ?e = "e\<lparr>ev_class := EvNetlink ty q sq (rs @ [?r])\<rparr>"
  let ?v = "(sw_ev w)\<lparr>ev_heap := (ev_heap (sw_ev w))(a \<mapsto> ?e)\<rparr>"
  have add: "AddReply a nh w = Return () (w\<lparr>sw_ev := ?v\<rparr>)"
    using assms(2,3,7) by (simp add: AddReply_def Let_def nl_event_eq nl_assign_def ev_op_def zoomO_def ev_write_def)
  have v: "reachable_client ?v c" "ev_heap ?v a = Some ?e" "\<not> IsExclusive ?e" "\<not> IsHighPriority ?e"
    "queue_of ?v c = queue_of (sw_ev w) c"
    using assms(1,5,6) by (simp_all add: reachable_client_def queue_of_def)
  from dispatch_reachable [OF v(1-4), of this] obtain v' where
    v': "EventDispatch this a (ClientAt c) ?v = Return () v'"
    "ev_heap v' = (ev_heap ?v)(a \<mapsto> ?e\<lparr>ev_dst := ClientAt c, ev_src := ClientAt this\<rparr>)"
    "queue_of v' c = queue_of (sw_ev w) c @ [a]" "reachable_client v' c"
    unfolding v(5) by blast
  have "e\<lparr>ev_class := k, ev_dst := ClientAt c, ev_src := s\<rparr> = e\<lparr>ev_class := k, ev_src := s\<rparr>" for k s
    using assms(4) by (cases e) simp
  moreover have "reply_to this a nh w = Return () (w\<lparr>sw_ev := v'\<rparr>)"
    using v'(1) assms(4) by (simp add: reply_to_def add ev_op_def zoomO_def ev_read_def)
  ultimately show ?thesis using v'(2-4) by (intro exI [of _ v']) simp
qed

lemma query_loop_first:
  assumes "distinct as" "a \<in> set as" "reachable_client (sw_ev w) c"
    "ev_heap (sw_ev w) a = Some e" "ev_class e = EvNetlink NL_Query q (nlmsg_seq (get_nlmsghdr nh)) rs"
    "\<forall>b \<in> set as. nl_live (sw_ev w) b \<and> (b \<noteq> a \<longrightarrow> \<not> nl_query_for (sw_ev w) (nlmsg_seq (get_nlmsghdr nh)) b)"
    "reply_to this a nh w = Return () w'"
  shows "query_loop this nh as w = Return (if last_reply (get_nlmsghdr nh) then remove1 a as else as) w'"
  using assms(1,2,6)
proof (induction as)
  case (Cons b bs)
  show ?case
  proof (cases "b = a")
    case True
    then show ?thesis using assms(4,5,7) by (simp add: nl_event_eq)
  next
    case False
    have "nl_live (sw_ev w) b" using Cons.prems(3) by simp
    then obtain e' ty q' sq' rs' where b: "ev_heap (sw_ev w) b = Some e'" "ev_class e' = EvNetlink ty q' sq' rs'"
      unfolding nl_live_def by blast
    then have "ty \<noteq> NL_Query \<or> sq' \<noteq> nlmsg_seq (get_nlmsghdr nh)"
      using Cons.prems(3) False by (auto simp: nl_query_for_def)
    then show ?thesis using Cons False b by (auto simp: nl_event_eq)
  qed
qed simp

text \<open>The replies that an event holds, and the messages in them without the extra bytes.\<close>

definition replies_of :: "ev_world \<Rightarrow> nat \<Rightarrow> bytes list" where
  "replies_of v a = (case ev_heap v a of Some e \<Rightarrow> (case ev_class e of EvNetlink ty q sq rs \<Rightarrow> rs | _ \<Rightarrow> [])
     | None \<Rightarrow> [])"

definition reply_text :: "bytes \<Rightarrow> bytes" where
  "reply_text r = take (unat (nlmsg_len (get_nlmsghdr r))) r"

definition answers :: "u32 \<Rightarrow> nlmsghdr \<Rightarrow> bool" where
  "answers sq h \<longleftrightarrow> nlmsg_seq h = sq \<and> nlmsg_type h \<noteq> RTM_NEWROUTE \<and> nlmsg_type h \<noteq> RTM_DELROUTE \<and>
     nlmsg_type h \<noteq> NLMSG_NOOP"

lemma send_reply_answers:
  assumes q: "query_waits w this a c sq rs" "reachable_client (sw_ev w) c" and h: "answers sq (get_nlmsghdr nh)"
    and room: "unat (NLMSG_LENGTH (nlmsg_len (get_nlmsghdr nh))) \<le> length nh"
  shows "\<exists>w' ob. SendNetlinkReply this nh w = Return () w' \<and> reachable_client (sw_ev w') c \<and>
    queue_of (sw_ev w') c = queue_of (sw_ev w) c @ [a] \<and>
    replies_of (sw_ev w') a = rs @ [take (unat (NLMSG_LENGTH (nlmsg_len (get_nlmsghdr nh)))) nh] \<and>
    nt_objs w' this = Some ob \<and> (a \<in> set (nt_events ob) \<longleftrightarrow> \<not> last_reply (get_nlmsghdr nh)) \<and>
    (\<not> last_reply (get_nlmsghdr nh) \<longrightarrow> query_waits w' this a c sq
       (rs @ [take (unat (NLMSG_LENGTH (nlmsg_len (get_nlmsghdr nh)))) nh]))"
proof -
  let ?r = "take (unat (NLMSG_LENGTH (nlmsg_len (get_nlmsghdr nh)))) nh"
  obtain ob e q where w: "nt_objs w this = Some ob" "a \<in> set (nt_events ob)" "distinct (nt_events ob)"
    "ev_heap (sw_ev w) a = Some e" "ev_class e = EvNetlink NL_Query q sq rs" "ev_dst e = ClientAt c"
    "\<not> IsExclusive e" "\<not> IsHighPriority e"
    "\<forall>b \<in> set (nt_events ob). nl_live (sw_ev w) b \<and> (b \<noteq> a \<longrightarrow> \<not> nl_query_for (sw_ev w) sq b)"
    using assms(1) unfolding query_waits_def by blast
  obtain v where v: "reply_to this a nh w = Return () (w\<lparr>sw_ev := v\<rparr>)"
    "ev_heap v = (ev_heap (sw_ev w))(a \<mapsto> e\<lparr>ev_class := EvNetlink NL_Query q sq (rs @ [?r]), ev_src := ClientAt this\<rparr>)"
    "queue_of v c = queue_of (sw_ev w) c @ [a]" "reachable_client v c"
    using reply_to_eq [OF assms(2) w(4-8) room] by blast
  let ?as = "if last_reply (get_nlmsghdr nh) then remove1 a (nt_events ob) else nt_events ob"
  have sq: "nlmsg_seq (get_nlmsghdr nh) = sq" using h by (simp add: answers_def)
  have "query_loop this nh (nt_events ob) w = Return ?as (w\<lparr>sw_ev := v\<rparr>)"
    using query_loop_first [OF w(3,2) assms(2) w(4), of q nh rs] w(5,9) v(1) sq by simp
  then have run: "SendNetlinkReply this nh w =
      Return () (nt_update this (\<lambda>ob. ob\<lparr>nt_events := ?as\<rparr>) (w\<lparr>sw_ev := v\<rparr>))"
    using w(1) h by (simp add: SendNetlinkReply_def answers_def)
  let ?w = "nt_update this (\<lambda>ob. ob\<lparr>nt_events := ?as\<rparr>) (w\<lparr>sw_ev := v\<rparr>)"
  have ob': "nt_objs ?w this = Some (ob\<lparr>nt_events := ?as\<rparr>)" using w(1) by (simp add: nt_update_def)
  have live: "nl_live v b" if "nl_live (sw_ev w) b" for b
    using that v(2) by (auto simp: nl_live_def)
  have other: "nl_query_for v sq b \<longleftrightarrow> nl_query_for (sw_ev w) sq b" if "b \<noteq> a" for b
    using that v(2) by (simp add: nl_query_for_def)
  have "query_waits ?w this a c sq (rs @ [?r])" if "\<not> last_reply (get_nlmsghdr nh)"
    using that ob' w v(2) live other unfolding query_waits_def by (simp add: nt_update_def)
  moreover have "a \<in> set ?as \<longleftrightarrow> \<not> last_reply (get_nlmsghdr nh)" using w(2,3) by simp
  moreover have "sw_ev ?w = v" by (simp add: nt_update_def)
  ultimately show ?thesis using run ob' v(2-4)
    by (intro exI [of _ ?w] exI [of _ "ob\<lparr>nt_events := ?as\<rparr>"]) (simp add: replies_of_def)
qed

lemma query_waits_log: "query_waits (nl_log_type t w) this a c sq rs = query_waits w this a c sq rs"
  "sw_ev (nl_log_type t w) = sw_ev w"
  by (auto simp: nl_log_type_def query_waits_def sys_log_def)

lemma query_waits_replies: "query_waits w this a c sq rs \<Longrightarrow> replies_of (sw_ev w) a = rs"
  by (auto simp: query_waits_def replies_of_def)

lemma unat_NLMSG_LENGTH: "unat l < 2 ^ 31 \<Longrightarrow> unat (NLMSG_LENGTH l) = unat l + 16"
  by (simp add: NLMSG_LENGTH_def unat_word_ariths(1))

lemma reply_text_copy:
  assumes "nlmsg_wf m" "unat (nlmsg_len (fst m)) < 2 ^ 31"
  shows "reply_text (take (unat (NLMSG_LENGTH (nlmsg_len (fst m)))) (nlmsg_padded m @ rest)) = nlmsg_bytes m"
proof -
  have l: "unat (nlmsg_len (fst m)) = length (nlmsg_bytes m)" using assms(1) by (simp add: nlmsg_wf_def)
  have "take (length (nlmsg_bytes m) + 16) (nlmsg_padded m @ rest) =
      nlmsg_bytes m @ take 16 (drop (length (nlmsg_bytes m)) (nlmsg_padded m @ rest))"
    by (simp add: nlmsg_padded_def)
  then show ?thesis using l unat_NLMSG_LENGTH [OF assms(2)]
    by (simp add: reply_text_def nlmsg_bytes_def)
qed

lemma room_for_copy:
  assumes "nlmsg_wf m" "unat (nlmsg_len (fst m)) < 2 ^ 31" "16 \<le> length rest"
  shows "unat (NLMSG_LENGTH (nlmsg_len (get_nlmsghdr (nlmsg_padded m @ mid @ rest)))) \<le>
    length (nlmsg_padded m @ mid @ rest)"
proof -
  have "k \<le> (k + 3) div 4 * 4" for k :: nat by linarith
  from this [of "16 + length (snd m)"] show ?thesis
    using assms unat_NLMSG_LENGTH [OF assms(2)] by (simp add: length_nlmsg_padded nlmsg_wf_def add.commute)
qed

lemma deliver_answers:
  assumes "query_waits w this a c sq rs" "reachable_client (sw_ev w) c" "ms \<noteq> []" "16 \<le> length rest"
    "\<forall>m \<in> set ms. nlmsg_wf m \<and> answers sq (fst m) \<and> unat (nlmsg_len (fst m)) < 2 ^ 31"
    "\<forall>m \<in> set (butlast ms). \<not> last_reply (fst m)"
  shows "\<exists>w' ob new. deliver this ms rest w = Return () w' \<and>
    queue_of (sw_ev w') c = queue_of (sw_ev w) c @ replicate (length ms) a \<and>
    replies_of (sw_ev w') a = rs @ new \<and> map reply_text new = map nlmsg_bytes ms \<and>
    nt_objs w' this = Some ob \<and> (a \<in> set (nt_events ob) \<longleftrightarrow> \<not> last_reply (fst (last ms)))"
  using assms
proof (induction ms arbitrary: w rs)
  case (Cons m ms)
  let ?nh = "datagram (m # ms) @ rest" and ?w = "nl_log_type (nlmsg_type (fst m)) w"
  let ?r = "take (unat (NLMSG_LENGTH (nlmsg_len (fst m)))) ?nh"
  have m: "nlmsg_wf m" "answers sq (fst m)" "unat (nlmsg_len (fst m)) < 2 ^ 31" using Cons.prems(5) by simp_all
  have w: "query_waits ?w this a c sq rs" "reachable_client (sw_ev ?w) c"
    using Cons.prems(1,2) by (simp_all add: query_waits_log)
  have hdr: "get_nlmsghdr ?nh = fst m" by simp
  have room: "unat (NLMSG_LENGTH (nlmsg_len (get_nlmsghdr ?nh))) \<le> length ?nh"
    using room_for_copy [OF m(1,3) Cons.prems(4), of "datagram ms"] by simp
  have ans: "answers sq (get_nlmsghdr ?nh)" using m(2) hdr by simp
  from send_reply_answers [OF w ans room] obtain w1 ob where
    w1: "SendNetlinkReply this ?nh ?w = Return () w1" "reachable_client (sw_ev w1) c"
    "queue_of (sw_ev w1) c = queue_of (sw_ev w) c @ [a]"
    "replies_of (sw_ev w1) a = rs @ [?r]" "nt_objs w1 this = Some ob"
    "a \<in> set (nt_events ob) \<longleftrightarrow> \<not> last_reply (fst m)"
    "\<not> last_reply (fst m) \<Longrightarrow> query_waits w1 this a c sq (rs @ [?r])"
    unfolding hdr query_waits_log(2) by blast
  have copy: "reply_text ?r = nlmsg_bytes m" using reply_text_copy [OF m(1,3), of "datagram ms @ rest"] by simp
  show ?case
  proof (cases "ms = []")
    case True
    then show ?thesis using w1 copy by (intro exI [of _ w1] exI [of _ ob] exI [of _ "[?r]"]) simp
  next
    case False
    then have "\<not> last_reply (fst m)" using Cons.prems(6) by simp
    from Cons.IH [OF w1(7) [OF this] w1(2) False Cons.prems(4)] False Cons.prems(5,6) obtain w' ob' new where
      w': "deliver this ms rest w1 = Return () w'"
      "queue_of (sw_ev w') c = queue_of (sw_ev w1) c @ replicate (length ms) a"
      "replies_of (sw_ev w') a = (rs @ [?r]) @ new" "map reply_text new = map nlmsg_bytes ms"
      "nt_objs w' this = Some ob'" "a \<in> set (nt_events ob') \<longleftrightarrow> \<not> last_reply (fst (last ms))"
      by auto
    then show ?thesis using w1(1,3) copy False
      by (intro exI [of _ w'] exI [of _ ob'] exI [of _ "?r # new"]) simp
  qed
qed simp

section \<open>Properties\<close>




text \<open>
  C39. A reply near the end of the buffer. \<open>AddReply\<close> copies 16 bytes more than the message, so
  an answer that ends within the last 16 bytes of the receive buffer is read beyond the
  allocation.
\<close>

theorem reply_overreads:
  assumes "nt_objs w this = Some ob" "nt_buffer ob = datagram [m] @ rest" "nlmsg_wf m"
    "length (datagram [m]) < 2 ^ 31" "length (nlmsg_bytes m) + 16 > length (nt_buffer ob)"
    "query_waits w this a c sq rs" "answers sq (fst m)"
  shows "ProcessNetlinkMessage this (int (length (datagram [m]))) w = Undef"
proof -
  let ?nh = "datagram [m] @ rest" and ?w = "nl_log_type (nlmsg_type (fst m)) w"
  have l: "unat (nlmsg_len (fst m)) = length (nlmsg_bytes m)" using assms(3) by (simp add: nlmsg_wf_def)
  have "length (nlmsg_bytes m) \<le> length (nlmsg_padded m)" by (simp add: nlmsg_padded_def)
  then have "unat (NLMSG_LENGTH (nlmsg_len (fst m))) > length ?nh"
    using l assms(2,4,5) unat_NLMSG_LENGTH [of "nlmsg_len (fst m)"] by simp
  then have bad: "reply_to this a ?nh v = Undef" for v
    by (simp add: reply_to_def AddReply_def Let_def)
  have "query_loop this ?nh as ?w = Undef"
    if "a \<in> set as" "\<forall>b \<in> set as. nl_live (sw_ev w) b \<and> (b \<noteq> a \<longrightarrow> \<not> nl_query_for (sw_ev w) sq b)" for as
    using that
  proof (induction as)
    case (Cons b as)
    have "nl_live (sw_ev w) b" using Cons.prems(2) by simp
    then obtain e ty q s r where b: "ev_heap (sw_ev w) b = Some e" "ev_class e = EvNetlink ty q s r"
      unfolding nl_live_def by blast
    show ?case
    proof (cases "b = a")
      case True
      then show ?thesis using b assms(6,7) bad
        by (auto simp: query_waits_def answers_def nl_event_eq query_waits_log(2))
    next
      case False
      then have "ty \<noteq> NL_Query \<or> s \<noteq> sq" using Cons.prems(2) b by (auto simp: nl_query_for_def)
      then show ?thesis using Cons False b assms(7) by (auto simp: nl_event_eq query_waits_log(2) answers_def)
    qed
  qed simp
  then have "SendNetlinkReply this ?nh ?w = Undef"
    using assms(1,6,7) query_waits_log(1) [of "nlmsg_type (fst m)" w this a c sq rs]
    by (auto simp: SendNetlinkReply_def query_waits_def answers_def nl_log_type_def sys_log_def)
  then have "deliver this [m] rest w = Undef" by simp
  then show ?thesis using message_loop_deliver [of "[m]" this rest w] assms(1-4)
    by (simp add: ProcessNetlinkMessage_def)
qed

text \<open>
  Multi-part answers and deletion. After a multi-part answer the client's queue holds the
  same event object several times. A client that destroys an event when it is done with it,
  as \<open>csMain\<close> and the threads do, frees it at the first part; unless the event was made
  persistent, taking the second part reads a deleted object.
\<close>

theorem shared_reply_dangles:
  assumes "ev_clients v c = Some ob" "event_queue_mutex ob = MutexFree" "event_queue ob = a # a # q"
    "ev_heap v a = Some e" "\<not> IsSticky e" "\<not> IsPersistent e"
  shows "\<exists>v1 v2. EventPop c v = Return (Some a) v1 \<and> EventDestroy a v1 = Return () v2 \<and> EventPop c v2 = Undef"
  using assms by (simp add: EventPop_def EventDestroy_def ev_prims)

section \<open>The thread object\<close>

definition netlink_ready :: "pthread_env \<Rightarrow> nat \<Rightarrow> netlink_world \<Rightarrow> bool" where
  "netlink_ready env this w \<longleftrightarrow> ev_wf (sw_ev w) \<and> this \<notin> set (event_client (sw_ev w)) \<and>
     pt_attr_init env = 0 \<and> pt_attr_setstacksize env CS_THREAD_STACK_SIZE = 0"

lemma csThread_Join_netlink:
  fixes w :: netlink_world
  assumes "csThread_Join env this w = Return () w'"
  shows "nt_instance w' = nt_instance w"
  using assms
  by (auto simp: csThread_Join_def Let_def set_thread_def sys_log_def split: option.splits if_splits)

lemma csThreadNetlink_dtor_frame:
  assumes "csThreadNetlink_dtor env p s = Return () t"
  shows "nt_instance t = nt_instance s"
proof -
  obtain w1 where w1: "csThread_Join env p s = Return () w1"
    using assms by (cases "csThread_Join env p s") (auto simp: csThreadNetlink_dtor_def)
  then obtain ob where ob: "nt_objs w1 p = Some ob"
    using assms by (cases "nt_objs w1 p") (auto simp: csThreadNetlink_dtor_def)
  let ?w2 = "if nt_instance w1 \<noteq> Some p \<or> nt_fd ob = -1 then w1
    else w1\<lparr>nt_open := remove1 (nt_fd ob) (nt_open w1)\<rparr>"
  have "bindO (ev_op (csEventClient_dtor p) ?w2) (\<lambda>_ w.
      Return () (set_thread p None (w\<lparr>nt_objs := (nt_objs w)(p := None)\<rparr>))) = Return () t"
    using assms w1 ob by (simp add: csThreadNetlink_dtor_def Let_def)
  then obtain w3 where w3: "ev_op (csEventClient_dtor p) ?w2 = Return () w3"
    "t = set_thread p None (w3\<lparr>nt_objs := (nt_objs w3)(p := None)\<rparr>)"
    by (cases "ev_op (csEventClient_dtor p) ?w2") auto
  obtain e where "w3 = ?w2\<lparr>sw_ev := e\<rparr>" using ev_op_frame [OF w3(1)] by blast
  then show ?thesis using w3(2) csThread_Join_netlink [OF w1] by (simp add: set_thread_def)
qed

interpretation netlink_single: singleton nt_instance "csThreadNetlink_ctor env sock bound page parent"
  "csThreadNetlink_dtor env" "netlink_ready env" for env sock bound page parent
proof (unfold_locales, goal_cases)
  case (1 p s t)
  obtain e where "csThread_ctor env p CS_THREAD_STACK_SIZE s = Return () (set_thread p
      (Some \<lparr>th_id = invalid_id, th_attr = Some CS_THREAD_STACK_SIZE\<rparr>) (s\<lparr>sw_ev := e\<rparr>))"
    using csThread_ctor_ok [of s p env CS_THREAD_STACK_SIZE] 1(1) by (auto simp: netlink_ready_def)
  then show ?case using 1(2) abandon_not_Return
    by (auto simp: csThreadNetlink_ctor_def Let_def set_thread_def sys_log_def
        split: if_splits sum.splits option.splits)
next
  case (2 p s)
  obtain e where e: "csThread_ctor env p CS_THREAD_STACK_SIZE s = Return () (set_thread p
      (Some \<lparr>th_id = invalid_id, th_attr = Some CS_THREAD_STACK_SIZE\<rparr>) (s\<lparr>sw_ev := e\<rparr>))"
    "ev_wf e" "ev_clients e p \<noteq> None"
    using csThread_ctor_ok [of s p env CS_THREAD_STACK_SIZE] 2(1) by (auto simp: netlink_ready_def)
  let ?s = "set_thread p (Some \<lparr>th_id = invalid_id, th_attr = Some CS_THREAD_STACK_SIZE\<rparr>) (s\<lparr>sw_ev := e\<rparr>)"
  have "\<exists>v. abandon p (csException_es EEXIST ''csThreadNetlink'') ?s =
      Throw (csException_es EEXIST ''csThreadNetlink'') v"
    using e(2,3) abandon_throws [of ?s p] by auto
  moreover have "nt_instance ?s = nt_instance s" by (simp add: set_thread_def)
  ultimately show ?case using e(1) 2(2) by (auto simp: csThreadNetlink_ctor_def csException_es_def)
next
  case (3 p s t)
  then show ?case by (rule csThreadNetlink_dtor_frame)
qed

text \<open>
  One netlink thread per process. After one netlink thread was created and destroyed, the
  next one is refused with \<open>EEXIST\<close>, because nothing resets the instance pointer.
\<close>

theorem netlink_thread_once:
  assumes "netlink_ready env p w" "csThreadNetlink_ctor env sock bound page parent p w = Return () w1"
    "csThreadNetlink_dtor env p w1 = Return () w2" "netlink_ready env r w2"
  shows "\<exists>e w3. csThreadNetlink_ctor env sock bound page parent r w2 = Throw e w3 \<and> eint e = EEXIST"
  using assms by (rule netlink_single.created_once)

section \<open>Instances\<close>

text \<open>A thread at address 7 that waits for the answers to the query 0 of the client 5.\<close>

definition done_msg :: nlmsg where
  "done_msg = (\<lparr>nlmsg_len = 16, nlmsg_type = NLMSG_DONE, nlmsg_flags = NLM_F_MULTI, nlmsg_seq = 9, nlmsg_pid = 0\<rparr>, [])"

definition asked :: csEvent where
  "asked = (csEventNetlink_ctor NL_Query 18)\<lparr>ev_src := ClientAt 7, ev_dst := ClientAt 5,
     ev_class := EvNetlink NL_Query 18 9 []\<rparr>"

definition nl_client :: csEventClient where
  "nl_client = \<lparr>event_enable = True, event_queue = [], event_queue_mutex = MutexFree\<rparr>"

definition nl_world :: "bytes \<Rightarrow> netlink_world" where
  "nl_world rest = \<lparr>sw_ev = ev_init\<lparr>ev_heap := [0 \<mapsto> asked], ev_next := 1, ev_clients := [5 \<mapsto> nl_client],
       event_client := [5], event_client_mutex := MutexFree\<rparr>,
     sw_threads = Map.empty, sw_joined = [], sw_log = [], nt_instance = Some 7,
     nt_objs = [7 \<mapsto> \<lparr>nt_parent = NullClient, nt_events = [0], nt_fd = 3, nt_buffer = datagram [done_msg] @ rest,
       nt_seq = 9\<rparr>], nt_open = [3], nt_sent = []\<rparr>"

lemma nl_world_simps [simp]:
  "nt_objs (nl_world rest) 7 = Some \<lparr>nt_parent = NullClient, nt_events = [0], nt_fd = 3,
     nt_buffer = datagram [done_msg] @ rest, nt_seq = 9\<rparr>"
  "ev_heap (sw_ev (nl_world rest)) = [0 \<mapsto> asked]" "ev_clients (sw_ev (nl_world rest)) = [5 \<mapsto> nl_client]"
  "event_client (sw_ev (nl_world rest)) = [5]" "event_client_mutex (sw_ev (nl_world rest)) = MutexFree"
  "nt_sent (nl_world rest) = []"
  by (simp_all add: nl_world_def)

lemma asked_facts [simp]:
  "ev_class asked = EvNetlink NL_Query 18 9 []" "ev_dst asked = ClientAt 5" "ev_src asked = ClientAt 7"
  "ev_id asked = csEVENT_NETLINK"
  "\<not> IsExclusive asked" "\<not> IsHighPriority asked" "\<not> IsSticky asked" "\<not> IsPersistent asked"
  by (simp_all add: asked_def csEventNetlink_ctor_def csEvent_ctor_def flag_bits Flag_None_def)

lemma nl_world_waits: "query_waits (nl_world rest) 7 0 5 9 []" "reachable_client (sw_ev (nl_world rest)) 5"
  by (simp_all add: query_waits_def nl_live_def nl_query_for_def reachable_client_def nl_client_def)

lemma done_msg_facts: "nlmsg_wf done_msg" "answers 9 (fst done_msg)" "last_reply (fst done_msg)"
  "length (datagram [done_msg]) = 16" "length (nlmsg_bytes done_msg) = 16"
  by (simp_all add: done_msg_def nlmsg_wf_def answers_def last_reply_def length_nlmsg_padded NLMSG_DONE_def
      RTM_NEWROUTE_def RTM_DELROUTE_def NLMSG_NOOP_def)




theorem reply_overreads_witness: "ProcessNetlinkMessage 7 16 (nl_world []) = Undef"
  using reply_overreads [of "nl_world []" 7 _ done_msg "[]" 0 5 9 "[]", OF nl_world_simps(1)]
    nl_world_waits [of "[]"] done_msg_facts by simp

theorem shared_reply_dangles_witness:
  "\<exists>v1 v2. EventPop 5 (ev_init\<lparr>ev_heap := [0 \<mapsto> asked], ev_clients := [5 \<mapsto> nl_client\<lparr>event_queue := [0, 0]\<rparr>]\<rparr>) =
      Return (Some 0) v1 \<and> EventDestroy 0 v1 = Return () v2 \<and> EventPop 5 v2 = Undef"
  by (rule shared_reply_dangles [of _ 5 "nl_client\<lparr>event_queue := [0, 0]\<rparr>" 0 "[]" asked]) (simp_all add: nl_client_def)

definition nl_start :: netlink_world where
  "nl_start = \<lparr>sw_ev = ev_init, sw_threads = Map.empty, sw_joined = [], sw_log = [], nt_instance = None,
     nt_objs = Map.empty, nt_open = [], nt_sent = []\<rparr>"

theorem netlink_thread_once_witness:
  "\<exists>w1 w2 e w3. csThreadNetlink_ctor good_pthreads (Inr 3) None 4096 NullClient 7 nl_start = Return () w1 \<and>
     csThreadNetlink_dtor good_pthreads 7 w1 = Return () w2 \<and>
     csThreadNetlink_ctor good_pthreads (Inr 3) None 4096 NullClient 7 w2 = Throw e w3 \<and> eint e = EEXIST"
proof -
  have ready: "netlink_ready good_pthreads 7 nl_start"
    by (simp add: netlink_ready_def nl_start_def good_pthreads_def CS_THREAD_STACK_SIZE_def)
  obtain e1 e2 where e: "csEventClient_ctor 7 ev_init = Return () e1" "csEventClient_dtor 7 e1 = Return () e2"
    "ev_wf e2" "event_client e2 = []"
    using client_ctor_dtor [of ev_init 7] by auto
  obtain w1 where w1: "csThreadNetlink_ctor good_pthreads (Inr 3) None 4096 NullClient 7 nl_start = Return () w1"
    "sw_ev w1 = e1" "sw_threads w1 7 = Some \<lparr>th_id = invalid_id, th_attr = Some CS_THREAD_STACK_SIZE\<rparr>"
    "nt_objs w1 7 = Some \<lparr>nt_parent = NullClient, nt_events = [], nt_fd = 3, nt_buffer = replicate 4096 0, nt_seq = 0\<rparr>"
    "nt_instance w1 = Some 7"
    using e(1) by (simp add: csThreadNetlink_ctor_def csThread_ctor_def ev_op_def zoomO_def nl_start_def Let_def
        good_pthreads_def CS_THREAD_STACK_SIZE_def set_thread_def sys_log_def)
  then obtain w2 where w2: "csThreadNetlink_dtor good_pthreads 7 w1 = Return () w2" "sw_ev w2 = e2"
    using e(2) by (auto simp: csThreadNetlink_dtor_def csThread_Join_def Let_def good_pthreads_def set_thread_def
        ev_op_def zoomO_def)
  have "netlink_ready good_pthreads 7 w2"
    using e(3,4) w2(2) by (simp add: netlink_ready_def good_pthreads_def CS_THREAD_STACK_SIZE_def)
  from netlink_thread_once [OF ready w1(1) w2(1) this] show ?thesis using w1(1) w2(1) by blast
qed

end
