(* ===== verification/Cs_Socket.thy ===== *)
theory Cs_Socket
  imports ClearSync_Prelude
begin

text \<open>
  TCP sockets (\<open>cssocket.cpp\<close>, \<open>include/clearsync/cssocket.h\<close>).

  \<open>sock_world\<close> is one socket object with the kernel's side of it: the bytes that the peer has
  sent and nobody has read, the bytes handed over for sending, the open descriptors and the
  ones that were shut down. What the kernel answers to \<open>recv\<close>, \<open>send\<close> and \<open>connect\<close>, and the
  clock at that moment, is an input: a list of answers, one per call; a call for which no
  answer is left never returns. \<open>length\<close> and the buffer that \<open>Read\<close> and \<open>Write\<close> change
  through references are part of the state, so that they are known after an exception too.

  The constructors leave \<open>tv_active\<close> and the byte counters uninitialised: \<open>None\<close>. A counter
  that is not known stays unknown; a decision that depends on an unknown time is undefined.
\<close>

section \<open>State\<close>

datatype sock_state = StInit | StAccepting | StAccepted | StConnecting | StConnected

datatype sock_flags = FlagsNone | WaitAll

record sockaddr_in =
  sin_family :: nat
  sin_port :: u16
  sin_addr :: u32

definition AF_INET :: nat where "AF_INET = 2"
definition INADDR_ANY :: u32 where "INADDR_ANY = 0"

record csSocket =
  sk_sd :: int
  sk_sa :: sockaddr_in
  sk_state :: sock_state
  sk_flags :: sock_flags
  sk_timeout :: int
  sk_tv_active :: "int option"
  sk_bytes_read :: "u64 option"
  sk_bytes_wrote :: "u64 option"

record sock_world =
  so_sock :: csSocket
  so_length :: nat
  so_buffer :: bytes
  so_in :: bytes
  so_out :: bytes
  so_open :: "int list"
  so_shutdown :: "int list"
  so_sleeps :: nat

definition csSocketTimeout :: cs_exception where
  "csSocketTimeout = (csException_s ''csSocketTimeout'')\<lparr>exc_class := ClassSocketTimeout\<rparr>"

definition csSocketHangup :: cs_exception where
  "csSocketHangup = (csException_s ''csSocketHangup'')\<lparr>exc_class := ClassSocketHangup\<rparr>"

definition sk_update :: "(csSocket \<Rightarrow> csSocket) \<Rightarrow> sock_world \<Rightarrow> sock_world" where
  "sk_update f w = w\<lparr>so_sock := f (so_sock w)\<rparr>"

section \<open>Creation and closing\<close>

definition zero_sa :: sockaddr_in where
  "zero_sa = \<lparr>sin_family = 0, sin_port = 0, sin_addr = 0\<rparr>"

definition new_socket :: "int \<Rightarrow> sockaddr_in \<Rightarrow> sock_state \<Rightarrow> csSocket" where
  "new_socket sd sa st = \<lparr>sk_sd = sd, sk_sa = sa, sk_state = st, sk_flags = FlagsNone, sk_timeout = 0,
     sk_tv_active = None, sk_bytes_read = None, sk_bytes_wrote = None\<rparr>"

text \<open>\<open>socket\<close> gives an errno value or a descriptor.\<close>

definition Create :: "int + int \<Rightarrow> sock_world \<Rightarrow> (sock_world, unit) outcome" where
  "Create sock w = (case sock of
       Inl err \<Rightarrow> Throw (csException_es err ''socket'') (sk_update (\<lambda>s. s\<lparr>sk_sd := -1\<rparr>) w)
     | Inr sd \<Rightarrow> Return () (sk_update (\<lambda>s. s\<lparr>sk_sd := sd\<rparr>) (w\<lparr>so_open := so_open w @ [sd]\<rparr>)))"

definition csSocket_ctor :: "int + int \<Rightarrow> sock_world \<Rightarrow> (sock_world, unit) outcome" where
  "csSocket_ctor sock w = Create sock (w\<lparr>so_sock := new_socket (-1) zero_sa StInit\<rparr>)"

definition csSocket_ctor_accepted :: "int \<Rightarrow> sockaddr_in \<Rightarrow> csSocket" where
  "csSocket_ctor_accepted sd sa = new_socket sd sa StConnected"

definition Close :: "sock_world \<Rightarrow> sock_world" where
  "Close w =
     (let s = so_sock w;
          w = (if sk_sd s \<ge> 0
               then sk_update (\<lambda>s. s\<lparr>sk_sd := -1\<rparr>)
                 (w\<lparr>so_shutdown := (if sk_state s = StConnected then so_shutdown w @ [sk_sd s] else so_shutdown w),
                    so_open := remove1 (sk_sd s) (so_open w)\<rparr>)
               else w)
      in sk_update (\<lambda>s. s\<lparr>sk_state := StInit\<rparr>) w)"

definition csSocketConnect_Close :: "sock_world \<Rightarrow> sock_world" where
  "csSocketConnect_Close w = Close (sk_update (\<lambda>s. s\<lparr>sk_state := StInit\<rparr>) w)"

text \<open>In the destructor of the base class the virtual call is \<open>csSocket::Close\<close>.\<close>

definition csSocket_dtor :: "sock_world \<Rightarrow> sock_world" where
  "csSocket_dtor w = Close w"

definition SetTimeout :: "int \<Rightarrow> sock_world \<Rightarrow> sock_world" where
  "SetTimeout tv_sec = sk_update (\<lambda>s. s\<lparr>sk_timeout := tv_sec\<rparr>)"

definition SetWaitAll :: "bool \<Rightarrow> sock_world \<Rightarrow> sock_world" where
  "SetWaitAll enable = sk_update (\<lambda>s. s\<lparr>sk_flags := (if enable then WaitAll else FlagsNone)\<rparr>)"

section \<open>Reading and writing\<close>

text \<open>
  An answer: how many bytes the kernel is ready to move, or an error number. A call moves at
  most what was asked for; zero bytes mean that the peer hung up.
\<close>

datatype sock_answer = Moved nat | SockErr int

type_synonym sock_script = "(sock_answer \<times> int) list"

definition sock_retry :: "sock_world \<Rightarrow> sock_world" where
  "sock_retry w = w\<lparr>so_sleeps := Suc (so_sleeps w)\<rparr>"

definition moved_in :: "nat \<Rightarrow> int \<Rightarrow> sock_world \<Rightarrow> sock_world" where
  "moved_in k now w = sk_update (\<lambda>s. s\<lparr>sk_bytes_read := map_option (\<lambda>n. n + of_nat k) (sk_bytes_read s),
       sk_tv_active := Some now\<rparr>)
     (w\<lparr>so_length := so_length w + k, so_buffer := so_buffer w @ take k (so_in w), so_in := drop k (so_in w)\<rparr>)"

fun read_loop :: "sock_script \<Rightarrow> int \<Rightarrow> sock_world \<Rightarrow> (sock_world, unit) outcome" where
  "read_loop [] left w = (if left > 0 then Block w else Return () w)"
| "read_loop ((ans, now) # as) left w = (if \<not> left > 0 then Return () w else case ans of
       Moved n \<Rightarrow> let k = min (min n (nat left)) (length (so_in w)) in
         if k = 0 then Throw csSocketHangup w
         else read_loop as (left - int k) (moved_in k now w)
     | SockErr err \<Rightarrow>
         if err = EAGAIN \<or> err = EWOULDBLOCK then
           if sk_flags (so_sock w) \<noteq> WaitAll then Return () w
           else case sk_tv_active (so_sock w) of None \<Rightarrow> Undef
             | Some t \<Rightarrow> if now - t \<le> sk_timeout (so_sock w) then read_loop as left (sock_retry w)
                 else Throw csSocketTimeout w
         else Throw (csException_es err ''recv'') w)"

text \<open>\<open>length\<close> becomes a signed number of bytes that are left.\<close>

definition Read :: "sock_script \<Rightarrow> u64 \<Rightarrow> sock_world \<Rightarrow> (sock_world, unit) outcome" where
  "Read script len w = read_loop script (sint len) (w\<lparr>so_length := 0, so_buffer := []\<rparr>)"

text \<open>In \<open>Write\<close> the buffer holds what is still to be sent.\<close>

definition moved_out :: "nat \<Rightarrow> int \<Rightarrow> sock_world \<Rightarrow> sock_world" where
  "moved_out k now w = sk_update (\<lambda>s. s\<lparr>sk_bytes_wrote := map_option (\<lambda>n. n + of_nat k) (sk_bytes_wrote s),
       sk_tv_active := Some now\<rparr>)
     (w\<lparr>so_length := so_length w + k, so_out := so_out w @ take k (so_buffer w), so_buffer := drop k (so_buffer w)\<rparr>)"

fun write_loop :: "sock_script \<Rightarrow> int \<Rightarrow> sock_world \<Rightarrow> (sock_world, unit) outcome" where
  "write_loop [] left w = (if left > 0 then Block w else Return () w)"
| "write_loop ((ans, now) # as) left w = (if \<not> left > 0 then Return () w else case ans of
       Moved n \<Rightarrow> let k = min n (nat left) in
         if k > length (so_buffer w) then Undef
         else if k = 0 then Throw csSocketHangup w
         else write_loop as (left - int k) (moved_out k now w)
     | SockErr err \<Rightarrow>
         if err = EAGAIN \<or> err = EWOULDBLOCK then
           if sk_flags (so_sock w) \<noteq> WaitAll then Return () w
           else case sk_tv_active (so_sock w) of None \<Rightarrow> Undef
             | Some t \<Rightarrow> if now - t \<le> sk_timeout (so_sock w) then write_loop as left (sock_retry w)
                 else Throw csSocketTimeout w
         else Throw (csException_es err ''send'') w)"

definition Write :: "sock_script \<Rightarrow> u64 \<Rightarrow> bytes \<Rightarrow> sock_world \<Rightarrow> (sock_world, unit) outcome" where
  "Write script len buffer w = write_loop script (sint len) (w\<lparr>so_length := 0, so_buffer := buffer\<rparr>)"

section \<open>Listening\<close>

text \<open>
  An exception that leaves the constructor of a derived class runs the destructor of
  \<open>csSocket\<close>.
\<close>

definition sock_abandon :: "cs_exception \<Rightarrow> sock_world \<Rightarrow> (sock_world, 'a) outcome" where
  "sock_abandon e w = Throw e (csSocket_dtor w)"

record accept_env =
  ae_socket :: "int + int"
  ae_ifr_socket :: "int + int"
  ae_ifaddr :: "string \<Rightarrow> u32 option"
  ae_getaddrinfo :: "string \<Rightarrow> int + u32"
  ae_setsockopt :: "int option"
  ae_bind :: "sockaddr_in \<Rightarrow> int option"
  ae_listen :: "int option"

definition IFNAMSIZ :: nat where "IFNAMSIZ = 16"

text \<open>
  The address: any, that of an interface of this name, or what the resolver says. The
  descriptor opened for the \<open>ioctl\<close> is closed on both paths.
\<close>

definition listen_addr :: "accept_env \<Rightarrow> string \<Rightarrow> cs_exception + u32" where
  "listen_addr env addr =
     (if addr = ''all'' \<or> addr = ''any'' then Inr INADDR_ANY
      else case ae_ifr_socket env of
        Inl err \<Rightarrow> Inl (csException_es err ''socket'')
      | Inr sd \<Rightarrow> (case ae_ifaddr env (take IFNAMSIZ (c_str addr)) of
            Some a \<Rightarrow> Inr a
          | None \<Rightarrow> (case ae_getaddrinfo env (c_str addr) of
                Inl rc \<Rightarrow> Inl (csException_es rc ''getaddrinfo'') | Inr a \<Rightarrow> Inr a)))"

definition csSocketAccept_ctor :: "accept_env \<Rightarrow> string \<Rightarrow> u16 \<Rightarrow> sock_world \<Rightarrow> (sock_world, unit) outcome" where
  "csSocketAccept_ctor env addr port w =
     bindO (csSocket_ctor (ae_socket env) w) (\<lambda>_ w.
     case listen_addr env addr of Inl e \<Rightarrow> sock_abandon e w
     | Inr a \<Rightarrow>
       let sa = \<lparr>sin_family = AF_INET, sin_port = port, sin_addr = a\<rparr>; w = sk_update (\<lambda>s. s\<lparr>sk_sa := sa\<rparr>) w
       in case ae_setsockopt env of Some err \<Rightarrow> sock_abandon (csException_es err ''setsockopt: SO_REUSEADDR'') w
          | None \<Rightarrow> (case ae_bind env sa of Some err \<Rightarrow> sock_abandon (csException_es err ''bind'') w
          | None \<Rightarrow> (case ae_listen env of Some err \<Rightarrow> sock_abandon (csException_es err ''listen'') w
          | None \<Rightarrow> Return () (sk_update (\<lambda>s. s\<lparr>sk_state := StAccepting\<rparr>) w))))"

text \<open>\<open>accept\<close> gives an errno value or a descriptor with the address of the peer.\<close>

definition Accept :: "int + int \<times> sockaddr_in \<Rightarrow> sock_world \<Rightarrow> (sock_world, csSocket option) outcome" where
  "Accept accepted w =
     (if sk_state (so_sock w) = StAccepting
      then case accepted of
          Inl err \<Rightarrow> Throw (csException_es err ''accept'') w
        | Inr (sd, sa) \<Rightarrow> Return (Some (csSocket_ctor_accepted sd sa)) (w\<lparr>so_open := so_open w @ [sd]\<rparr>)
      else Return None w)"

section \<open>Connecting\<close>

definition csSocketConnect_ctor ::
  "int + int \<Rightarrow> (string \<Rightarrow> int + u32) \<Rightarrow> string \<Rightarrow> u16 \<Rightarrow> sock_world \<Rightarrow> (sock_world, unit) outcome" where
  "csSocketConnect_ctor sock getaddrinfo host port w =
     bindO (csSocket_ctor sock w) (\<lambda>_ w. case getaddrinfo (c_str host) of
       Inl rc \<Rightarrow> sock_abandon (csException_es rc ''getaddrinfo'') w
     | Inr a \<Rightarrow> Return () (sk_update (\<lambda>s. s\<lparr>sk_sa := \<lparr>sin_family = AF_INET, sin_port = port, sin_addr = a\<rparr>\<rparr>) w))"

text \<open>One answer of \<open>connect\<close> per turn, success or an error number, with the clock before the call.\<close>

fun connect_loop :: "(int \<times> int option) list \<Rightarrow> sock_world \<Rightarrow> (sock_world, unit) outcome" where
  "connect_loop [] w = (if sk_state (so_sock w) = StConnecting then Block w else Return () w)"
| "connect_loop ((now, answer) # as) w =
     (if sk_state (so_sock w) \<noteq> StConnecting then Return () w
      else case sk_tv_active (so_sock w) of None \<Rightarrow> Undef
        | Some t \<Rightarrow>
            if now - t > sk_timeout (so_sock w) then Throw csSocketTimeout w
            else if answer = None \<or> answer = Some EISCONN
            then connect_loop as (sk_update (\<lambda>s. s\<lparr>sk_state := StConnected\<rparr>) w)
            else if answer \<noteq> Some EALREADY \<and> answer \<noteq> Some EINPROGRESS
            then Throw (csException_es (the answer) ''connect'') w
            else connect_loop as (sock_retry w))"

definition Connect :: "int \<Rightarrow> (int \<times> int option) list \<Rightarrow> sock_world \<Rightarrow> (sock_world, unit) outcome" where
  "Connect start script w =
     connect_loop script
       (if sk_state (so_sock w) = StInit
        then sk_update (\<lambda>s. s\<lparr>sk_tv_active := Some start, sk_state := StConnecting\<rparr>) w else w)"

end
