(* ===== verification/Cs_Socket_Properties.thy ===== *)
theory Cs_Socket_Properties
  imports Cs_Socket
begin

text \<open>
  Correctness of the sockets. The two transfer loops have one contract, the locale
  \<open>transfer\<close>, in which the accounting of the bytes and the timeout are proved once; it is
  interpreted on \<open>read_loop\<close> and on \<open>write_loop\<close>. A client socket is a state machine
  (\<open>client_reach\<close>) with an invariant; listening sockets do not leak descriptors.
\<close>

section \<open>The contract of a transfer loop\<close>

text \<open>Socket fields that a transfer leaves alone.\<close>

definition same_setup :: "sock_world \<Rightarrow> sock_world \<Rightarrow> bool" where
  "same_setup w w' \<longleftrightarrow> sk_flags (so_sock w') = sk_flags (so_sock w) \<and>
     sk_timeout (so_sock w') = sk_timeout (so_sock w) \<and> sk_state (so_sock w') = sk_state (so_sock w) \<and>
     sk_sd (so_sock w') = sk_sd (so_sock w) \<and> so_open w' = so_open w"

lemma same_setup_refl [simp]: "same_setup w w"
  by (simp add: same_setup_def)

lemma same_setup_trans: "same_setup u v \<Longrightarrow> same_setup v w \<Longrightarrow> same_setup u w"
  by (simp add: same_setup_def)

locale transfer =
  fixes loop :: "sock_script \<Rightarrow> int \<Rightarrow> sock_world \<Rightarrow> (sock_world, unit) outcome"
    and todo :: "sock_world \<Rightarrow> bytes"
    and past :: "sock_world \<Rightarrow> bytes"
    and move :: "nat \<Rightarrow> int \<Rightarrow> sock_world \<Rightarrow> sock_world"
    and fits :: "int \<Rightarrow> sock_world \<Rightarrow> bool"
    and call :: string
  assumes finished: "left \<le> 0 \<Longrightarrow> loop script left w = Return () w"
    and unanswered: "0 < left \<Longrightarrow> loop [] left w = Block w"
    and moved: "0 < left \<Longrightarrow> fits left w \<Longrightarrow> k = min (min n (nat left)) (length (todo w)) \<Longrightarrow>
      loop ((Moved n, now) # as) left w =
        (if k = 0 then Throw csSocketHangup w else loop as (left - int k) (move k now w))"
    and failed: "0 < left \<Longrightarrow> loop ((SockErr err, now) # as) left w =
      (if err = EAGAIN \<or> err = EWOULDBLOCK then
         if sk_flags (so_sock w) \<noteq> WaitAll then Return () w
         else case sk_tv_active (so_sock w) of None \<Rightarrow> Undef
           | Some t \<Rightarrow> if now - t \<le> sk_timeout (so_sock w) then loop as left (sock_retry w)
               else Throw csSocketTimeout w
       else Throw (csException_es err call) w)"
    and move_todo: "todo (move k now w) = drop k (todo w)"
    and move_past: "past (move k now w) = past w @ take k (todo w)"
    and move_length: "so_length (move k now w) = so_length w + k"
    and move_setup: "same_setup w (move k now w)"
    and move_active: "sk_tv_active (so_sock (move k now w)) = Some now"
    and move_fits: "fits left w \<Longrightarrow> k \<le> nat left \<Longrightarrow> fits (left - int k) (move k now w)"
    and retry_fits: "fits left w \<Longrightarrow> fits left (sock_retry w)"
    and retry_frame: "todo (sock_retry w) = todo w" "past (sock_retry w) = past w"
begin

lemma retry_same: "so_length (sock_retry w) = so_length w" "same_setup w (sock_retry w)"
  "sk_tv_active (so_sock (sock_retry w)) = sk_tv_active (so_sock w)"
  by (simp_all add: sock_retry_def same_setup_def)

lemma failed_cases:
  assumes "0 < left"
  shows "loop ((SockErr err, now) # as) left w = loop as left (sock_retry w) \<or>
    loop ((SockErr err, now) # as) left w = Undef \<or> (\<exists>e. loop ((SockErr err, now) # as) left w = Throw e w) \<or>
    loop ((SockErr err, now) # as) left w = Return () w \<and> sk_flags (so_sock w) \<noteq> WaitAll"
  using failed [OF assms, of err now as w] by (simp split: option.splits)

text \<open>
  Whatever happens, the bytes moved are the first ones, in order, and \<open>length\<close> says how many;
  with \<open>WaitAll\<close> a normal return has moved all of them.
\<close>

lemma accounts:
  assumes "fits left w" "run_state (loop script left w) = Some w'"
  shows "\<exists>k. k \<le> nat left \<and> k \<le> length (todo w) \<and> so_length w' = so_length w + k \<and>
    past w' = past w @ take k (todo w) \<and> todo w' = drop k (todo w) \<and> same_setup w w' \<and>
    (loop script left w = Return () w' \<and> sk_flags (so_sock w) = WaitAll \<longrightarrow> k = nat left)"
  using assms
proof (induction script arbitrary: left w)
  case Nil
  then show ?case by (cases "0 < left") (auto simp: finished unanswered)
next
  case (Cons x as)
  obtain ans now where x: "x = (ans, now)" by (cases x)
  show ?case
  proof (cases "0 < left")
    case False
    then show ?thesis using Cons.prems(2) by (auto simp: finished)
  next
    case True
    show ?thesis
    proof (cases ans)
      case (Moved n)
      define i where "i = min (min n (nat left)) (length (todo w))"
      then have i: "i \<le> nat left" "i \<le> length (todo w)" by auto
      let ?k = i and ?w = "move i now w"
      note step = moved [OF True Cons.prems(1) i_def, of now as]
      show ?thesis
      proof (cases "?k = 0")
        case True
        then show ?thesis using Cons.prems(2) step x Moved by (intro exI [of _ 0]) (auto split: if_splits)
      next
        case False
        then have run: "loop (x # as) left w = loop as (left - int ?k) ?w" using step x Moved by simp
        have "fits (left - int ?k) ?w" using move_fits [OF Cons.prems(1) i(1)] .
        from Cons.IH [OF this] Cons.prems(2) run obtain k where
          k: "k \<le> nat (left - int ?k)" "k \<le> length (todo ?w)" "so_length w' = so_length ?w + k"
          "past w' = past ?w @ take k (todo ?w)" "todo w' = drop k (todo ?w)" "same_setup ?w w'"
          "loop as (left - int ?k) ?w = Return () w' \<and> sk_flags (so_sock ?w) = WaitAll \<longrightarrow> k = nat (left - int ?k)"
          by auto
        have "sk_flags (so_sock ?w) = sk_flags (so_sock w)" using move_setup by (simp add: same_setup_def)
        moreover have "?k + k \<le> nat left" using k(1) i(1) by linarith
        moreover have "k = nat (left - int ?k) \<Longrightarrow> ?k + k = nat left" using i(1) by linarith
        moreover have "?k + k \<le> length (todo w)" using k(2) i(2) by (simp add: move_todo)
        moreover have "past w' = past w @ take (?k + k) (todo w)" using k(4) by (simp add: move_past move_todo take_add)
        moreover have "todo w' = drop (?k + k) (todo w)" using k(5) by (simp add: move_todo add.commute)
        moreover have "so_length w' = so_length w + (?k + k)" using k(3) by (simp add: move_length)
        ultimately show ?thesis
          using k(7) run same_setup_trans [OF move_setup k(6)] by (intro exI [of _ "?k + k"] conjI) simp_all
      qed
    next
      case (SockErr err)
      show ?thesis
      proof (cases "loop (x # as) left w = loop as left (sock_retry w)")
        case retried: True
        then have "run_state (loop as left (sock_retry w)) = Some w'" using Cons.prems(2) by simp
        from Cons.IH [OF retry_fits [OF Cons.prems(1)] this] obtain k where
          k: "k \<le> nat left" "k \<le> length (todo w)" "so_length w' = so_length w + k"
          "past w' = past w @ take k (todo w)" "todo w' = drop k (todo w)" "same_setup (sock_retry w) w'"
          "loop as left (sock_retry w) = Return () w' \<and> sk_flags (so_sock (sock_retry w)) = WaitAll \<longrightarrow> k = nat left"
          unfolding retry_frame retry_same(1) by blast
        moreover have "sk_flags (so_sock (sock_retry w)) = sk_flags (so_sock w)"
          using retry_same(2) [of w] by (simp add: same_setup_def)
        ultimately show ?thesis
          unfolding retried using same_setup_trans [OF retry_same(2) k(6)] by (intro exI [of _ k] conjI) simp_all
      next
        case False
        then consider "loop (x # as) left w = Undef" | e where "loop (x # as) left w = Throw e w"
          | "loop (x # as) left w = Return () w" "sk_flags (so_sock w) \<noteq> WaitAll"
          using failed_cases [OF True, of err now as w] x SockErr by auto
        then show ?thesis using Cons.prems(2) by cases (auto intro!: exI [of _ 0])
      qed
    qed
  qed
qed

text \<open>A peer that stays silent: the wait ends with the first answer after the timeout.\<close>

lemma silent_peer:
  assumes "0 < left" "sk_flags (so_sock w) = WaitAll" "sk_tv_active (so_sock w) = Some t"
    "\<forall>s \<in> set ts. s - t \<le> sk_timeout (so_sock w)" "late - t > sk_timeout (so_sock w)"
  shows "\<exists>w'. loop (map (\<lambda>s. (SockErr EAGAIN, s)) ts @ (SockErr EAGAIN, late) # as) left w = Throw csSocketTimeout w' \<and>
    so_length w' = so_length w \<and> past w' = past w"
  using assms
proof (induction ts arbitrary: w)
  case Nil
  then show ?case by (simp add: failed)
next
  case (Cons s ts)
  have "sk_flags (so_sock (sock_retry w)) = sk_flags (so_sock w)"
    "sk_timeout (so_sock (sock_retry w)) = sk_timeout (so_sock w)"
    using retry_same(2) [of w] by (simp_all add: same_setup_def)
  then show ?case using Cons.IH [of "sock_retry w"] Cons.prems
    by (simp add: failed retry_same retry_frame)
qed

text \<open>With a known time of the last activity a transfer is always defined.\<close>

lemma defined:
  assumes "fits left w" "sk_tv_active (so_sock w) \<noteq> None"
  shows "loop script left w \<noteq> Undef \<and>
    (\<forall>w'. run_state (loop script left w) = Some w' \<longrightarrow> sk_tv_active (so_sock w') \<noteq> None)"
  using assms
proof (induction script arbitrary: left w)
  case Nil
  then show ?case by (cases "0 < left") (auto simp: finished unanswered)
next
  case (Cons x as)
  obtain ans now where x: "x = (ans, now)" by (cases x)
  show ?case
  proof (cases "0 < left")
    case False
    then show ?thesis using Cons.prems by (auto simp: finished)
  next
    case True
    then show ?thesis
    proof (cases ans)
      case (Moved n)
      define i where "i = min (min n (nat left)) (length (todo w))"
      then have "fits (left - int i) (move i now w)" using move_fits [OF Cons.prems(1), of i] by simp
      from Cons.IH [OF this] show ?thesis
        using Cons.prems(2) x Moved moved [OF True Cons.prems(1) i_def, of now as] by (auto simp: move_active)
    next
      case (SockErr err)
      from Cons.IH [OF retry_fits [OF Cons.prems(1)]] show ?thesis
        using Cons.prems x SockErr True by (auto simp: failed retry_same split: option.splits)
    qed
  qed
qed

end

interpretation rd: transfer read_loop so_in so_buffer moved_in "\<lambda>_ _. True" "''recv''"
proof (unfold_locales, goal_cases)
  case (1 left script w)
  then show ?case by (cases script) auto
next
  case (3 left w k n now as)
  then show ?case by (simp add: Let_def flip: 3(3))
qed (auto simp: Let_def moved_in_def sk_update_def same_setup_def sock_retry_def split: option.splits)

interpretation wr: transfer write_loop so_buffer so_out moved_out
  "\<lambda>left w. nat left \<le> length (so_buffer w)" "''send''"
proof (unfold_locales, goal_cases)
  case (1 left script w)
  then show ?case by (cases script) auto
next
  case (3 left w k n now as)
  then have k: "k = min n (nat left)" "\<not> length (so_buffer w) < k" by auto
  then show ?case using 3(1) by (simp add: Let_def flip: k(1))
qed (auto simp: Let_def moved_out_def sk_update_def same_setup_def sock_retry_def split: option.splits)

section \<open>Properties\<close>



text \<open>
  A silent peer. With \<open>WaitAll\<close>, when \<open>recv\<close> or \<open>send\<close> keeps answering that nothing can be
  moved, both operations retry within the timeout and throw \<open>csSocketTimeout\<close> at the first
  answer after it, having moved nothing.
\<close>

theorem silent_peer_times_out:
  assumes "0 < sint len" "sk_flags (so_sock w) = WaitAll" "sk_tv_active (so_sock w) = Some t"
    "\<forall>s \<in> set ts. s - t \<le> sk_timeout (so_sock w)" "late - t > sk_timeout (so_sock w)"
    "script = map (\<lambda>s. (SockErr EAGAIN, s)) ts @ (SockErr EAGAIN, late) # more_answers"
  shows "(\<exists>w'. Read script len w = Throw csSocketTimeout w' \<and> so_length w' = 0 \<and> so_buffer w' = []) \<and>
    (\<exists>w'. Write script len buffer w = Throw csSocketTimeout w' \<and> so_length w' = 0 \<and> so_out w' = so_out w)"
  using rd.silent_peer [of "sint len" "w\<lparr>so_length := 0, so_buffer := []\<rparr>" t ts late more_answers]
    wr.silent_peer [of "sint len" "w\<lparr>so_length := 0, so_buffer := buffer\<rparr>" t ts late more_answers] assms
  by (simp add: Read_def Write_def)

text \<open>
  A socket that was accepted has no time of last activity. If the first \<open>recv\<close> on it has
  nothing to deliver and \<open>WaitAll\<close> is set, the timeout test uses a member that no constructor
  sets: undefined behaviour.
\<close>

theorem accepted_wait_undefined:
  assumes "so_sock w = csSocket_ctor_accepted sd sa" "0 < sint len"
  shows "Read ((SockErr EAGAIN, now) # as) len (SetWaitAll True w) = Undef"
  using assms by (simp add: Read_def SetWaitAll_def sk_update_def csSocket_ctor_accepted_def new_socket_def)

section \<open>The client socket as a state machine\<close>

text \<open>Every call of a member function, also one that throws or never returns.\<close>

inductive client_reach :: "sock_world \<Rightarrow> bool" where
  made: "csSocketConnect_ctor sock res host port w = Return () w' \<Longrightarrow> client_reach w'"
| created: "client_reach w \<Longrightarrow> run_state (Create sock w) = Some w' \<Longrightarrow> client_reach w'"
| closed: "client_reach w \<Longrightarrow> client_reach (csSocketConnect_Close w)"
| timeout: "client_reach w \<Longrightarrow> client_reach (SetTimeout s w)"
| waitall: "client_reach w \<Longrightarrow> client_reach (SetWaitAll b w)"
| connected: "client_reach w \<Longrightarrow> run_state (Connect start script w) = Some w' \<Longrightarrow> client_reach w'"
| read: "client_reach w \<Longrightarrow> run_state (Read answers len w) = Some w' \<Longrightarrow> client_reach w'"
| written: "client_reach w \<Longrightarrow> nat (sint len) \<le> length buffer \<Longrightarrow>
    run_state (Write answers len buffer w) = Some w' \<Longrightarrow> client_reach w'"

definition client_ok :: "sock_world \<Rightarrow> bool" where
  "client_ok w \<longleftrightarrow> sk_state (so_sock w) \<in> {StInit, StConnecting, StConnected} \<and>
     (sk_state (so_sock w) \<noteq> StInit \<longrightarrow> sk_tv_active (so_sock w) \<noteq> None)"

lemma connect_loop_ok:
  assumes "client_ok w"
  shows "connect_loop script w \<noteq> Undef \<and> (\<forall>w'. run_state (connect_loop script w) = Some w' \<longrightarrow> client_ok w')"
  using assms
proof (induction script arbitrary: w)
  case Nil
  then show ?case by simp
next
  case (Cons x as)
  obtain now a where x: "x = (now, a)" by (cases x)
  have "client_ok (sock_retry w)" using Cons.prems by (simp add: client_ok_def sock_retry_def)
  moreover have "sk_state (so_sock w) = StConnecting \<Longrightarrow> client_ok (sk_update (\<lambda>s. s\<lparr>sk_state := StConnected\<rparr>) w)"
    using Cons.prems by (simp add: client_ok_def sk_update_def)
  ultimately have ih: "connect_loop as (sock_retry w) \<noteq> Undef \<and>
      (\<forall>w'. run_state (connect_loop as (sock_retry w)) = Some w' \<longrightarrow> client_ok w')"
    "sk_state (so_sock w) = StConnecting \<Longrightarrow> connect_loop as (sk_update (\<lambda>s. s\<lparr>sk_state := StConnected\<rparr>) w) \<noteq> Undef \<and>
      (\<forall>w'. run_state (connect_loop as (sk_update (\<lambda>s. s\<lparr>sk_state := StConnected\<rparr>) w)) = Some w' \<longrightarrow> client_ok w')"
    using Cons.IH by blast+
  show ?case
  proof (cases "sk_state (so_sock w) = StConnecting")
    case True
    then obtain t where "sk_tv_active (so_sock w) = Some t" using Cons.prems by (auto simp: client_ok_def)
    then show ?thesis using True x ih(1) ih(2) [OF True] Cons.prems by simp
  next
    case False
    then show ?thesis using x Cons.prems by simp
  qed
qed

lemma transfer_keeps_ok:
  assumes "client_ok w" "same_setup w w'" "sk_tv_active (so_sock w) \<noteq> None \<Longrightarrow> sk_tv_active (so_sock w') \<noteq> None"
  shows "client_ok w'"
  using assms by (auto simp: client_ok_def same_setup_def)

lemma Read_ok:
  assumes "client_ok w"
  shows "(sk_state (so_sock w) \<noteq> StInit \<longrightarrow> Read answers len w \<noteq> Undef) \<and>
    (\<forall>w'. run_state (Read answers len w) = Some w' \<longrightarrow> client_ok w')"
proof -
  let ?w = "w\<lparr>so_length := 0, so_buffer := []\<rparr>"
  have ok: "client_ok ?w" using assms by (simp add: client_ok_def)
  have "client_ok w'" if "run_state (read_loop answers (sint len) ?w) = Some w'" for w'
  proof -
    have "same_setup ?w w'" using rd.accounts [OF _ that] by auto
    then show ?thesis using transfer_keeps_ok [OF ok] rd.defined [where left = "sint len" and w = ?w and script = answers] that by auto
  qed
  then show ?thesis using assms rd.defined [where left = "sint len" and w = ?w and script = answers] by (auto simp: Read_def client_ok_def)
qed

lemma Write_ok:
  assumes "client_ok w" "nat (sint len) \<le> length buffer"
  shows "(sk_state (so_sock w) \<noteq> StInit \<longrightarrow> Write answers len buffer w \<noteq> Undef) \<and>
    (\<forall>w'. run_state (Write answers len buffer w) = Some w' \<longrightarrow> client_ok w')"
proof -
  let ?w = "w\<lparr>so_length := 0, so_buffer := buffer\<rparr>"
  have ok: "client_ok ?w" using assms by (simp add: client_ok_def)
  have fits: "nat (sint len) \<le> length (so_buffer ?w)" using assms(2) by simp
  have "client_ok w'" if "run_state (write_loop answers (sint len) ?w) = Some w'" for w'
  proof -
    have "same_setup ?w w'" using wr.accounts [OF fits that] by auto
    then show ?thesis using transfer_keeps_ok [OF ok] wr.defined [OF fits, of answers] that by auto
  qed
  then show ?thesis using assms wr.defined [OF fits, of answers] by (auto simp: Write_def client_ok_def)
qed

lemma Connect_ok:
  assumes "client_ok w"
  shows "Connect start script w \<noteq> Undef \<and> (\<forall>w'. run_state (Connect start script w) = Some w' \<longrightarrow> client_ok w')"
proof -
  have "client_ok (sk_update (\<lambda>s. s\<lparr>sk_tv_active := Some start, sk_state := StConnecting\<rparr>) w)"
    by (simp add: client_ok_def sk_update_def)
  then have "client_ok (if sk_state (so_sock w) = StInit
      then sk_update (\<lambda>s. s\<lparr>sk_tv_active := Some start, sk_state := StConnecting\<rparr>) w else w)"
    using assms by simp
  then show ?thesis unfolding Connect_def by (rule connect_loop_ok)
qed

lemma client_reach_ok: "client_reach w \<Longrightarrow> client_ok w"
proof (induction rule: client_reach.induct)
  case (made sock res host port w w')
  then show ?case
    by (auto simp: csSocketConnect_ctor_def csSocket_ctor_def Create_def sock_abandon_def client_ok_def sk_update_def
        new_socket_def bindO_Return_iff split: sum.splits)
next
  case (created w sock w')
  then show ?case by (cases sock) (auto simp: Create_def client_ok_def sk_update_def)
next
  case (closed w)
  then show ?case by (simp add: csSocketConnect_Close_def Close_def Let_def client_ok_def sk_update_def)
next
  case (connected w start script w')
  then show ?case using Connect_ok by blast
next
  case (read w answers len w')
  then show ?case using Read_ok by blast
next
  case (written w len buffer answers w')
  then show ?case using Write_ok by blast
qed (simp_all add: SetTimeout_def SetWaitAll_def client_ok_def sk_update_def)


definition pending :: "int \<times> int option \<Rightarrow> bool" where
  "pending x \<longleftrightarrow> snd x = Some EALREADY \<or> snd x = Some EINPROGRESS"

lemma connect_pending:
  assumes "sk_state (so_sock w) = StConnecting" "sk_tv_active (so_sock w) = Some t"
    "\<forall>x \<in> set as. pending x \<and> fst x - t \<le> sk_timeout (so_sock w)"
  shows "\<exists>n. connect_loop (as @ bs) w = connect_loop bs (w\<lparr>so_sleeps := so_sleeps w + n\<rparr>)"
  using assms
proof (induction as arbitrary: w)
  case Nil
  show ?case by (rule exI [of _ 0]) simp
next
  case (Cons x as)
  obtain now a where x: "x = (now, a)" by (cases x)
  have a: "a = Some EALREADY \<or> a = Some EINPROGRESS" "now - t \<le> sk_timeout (so_sock w)"
    using Cons.prems(3) x by (auto simp: pending_def)
  have "connect_loop ((x # as) @ bs) w = connect_loop (as @ bs) (sock_retry w)"
    using Cons.prems(1,2) a x by (auto simp: EALREADY_def EINPROGRESS_def EISCONN_def)
  moreover obtain n where "connect_loop (as @ bs) (sock_retry w) =
      connect_loop bs ((sock_retry w)\<lparr>so_sleeps := so_sleeps (sock_retry w) + n\<rparr>)"
    using Cons.IH [of "sock_retry w"] Cons.prems by (auto simp: sock_retry_def)
  ultimately show ?case by (intro exI [of _ "Suc n"]) (simp add: sock_retry_def)
qed

text \<open>
  C19. Connecting. From the idle state, while \<open>connect\<close> answers that the attempt is under way, the
  loop retries within the timeout; it returns connected at the first success and throws
  \<open>csSocketTimeout\<close> at the first turn after the timeout, and then every further call throws
  again, because the start time is kept until the socket is closed.
\<close>

theorem connect_ends:
  assumes "sk_state (so_sock w) = StInit" "\<forall>x \<in> set as. pending x \<and> fst x - start \<le> sk_timeout (so_sock w)"
    "now - start \<le> sk_timeout (so_sock w)" "late - start > sk_timeout (so_sock w)"
  shows "(\<exists>w'. Connect start (as @ (now, None) # bs) w = Return () w' \<and> sk_state (so_sock w') = StConnected) \<and>
    (\<exists>w'. Connect start (as @ (late, a) # bs) w = Throw csSocketTimeout w' \<and> sk_state (so_sock w') = StConnecting \<and>
      (\<forall>again b cs. again \<ge> late \<longrightarrow> Connect later ((again, b) # cs) w' = Throw csSocketTimeout w'))"
proof -
  let ?w = "sk_update (\<lambda>s. s\<lparr>sk_tv_active := Some start, sk_state := StConnecting\<rparr>) w"
  have w: "sk_state (so_sock ?w) = StConnecting" "sk_tv_active (so_sock ?w) = Some start"
    "sk_timeout (so_sock ?w) = sk_timeout (so_sock w)" by (simp_all add: sk_update_def)
  obtain n where n: "connect_loop (as @ (now, None) # bs) ?w =
      connect_loop ((now, None) # bs) (?w\<lparr>so_sleeps := so_sleeps ?w + n\<rparr>)"
    using connect_pending [OF w(1,2), of as] w(3) assms(2) by metis
  obtain m where m: "connect_loop (as @ (late, a) # bs) ?w =
      connect_loop ((late, a) # bs) (?w\<lparr>so_sleeps := so_sleeps ?w + m\<rparr>)"
    using connect_pending [OF w(1,2), of as] w(3) assms(2) by metis
  have "connect_loop cs u = Return () u" if "sk_state (so_sock u) = StConnected" for cs u
    using that by (cases cs) auto
  then show ?thesis using assms(1,3,4) n m by (auto simp: Connect_def sk_update_def)
qed

section \<open>Descriptors\<close>

text \<open>
  Construction does not leak. When the constructor of a listening or of a connecting socket
  throws, the open descriptors are those of before; when it returns there is exactly one more,
  the socket's own, and closing or destroying the object gives it back.
\<close>

theorem constructors_do_not_leak:
  assumes "\<And>sd. ae_socket env = Inr sd \<Longrightarrow> sd \<ge> 0 \<and> sd \<notin> set (so_open w)"
  shows "(case csSocketAccept_ctor env addr port w of
       Return _ w' \<Rightarrow> sk_state (so_sock w') = StAccepting \<and> so_open w' = so_open w @ [sk_sd (so_sock w')] \<and>
         so_open (csSocket_dtor w') = so_open w
     | Throw e w' \<Rightarrow> so_open w' = so_open w | _ \<Rightarrow> False) \<and>
    (case csSocketConnect_ctor (ae_socket env) res host port w of
       Return _ w' \<Rightarrow> sk_state (so_sock w') = StInit \<and> so_open w' = so_open w @ [sk_sd (so_sock w')] \<and>
         so_open (csSocketConnect_Close w') = so_open w
     | Throw e w' \<Rightarrow> so_open w' = so_open w | _ \<Rightarrow> False)"
proof (cases "ae_socket env")
  case (Inl e)
  then show ?thesis
    by (simp add: csSocketAccept_ctor_def csSocketConnect_ctor_def csSocket_ctor_def Create_def sk_update_def)
next
  case (Inr sd)
  then have sd: "sd \<ge> 0" "sd \<notin> set (so_open w)" using assms by auto
  show ?thesis using Inr sd
    by (auto simp: csSocketAccept_ctor_def csSocketConnect_ctor_def csSocket_ctor_def Create_def sk_update_def
        Let_def new_socket_def sock_abandon_def csSocket_dtor_def csSocketConnect_Close_def Close_def remove1_append
        split: sum.splits option.splits)
qed

text \<open>
  Closing a client socket never shuts it down. \<open>csSocketConnect::Close\<close> resets the state
  before it calls \<open>csSocket::Close\<close>, which shuts down connected sockets only; the destructor,
  which calls the base class function, does shut it down.
\<close>

theorem client_close_skips_shutdown:
  assumes "sk_sd (so_sock w) \<ge> 0" "sk_state (so_sock w) = StConnected"
  shows "so_shutdown (csSocketConnect_Close w) = so_shutdown w \<and>
    so_shutdown (csSocket_dtor w) = so_shutdown w @ [sk_sd (so_sock w)] \<and>
    so_open (csSocketConnect_Close w) = so_open (csSocket_dtor w)"
  using assms by (simp add: csSocketConnect_Close_def csSocket_dtor_def Close_def Let_def sk_update_def)

section \<open>Instances\<close>

text \<open>A connected socket, last active at time 10 with a timeout of 5, to which three bytes are on the way.\<close>

definition sock0 :: sock_world where
  "sock0 = \<lparr>so_sock = (new_socket 3 zero_sa StConnected)\<lparr>sk_timeout := 5, sk_tv_active := Some 10, sk_flags := WaitAll\<rparr>,
     so_length = 0, so_buffer = [], so_in = [1, 2, 3], so_out = [], so_open = [3], so_shutdown = [], so_sleeps = 0\<rparr>"

definition idle0 :: sock_world where
  "idle0 = sk_update (\<lambda>s. s\<lparr>sk_state := StInit, sk_tv_active := None\<rparr>) sock0"



theorem silent_peer_times_out_witness:
  "\<exists>w'. Read [(SockErr EAGAIN, 12), (SockErr EAGAIN, 16)] 2 sock0 = Throw csSocketTimeout w' \<and> so_length w' = 0"
  using silent_peer_times_out [of 2 sock0 10 "[12]" 16 "[(SockErr EAGAIN, 12), (SockErr EAGAIN, 16)]" "[]"]
  by (auto simp: sock0_def new_socket_def)

theorem accepted_wait_undefined_witness:
  "Read [(SockErr EAGAIN, 5)] 1 (SetWaitAll True (sock0\<lparr>so_sock := csSocket_ctor_accepted 4 zero_sa\<rparr>)) = Undef"
  by (rule accepted_wait_undefined) simp_all

lemma client_reach_idle0:
  "\<exists>w. client_reach w \<and> sk_state (so_sock w) = StConnected"
proof -
  obtain w where w: "csSocketConnect_ctor (Inr 3) (\<lambda>_. Inr 0) ''h'' 80 sock0 = Return () w" "sk_state (so_sock w) = StInit"
    "sk_timeout (so_sock w) = 0"
    by (simp add: csSocketConnect_ctor_def csSocket_ctor_def Create_def sk_update_def new_socket_def)
  then obtain w' where "run_state (Connect 0 [(0, None)] w) = Some w'" "sk_state (so_sock w') = StConnected"
    by (simp add: Connect_def sk_update_def)
  then show ?thesis using client_reach.connected [OF client_reach.made [OF w(1)]] by blast
qed


theorem connect_ends_witness:
  "\<exists>w'. Connect 10 [(11, Some EINPROGRESS), (12, None)] idle0 = Return () w' \<and> sk_state (so_sock w') = StConnected"
  using connect_ends [of idle0 "[(11, Some EINPROGRESS)]" 10 12 16 "[]"]
  by (auto simp: idle0_def sock0_def sk_update_def new_socket_def pending_def)

definition busy_port :: accept_env where
  "busy_port = \<lparr>ae_socket = Inr 4, ae_ifr_socket = Inr 5, ae_ifaddr = (\<lambda>_. None), ae_getaddrinfo = (\<lambda>_. Inr 1),
     ae_setsockopt = None, ae_bind = (\<lambda>_. Some 98), ae_listen = None\<rparr>"

theorem constructors_do_not_leak_witness:
  "\<exists>e w'. csSocketAccept_ctor busy_port ''eth0'' 80 sock0 = Throw e w' \<and> so_open w' = [3]"
proof -
  have "case csSocketAccept_ctor busy_port ''eth0'' 80 sock0 of
       Return _ w' \<Rightarrow> sk_state (so_sock w') = StAccepting \<and> so_open w' = so_open sock0 @ [sk_sd (so_sock w')] \<and>
         so_open (csSocket_dtor w') = so_open sock0
     | Throw e w' \<Rightarrow> so_open w' = so_open sock0 | _ \<Rightarrow> False"
    by (rule conjunct1 [OF constructors_do_not_leak]) (simp_all add: busy_port_def sock0_def)
  moreover have "\<not> returns (csSocketAccept_ctor busy_port ''eth0'' 80 sock0)"
    by (simp add: csSocketAccept_ctor_def csSocket_ctor_def Create_def busy_port_def listen_addr_def sock_abandon_def)
  ultimately show ?thesis by (cases "csSocketAccept_ctor busy_port ''eth0'' 80 sock0") (auto simp: sock0_def)
qed

theorem client_close_skips_shutdown_witness: "so_shutdown (csSocketConnect_Close sock0) = []"
  using client_close_skips_shutdown [of sock0] by (simp add: sock0_def new_socket_def)

end
