(* ===== verification/Cs_Loader.thy ===== *)
theory Cs_Loader
  imports Cs_Plugin Cs_Thread
begin

text \<open>
  Plugin objects and the loader (\<open>csPluginLoader\<close> and \<open>csPluginInit\<close> of \<open>csplugin.cpp\<close> and
  \<open>include/clearsync/csplugin.h\<close>).

  A plugin is a thread, and so an event client, at an address; \<open>loader_world\<close> extends the
  system state by the plugin objects, the disk they share and the library handles that are
  open. What a library's own class adds to \<open>csPlugin\<close> is not in the sources; the entry point
  \<open>csPluginInit\<close> that the macro of \<open>csplugin.h\<close> writes into every library is.
\<close>

section \<open>State\<close>

record loader_world = sys_world +
  ld_open :: "nat list"
  ld_objs :: "nat \<rightharpoonup> csPlugin"
  ld_disk :: disk
  ld_next :: nat

record csPluginLoader =
  ld_so_name :: string
  ld_handle :: nat
  ld_plugin :: nat

text \<open>
  Running an operation of a plugin object: it works on the shared disk and its log lines go
  to the common log.
\<close>

definition plugin_op ::
  "nat \<Rightarrow> (csPlugin \<Rightarrow> (csPlugin, 'a) outcome) \<Rightarrow> 'b loader_world_scheme \<Rightarrow> ('b loader_world_scheme, 'a) outcome" where
  "plugin_op a f w = (case ld_objs w a of None \<Rightarrow> Undef | Some p \<Rightarrow>
     zoomO (\<lambda>w. p\<lparr>pl_disk := ld_disk w, pl_log := []\<rparr>)
       (\<lambda>g w. let q = g (p\<lparr>pl_disk := ld_disk w, pl_log := []\<rparr>) in
          w\<lparr>ld_objs := (ld_objs w)(a \<mapsto> q\<lparr>pl_log := []\<rparr>), ld_disk := pl_disk q, sw_log := sw_log w @ pl_log q\<rparr>) f w)"

definition pluginName :: "nat \<Rightarrow> 'b loader_world_scheme \<Rightarrow> ('b loader_world_scheme, string) outcome" where
  "pluginName a w = (case ld_objs w a of None \<Rightarrow> Undef | Some p \<Rightarrow> Return (pl_name p) w)"

section \<open>Construction and destruction\<close>

text \<open>\<open>new class_name(name, parent, stack_size)\<close>: the thread part first, then the plugin part.\<close>

definition csPluginInit ::
  "pthread_env \<Rightarrow> string \<Rightarrow> nat \<Rightarrow> u64 \<Rightarrow> 'b loader_world_scheme \<Rightarrow> ('b loader_world_scheme, nat option) outcome" where
  "csPluginInit env name parent stack_size w =
     (let a = ld_next w; w = w\<lparr>ld_next := Suc a\<rparr> in
      bindO (csThread_ctor env a stack_size w) (\<lambda>_ w.
      let p = csPlugin_ctor name parent stack_size (ld_disk w) in
      Return (Some a) (w\<lparr>ld_objs := (ld_objs w)(a \<mapsto> p\<lparr>pl_log := []\<rparr>), sw_log := sw_log w @ pl_log p\<rparr>)))"

text \<open>The destructor of \<open>csPlugin\<close> and of its base classes; it does not join the thread.\<close>

definition csPlugin_delete :: "nat \<Rightarrow> 'b loader_world_scheme \<Rightarrow> ('b loader_world_scheme, unit) outcome" where
  "csPlugin_delete a w =
     bindO (plugin_op a (\<lambda>p. Return () (csPlugin_dtor p)) w) (\<lambda>_ w.
     bindO (ev_op (csEventClient_dtor a) w) (\<lambda>_ w.
     Return () (set_thread a None (w\<lparr>ld_objs := (ld_objs w)(a := None)\<rparr>))))"

text \<open>
  \<open>dlopen\<close> gives a handle or the text of \<open>dlerror\<close>; \<open>dlsym_error\<close> the text of \<open>dlerror\<close> after
  \<open>dlsym\<close>, if any; \<open>init\<close> is the library's entry point. An exception that the entry point throws
  leaves the constructor, whose object then has no destructor run: the handle stays open.
\<close>

definition csPluginLoader_ctor ::
  "(string \<Rightarrow> string + nat) \<Rightarrow> (nat \<Rightarrow> string option) \<Rightarrow>
   (nat \<Rightarrow> 'b loader_world_scheme \<Rightarrow> ('b loader_world_scheme, nat option) outcome) \<Rightarrow> string \<Rightarrow>
   'b loader_world_scheme \<Rightarrow> ('b loader_world_scheme, csPluginLoader) outcome" where
  "csPluginLoader_ctor dlopen dlsym_error init so_name w =
     (case dlopen (c_str so_name) of
        Inl err \<Rightarrow> Throw (csException_s err) w
      | Inr h \<Rightarrow> let w = w\<lparr>ld_open := h # ld_open w\<rparr> in
        case dlsym_error h of
          Some err \<Rightarrow> Throw (csException_s err) (sys_log Level_Warning ''Plugin initialization failed: %s''
            [ArgS err] (w\<lparr>ld_open := remove1 h (ld_open w)\<rparr>))
        | None \<Rightarrow> bindO (init h w) (\<lambda>plugin w. case plugin of
            None \<Rightarrow> Throw (csException_s ''csPluginInit'') (sys_log Level_Warning ''Plugin initialization failed: %s''
              [ArgS (c_str so_name)] (w\<lparr>ld_open := remove1 h (ld_open w)\<rparr>))
          | Some a \<Rightarrow> Return \<lparr>ld_so_name = so_name, ld_handle = h, ld_plugin = a\<rparr>
              (sys_log Level_Debug ''Plugin loaded: %s'' [ArgS (c_str so_name)] w)))"

definition csPluginLoader_dtor :: "csPluginLoader \<Rightarrow> 'b loader_world_scheme \<Rightarrow> 'b loader_world_scheme" where
  "csPluginLoader_dtor l w = sys_log Level_Debug ''Plugin dereferenced: %s'' [ArgS (c_str (ld_so_name l))]
     (w\<lparr>ld_open := remove1 (ld_handle l) (ld_open w)\<rparr>)"

section \<open>Lemmas\<close>

lemma sys_log_loader [simp]:
  fixes w :: "'b loader_world_scheme"
  shows "ld_open (sys_log l f a w) = ld_open w" "ld_objs (sys_log l f a w) = ld_objs w"
    "ld_disk (sys_log l f a w) = ld_disk w" "ld_next (sys_log l f a w) = ld_next w"
  by (simp_all add: sys_log_def)

lemma set_thread_loader [simp]:
  fixes w :: "'b loader_world_scheme"
  shows "ld_open (set_thread p t w) = ld_open w" "ld_objs (set_thread p t w) = ld_objs w"
    "ld_disk (set_thread p t w) = ld_disk w" "ld_next (set_thread p t w) = ld_next w"
  by (simp_all add: set_thread_def)

lemma csPluginInit_frame:
  assumes "run_state (csPluginInit env name parent stk w) = Some w'"
  shows "ld_open w' = ld_open w"
proof -
  let ?w = "w\<lparr>ld_next := Suc (ld_next w)\<rparr>"
  have run: "ld_open v = ld_open w" if "run_state (csThread_ctor env (ld_next w) stk ?w) = Some v" for v
    using csThread_ctor_same [OF that] by (auto simp: sys_same_def)
  show ?thesis
  proof (cases "csThread_ctor env (ld_next w) stk ?w")
    case (Return a v)
    then show ?thesis using assms run [of v] by (auto simp: csPluginInit_def Let_def)
  qed (use assms run in \<open>auto simp: csPluginInit_def Let_def\<close>)
qed

lemma csPluginInit_address: "csPluginInit env name parent stk w = Return a w' \<Longrightarrow> a = Some (ld_next w)"
  by (auto simp: csPluginInit_def Let_def bindO_Return_iff)

text \<open>
  The loader keeps no handle it cannot close. If \<open>dlopen\<close>, \<open>dlsym\<close> or the entry point fails
  without an exception, the constructor throws and the open handles are those of before; if it
  succeeds, destroying the loader closes exactly its own. Only an exception that the plugin's
  constructor throws leaves the handle open.
\<close>

theorem loader_handles:
  "case csPluginLoader_ctor dlopen dlsym_error (\<lambda>h. if null h then Return None else csPluginInit env name parent stk) so w of
     Return l w' \<Rightarrow> ld_open w' = ld_handle l # ld_open w \<and> ld_plugin l = ld_next w \<and>
       ld_open (csPluginLoader_dtor l w') = ld_open w
   | Throw e w' \<Rightarrow> ld_open w' = ld_open w \<or>
       (\<exists>h. dlopen (c_str so) = Inr h \<and> ld_open w' = h # ld_open w \<and>
         \<not> returns (csPluginInit env name parent stk (w\<lparr>ld_open := h # ld_open w\<rparr>)))
   | _ \<Rightarrow> True"
proof (cases "dlopen (c_str so)")
  case (Inl e)
  then show ?thesis by (simp add: csPluginLoader_ctor_def)
next
  case (Inr h)
  let ?w = "w\<lparr>ld_open := h # ld_open w\<rparr>"
  have fr: "csPluginInit env name parent stk ?w = Return a v \<Longrightarrow> ld_open v = h # ld_open w \<and> a = Some (ld_next w)"
    "csPluginInit env name parent stk ?w = Throw e v \<Longrightarrow> ld_open v = h # ld_open w" for a e v
    using csPluginInit_frame [of env name parent stk ?w v] csPluginInit_address [of env name parent stk ?w] by auto
  show ?thesis
  proof (cases "csPluginInit env name parent stk ?w")
    case (Return a v)
    then show ?thesis using Inr fr(1) [OF Return]
      by (auto simp: csPluginLoader_ctor_def csPluginLoader_dtor_def Let_def split: option.splits)
  next
    case (Throw e v)
    then show ?thesis using Inr fr(2) [OF Throw]
      by (auto simp: csPluginLoader_ctor_def Let_def split: option.splits)
  qed (auto simp: csPluginLoader_ctor_def Let_def Inr split: option.splits)
qed

end
