(* ===== verification/Cs_Main_Conf.thy ===== *)
theory Cs_Main_Conf
  imports Cs_Loader Cs_Conf Cs_Timer Cs_Netlink Cs_Util
begin

text \<open>
  The daemon's configuration (\<open>csmain.cpp\<close>, \<open>csmain.h\<close>): the XML handlers of
  \<open>csMainXmlParser\<close>, the event filters, the scan of the plugin directory and the reload.

  \<open>main_world\<close> is the state of the whole daemon: the system state with the plugin objects, the
  members of \<open>csMain\<close> and \<open>csMainConf\<close>, and the states of the logging, timer and netlink
  components. The XML parser holds it as its client. The functions that a plugin library
  overrides, \<open>dlopen\<close>, the directory and the files are the argument \<open>main_env\<close>.
\<close>

section \<open>State\<close>

record main_world = loader_world +
  mw_this :: nat
  mw_version :: int
  mw_plugin_dir :: string
  mw_filename :: string
  mw_plugin :: "(string, csPluginLoader) omap"
  mw_filter :: "(nat, string list) omap"
  mw_log_stdout :: "nat option"
  mw_log_syslog :: "nat option"
  mw_sig_handler :: "nat option"
  mw_timer_thread :: "nat option"
  mw_netlink_thread :: "nat option"
  mw_stdout :: string
  mw_killed :: "u64 list"
  mw_crypto :: "mutex list option"
  mw_logger :: log_world
  mw_timer :: timer_world
  mw_netlink :: netlink_world

text \<open>Entries of a directory: an error of \<open>readdir_r\<close>, or a name with its type.\<close>

datatype dirent_type = DT_DIR | DT_REG | DT_LNK | DT_UNKNOWN | DT_OTHER

record main_env =
  me_pthread :: pthread_env
  me_page :: nat
  me_stack_min :: u64
  me_dlopen :: "string \<Rightarrow> string + nat"
  me_dlsym_error :: "nat \<Rightarrow> string option"
  me_null :: "nat \<Rightarrow> bool"
  me_set_conf :: "nat \<Rightarrow> string \<Rightarrow> main_world \<Rightarrow> (main_world, unit) outcome"
  me_alloc :: "nat \<Rightarrow> bool"
  me_strerror :: "int \<Rightarrow> string"
  me_regexec :: "string \<Rightarrow> int"
  me_readdir :: "string \<Rightarrow> int + (int + string \<times> dirent_type) list"
  me_expat :: "bytes list \<Rightarrow> bool \<Rightarrow> (sax \<times> xml_pos) list \<times> (string \<times> xml_pos) option"
  me_fopen :: "string \<Rightarrow> nat \<Rightarrow> int + read_result list"
  me_plugin_dtor :: "nat \<Rightarrow> main_world \<Rightarrow> (main_world, unit) outcome"
  me_daemon :: "int option"
  me_pid :: int
  me_crypto_locks :: nat
  me_rt_signals :: int
  me_timer_create :: "int + nat"
  me_nl_socket :: "int + int"
  me_nl_bind :: "int option"
  me_sigmask :: int
  me_version :: string
  me_build :: "string \<times> string"
  me_bugreport :: "string option"

definition CS_CONF_VERSION :: int where "CS_CONF_VERSION = 1"
definition CS_MAIN_CONF :: string where "CS_MAIN_CONF = ''/etc/clearsync.conf''"
definition CS_PLUGIN_CONF :: string where "CS_PLUGIN_CONF = ''/etc/clearsync.d''"
definition CS_PID_FILE :: string where "CS_PID_FILE = ''/var/run/clearsync/clearsyncd.pid''"

text \<open>\<open>catch (csException &e)\<close>; \<open>std::bad_alloc\<close> is not a \<open>csException\<close>.\<close>

fun catchO :: "('s, 'a) outcome \<Rightarrow> (cs_exception \<Rightarrow> 's \<Rightarrow> ('s, 'a) outcome) \<Rightarrow> ('s, 'a) outcome" where
  "catchO (Throw e s) h = (if exc_class e = ClassBadAlloc then Throw e s else h e s)"
| "catchO m h = m"

definition what :: "main_env \<Rightarrow> cs_exception \<Rightarrow> string" where
  "what env e = (case exc_what e of WhatString s \<Rightarrow> s | WhatStrerror n \<Rightarrow> me_strerror env n)"

section \<open>Numbers\<close>

text \<open>
  \<open>strtol\<close> in base 10: blanks, a sign, digits; out of range it saturates. \<open>atol\<close> is \<open>strtol\<close>,
  \<open>atoi\<close> keeps its low 32 bits.
\<close>

definition strtol10 :: "string \<Rightarrow> int" where
  "strtol10 s =
     (let t = dropWhile isspace (c_str s);
          neg = (t \<noteq> [] \<and> hd t = CHR ''-'');
          u = (if t \<noteq> [] \<and> (hd t = CHR ''-'' \<or> hd t = CHR ''+'') then tl t else t);
          n = int (read_base 10 (takeWhile (\<lambda>c. CHR ''0'' \<le> c \<and> c \<le> CHR ''9'') u));
          v = (if neg then - n else n)
      in if v < - (2 ^ 63) then - (2 ^ 63) else if v > 2 ^ 63 - 1 then 2 ^ 63 - 1 else v)"

definition atol :: "string \<Rightarrow> int" where
  "atol s = strtol10 s"

definition atoi :: "string \<Rightarrow> int" where
  "atoi s = sint (word_of_int (strtol10 s) :: u32)"

section \<open>Event filters\<close>

text \<open>\<open>text.find('|', prev)\<close>.\<close>

definition find_bar :: "string \<Rightarrow> nat \<Rightarrow> nat option" where
  "find_bar s p = (let t = takeWhile (\<lambda>c. c \<noteq> CHR ''|'') (drop p s)
     in if p + length t < length s then Some (p + length t) else None)"

function split_loop :: "string \<Rightarrow> nat \<Rightarrow> string list \<Rightarrow> nat \<times> string list" where
  "split_loop text prev substr = (case find_bar text prev of
       None \<Rightarrow> (prev, substr)
     | Some nxt \<Rightarrow> split_loop text (Suc nxt) (substr @ [take (nxt - prev) (drop prev text)]))"
  by auto

termination
  by (relation "measure (\<lambda>(text, prev, substr). length text - prev)")
    (auto simp: find_bar_def Let_def split: if_splits)

declare split_loop.simps [simp del]

definition filter_atoms :: "string \<Rightarrow> string list" where
  "filter_atoms text = (let (prev, substr) = split_loop text 0 []
     in if length text > prev then substr @ [drop prev text] else substr)"

text \<open>
  \<open>find_first_not_of(' ')\<close> and \<open>find_last_not_of(' ')\<close>; when all characters are blanks both
  give \<open>npos\<close>, and the substring is empty.
\<close>

definition trim_atom :: "string \<Rightarrow> string" where
  "trim_atom s = (let h = length (takeWhile (\<lambda>c. c = CHR '' '') s);
       t = length (takeWhile (\<lambda>c. c = CHR '' '') (rev s))
     in if h = length s then [] else take (length s - t - h) (drop h s))"

definition filter_push :: "nat \<Rightarrow> string \<Rightarrow> main_world \<Rightarrow> main_world" where
  "filter_push plugin atom w = w\<lparr>mw_filter := omap_update plugin
     ((case omap_lookup (mw_filter w) plugin of None \<Rightarrow> [] | Some v \<Rightarrow> v) @ [atom]) (mw_filter w)\<rparr>"

fun filter_add :: "nat \<Rightarrow> string \<Rightarrow> string list \<Rightarrow> main_world \<Rightarrow> main_world" where
  "filter_add plugin name [] w = w"
| "filter_add plugin name (s # ss) w =
     (if length s = 0 then filter_add plugin name ss w
      else let atom = trim_atom s in
        if strcasecmp_eq atom name
        then filter_add plugin name ss (sys_log Level_Warning
          ''You can not add a plugin to it's own event filter: %s'' [ArgS (c_str atom)] w)
        else filter_add plugin name ss (filter_push plugin atom w))"

definition ParseEventFilter :: "nat \<Rightarrow> string \<Rightarrow> main_world \<Rightarrow> (main_world, unit) outcome" where
  "ParseEventFilter plugin text w = (case ld_objs w plugin of None \<Rightarrow> Undef
     | Some p \<Rightarrow> Return () (filter_add plugin (pl_name p) (filter_atoms text) w))"

definition ValidateConfiguration :: "main_world \<Rightarrow> main_world" where
  "ValidateConfiguration w = fold (\<lambda>(p, names). fold (\<lambda>n w.
       if omap_lookup (mw_plugin w) n \<noteq> None then w
       else sys_log Level_Warning ''Event filter plugin not found: %s'' [ArgS (c_str n)] w) names)
     (mw_filter w) w"

section \<open>XML handlers\<close>

definition stack_size_of :: "main_env \<Rightarrow> csXmlTag \<Rightarrow> u64" where
  "stack_size_of env tag = (case omap_lookup (xt_param tag) ''stack-size'' of
       None \<Rightarrow> CS_THREAD_STACK_SIZE
     | Some v \<Rightarrow> let s = word_of_int (atol (c_str v)); page = of_nat (me_page env) in
         if s < me_stack_min env then me_stack_min env
         else if s mod page \<noteq> 0 then s + s mod page else s)"

definition load_plugin :: "main_env \<Rightarrow> string \<Rightarrow> string \<Rightarrow> u64 \<Rightarrow> main_world \<Rightarrow> (main_world, csPluginLoader option) outcome" where
  "load_plugin env library name stack_size w =
     catchO (bindO (csPluginLoader_ctor (me_dlopen env) (me_dlsym_error env)
         (\<lambda>h. if me_null env h then Return None else csPluginInit (me_pthread env) name (mw_this w) stack_size)
         library w) (\<lambda>l w. Return (Some l) w))
       (\<lambda>e w. Return None (sys_log Level_Error ''Plugin loader failed: %s'' [ArgS (c_str (estring e))] w))"

definition configure_plugin ::
  "main_env \<Rightarrow> csPluginLoader \<Rightarrow> string \<Rightarrow> string \<Rightarrow> u64 \<Rightarrow> csXmlTag \<Rightarrow> main_world \<Rightarrow> (main_world, handler_result) outcome" where
  "configure_plugin env l name library stack_size tag w =
     catchO (bindO (me_set_conf env (ld_plugin l) (mw_filename w) w) (\<lambda>_ w.
         Return (HandlerOk (tag\<lparr>xt_data := Some (ld_plugin l)\<rparr>))
           (sys_log Level_Debug ''Plugin: %s (%s), stack size: %ld''
             [ArgS (c_str name), ArgS (c_str library), ArgI (sint stack_size)]
             (w\<lparr>mw_plugin := omap_update name l (mw_plugin w)\<rparr>))))
       (\<lambda>e w. Return (HandlerOk tag) (csPluginLoader_dtor l
         (sys_log Level_Error ''Configuration error: %s: %s: %s''
           [ArgS (c_str name), ArgS (c_str (estring e)), ArgS (what env e)] w)))"

definition unexpected :: "csXmlTag \<Rightarrow> handler_result" where
  "unexpected tag = HandlerError (''unexpected tag: '' @ xt_name tag)"

definition main_ParseElementOpen ::
  "main_env \<Rightarrow> tag_stack \<Rightarrow> csXmlTag \<Rightarrow> main_world \<Rightarrow> (main_world, handler_result) outcome" where
  "main_ParseElementOpen env stk tag w =
     (if tag_is tag ''csconf'' then
        if length stk \<noteq> 0 then Return (unexpected tag) w
        else case omap_lookup (xt_param tag) ''version'' of
            None \<Rightarrow> Return (HandlerError ''version parameter missing'') w
          | Some v \<Rightarrow>
              let w = w\<lparr>mw_version := atoi (c_str v)\<rparr>;
                  w = sys_log Level_Debug ''Configuration version: %d'' [ArgI (mw_version w)] w
              in if mw_version w > CS_CONF_VERSION then Return (HandlerError ''unsupported version, too new'') w
                 else Return (HandlerOk tag) w
      else if tag_is tag ''plugin'' then
        if length stk \<noteq> 0 then Return (unexpected tag) w
        else case omap_lookup (xt_param tag) ''name'' of
            None \<Rightarrow> Return (HandlerError ''name parameter missing'') w
          | Some name \<Rightarrow> (case omap_lookup (xt_param tag) ''library'' of
              None \<Rightarrow> Return (HandlerError ''library parameter missing'') w
            | Some library \<Rightarrow>
                let stack_size = stack_size_of env tag in
                if omap_lookup (mw_plugin w) name \<noteq> None
                then Return (HandlerError (''duplicate plugin: '' @ name)) w
                else bindO (load_plugin env library name stack_size w) (\<lambda>l w. case l of
                    None \<Rightarrow> Return (HandlerOk tag) w
                  | Some l \<Rightarrow> configure_plugin env l name library stack_size tag w))
      else Return (HandlerOk tag) w)"

text \<open>The two checks that the three tags with a value share: the enclosing tag, and some text.\<close>

definition value_tag ::
  "string \<Rightarrow> tag_stack \<Rightarrow> csXmlTag \<Rightarrow> main_world \<Rightarrow> (csXmlTag \<Rightarrow> (main_world, handler_result) outcome) \<Rightarrow>
   (main_world, handler_result) outcome" where
  "value_tag parent stk tag w k =
     (if stk = [] then Return (unexpected tag) w
      else case last stk of None \<Rightarrow> Undef
        | Some encl \<Rightarrow>
            if tag_is_not encl parent then Return (unexpected tag) w
            else if length (xt_text tag) = 0
            then Return (HandlerError (''missing value for tag: '' @ xt_name tag)) w
            else k encl)"

definition main_ParseElementClose ::
  "main_env \<Rightarrow> tag_stack \<Rightarrow> csXmlTag \<Rightarrow> main_world \<Rightarrow> (main_world, handler_result) outcome" where
  "main_ParseElementClose env stk tag w =
     (let text = xt_text tag in
      if tag_is tag ''plugin-dir'' then value_tag ''csconf'' stk tag w (\<lambda>encl.
        Return (HandlerOk tag) (sys_log Level_Debug ''Plug-in configuration directory: %s'' [ArgS (c_str text)]
          (w\<lparr>mw_plugin_dir := text\<rparr>)))
      else if tag_is tag ''state-file'' then value_tag ''plugin'' stk tag w (\<lambda>encl. case xt_data encl of
          None \<Rightarrow> Return (HandlerOk tag) w
        | Some plugin \<Rightarrow> bindO (plugin_op plugin (SetStateFile (me_alloc env) text) w) (\<lambda>_ w.
            Return (HandlerOk tag) w))
      else if tag_is tag ''event-filter'' then value_tag ''plugin'' stk tag w (\<lambda>encl. case xt_data encl of
          None \<Rightarrow> Return (HandlerOk tag) w
        | Some plugin \<Rightarrow> bindO (ParseEventFilter plugin text w) (\<lambda>_ w. Return (HandlerOk tag) w))
      else Return (HandlerOk tag) w)"

definition main_handlers :: "main_env \<Rightarrow> main_world xml_handlers" where
  "main_handlers env = \<lparr>ParseElementOpen = main_ParseElementOpen env, ParseElementClose = main_ParseElementClose env\<rparr>"

section \<open>Files\<close>

type_synonym conf_world = "main_world xml_world"

definition conf_log :: "u32 \<Rightarrow> string \<Rightarrow> fmt_arg list \<Rightarrow> conf_world \<Rightarrow> conf_world" where
  "conf_log level format args x = x\<lparr>xp_client := sys_log level format args (xp_client x)\<rparr>"

text \<open>\<open>filename\<close> is the member of \<open>csConf\<close> that \<open>Parse\<close> reads through \<open>GetFilename\<close>.\<close>

definition set_filename :: "string \<Rightarrow> conf_world \<Rightarrow> conf_world" where
  "set_filename f x = x\<lparr>xp_conf := Some f, xp_client := (xp_client x)\<lparr>mw_filename := f\<rparr>\<rparr>"

text \<open>The object is made on a parser that exists; \<open>SetConf\<close> then makes it known to the parser.\<close>

definition csConf_ctor :: "string \<Rightarrow> conf_world \<Rightarrow> conf_world" where
  "csConf_ctor filename x = x\<lparr>xp_client := (xp_client x)\<lparr>mw_filename := filename\<rparr>\<rparr>"

declare csConf_ctor_def [simp]

definition csMainConf_ctor :: "string \<Rightarrow> conf_world \<Rightarrow> conf_world" where
  "csMainConf_ctor filename x = (let x = csConf_ctor filename x in
     x\<lparr>xp_client := (xp_client x)\<lparr>mw_version := -1, mw_plugin_dir := CS_PLUGIN_CONF\<rparr>\<rparr>)"

definition REG_NOMATCH :: int where "REG_NOMATCH = 1"

definition xml_error_args :: "cs_exception \<Rightarrow> u32 \<Rightarrow> u32 \<Rightarrow> u8 \<Rightarrow> fmt_arg list" where
  "xml_error_args e row col byte = [ArgS (c_str (estring e)), ArgI (uint row), ArgI (uint col), ArgI (uint byte)]"

text \<open>The two \<open>catch\<close> clauses around one configuration file.\<close>

definition report_conf_error :: "main_env \<Rightarrow> cs_exception \<Rightarrow> conf_world \<Rightarrow> conf_world" where
  "report_conf_error env e x = (case exc_class e of
       ClassXmlParseException row col byte \<Rightarrow> conf_log Level_Error
         ''XML parse error, %s on line: %u, column: %u, byte: 0x%02x'' (xml_error_args e row col byte) x
     | _ \<Rightarrow> conf_log Level_Error ''%s: %s.'' [ArgS (c_str (estring e)), ArgS (what env e)] x)"

definition scan_file :: "main_env \<Rightarrow> string \<Rightarrow> conf_world \<Rightarrow> (conf_world, unit) outcome" where
  "scan_file env name x =
     (let x = set_filename (mw_plugin_dir (xp_client x) @ ''/'' @ name) x in
      catchO (bindO (Reset (me_page env) x) (\<lambda>_ x.
          Parse (main_handlers env) (me_expat env) (me_fopen env) (me_page env) None x))
        (\<lambda>e x. Return () (report_conf_error env e x)))"

fun scan_loop :: "main_env \<Rightarrow> (int + string \<times> dirent_type) list \<Rightarrow> conf_world \<Rightarrow> (conf_world, unit) outcome" where
  "scan_loop env [] x = Return () x"
| "scan_loop env (Inl err # es) x = Return () (conf_log Level_Error ''readdir: %s'' [ArgS (me_strerror env err)] x)"
| "scan_loop env (Inr (name, ty) # es) x =
     (if ty = DT_DIR then scan_loop env es x
      else if ty \<noteq> DT_REG \<and> ty \<noteq> DT_LNK \<and> ty \<noteq> DT_UNKNOWN then scan_loop env es x
      else if me_regexec env name = REG_NOMATCH then scan_loop env es x
      else bindO (scan_file env name x) (\<lambda>_ x. scan_loop env es x))"

definition ScanPlugins :: "main_env \<Rightarrow> conf_world \<Rightarrow> (conf_world, unit) outcome" where
  "ScanPlugins env x =
     (let main_conf_filename = mw_filename (xp_client x); dir = mw_plugin_dir (xp_client x) in
      bindO (case me_readdir env (c_str dir) of
          Inl err \<Rightarrow> Return () (conf_log Level_Warning ''Error opening plugin-dir: %s: %s''
            [ArgS (c_str dir), ArgS (me_strerror env err)] x)
        | Inr entries \<Rightarrow> scan_loop env entries x) (\<lambda>_ x.
      Return () (set_filename main_conf_filename x)))"

definition Reload :: "main_env \<Rightarrow> conf_world \<Rightarrow> (conf_world, unit) outcome" where
  "Reload env x =
     bindO (csConf_Reload (me_page env) (conf_log Level_Debug ''Reload configuration.'' [] x)) (\<lambda>_ x.
     bindO (Parse (main_handlers env) (me_expat env) (me_fopen env) (me_page env) None x) (\<lambda>_ x.
     ScanPlugins env x))"

end
