(* ===== verification/Cs_Main.thy ===== *)
theory Cs_Main
  imports Cs_Main_Conf Cs_HexDump
begin

unbundle bit_operations_syntax

text \<open>
  The daemon (\<open>csmain.cpp\<close>, \<open>csmain.h\<close>): the dispatch of plugin events, the main loop, the
  signal handler thread, the command line, the construction and destruction of \<open>csMain\<close> and
  \<open>main\<close>.

  The results of \<open>getopt_long\<close>, \<open>sigwaitinfo\<close>, \<open>waitpid\<close> and of the waits for events are
  inputs. The state is the XML parser with \<open>main_world\<close> as its client, as in \<open>Cs_Main_Conf\<close>;
  the operations of the logging, timer and netlink components run on the parts of
  \<open>main_world\<close> that they need.
\<close>

section \<open>Plugin events\<close>

text \<open>The inner loop: the first name of a plugin's filter that matches decides.\<close>

fun filter_loop :: "nat \<Rightarrow> string \<Rightarrow> nat \<Rightarrow> string list \<Rightarrow> main_world \<Rightarrow> (main_world, unit) outcome" where
  "filter_loop event source plugin [] w = Return () w"
| "filter_loop event source plugin (j # js) w =
     (if \<not> strcasecmp_eq source j then filter_loop event source plugin js w
      else bindO (pluginName plugin w) (\<lambda>name w. case omap_lookup (mw_plugin w) name of
          None \<Rightarrow> filter_loop event source plugin js w
        | Some l \<Rightarrow> bindO (ev_op (Clone event) w) (\<lambda>copy w.
            ev_op (EventDispatch (mw_this w) copy (ClientAt (ld_plugin l))) w)))"

fun dispatch_loop :: "nat \<Rightarrow> string \<Rightarrow> (nat \<times> string list) list \<Rightarrow> main_world \<Rightarrow> (main_world, unit) outcome" where
  "dispatch_loop event source [] w = Return () w"
| "dispatch_loop event source ((plugin, names) # fs) w =
     bindO (filter_loop event source plugin names w) (\<lambda>_ w. dispatch_loop event source fs w)"

definition DispatchPluginEvent :: "nat \<Rightarrow> main_world \<Rightarrow> (main_world, unit) outcome" where
  "DispatchPluginEvent event w =
     bindO (ev_op (ev_read event) w) (\<lambda>e w. case ev_src e of
       ClientAt plugin \<Rightarrow>
         bindO (pluginName plugin w) (\<lambda>source w.
         case ev_class e of EvPlugin kv \<Rightarrow>
           bindO (ev_op (ev_write event (csEventPlugin_SetValue ''event_source'' source)) w) (\<lambda>_ w.
           dispatch_loop event source (mw_filter w) w)
         | _ \<Rightarrow> Undef)
     | _ \<Rightarrow> Undef)"

section \<open>The main loop\<close>

record wait_input =
  wi_now :: timespec
  wi_waits :: "timespec option \<Rightarrow> (int \<times> (ev_world \<Rightarrow> ev_world)) list"

definition handle_event :: "nat \<Rightarrow> main_world \<Rightarrow> (main_world, bool) outcome" where
  "handle_event event w =
     bindO (ev_op (ev_read event) w) (\<lambda>e w.
     if ev_id e = csEVENT_QUIT
     then bindO (ev_op (EventDestroy event) (sys_log Level_Debug ''Terminating...'' [] w)) (\<lambda>_ w. Return False w)
     else bindO (if ev_id e = csEVENT_RELOAD then Return () w
                 else if ev_id e = csEVENT_PLUGIN then DispatchPluginEvent event w
                 else Return () (sys_log Level_Debug ''Unhandled event: %u'' [ArgI (uint (ev_id e))] w)) (\<lambda>_ w.
          bindO (ev_op (EventDestroy event) w) (\<lambda>_ w. Return True w)))"

definition main_turn :: "wait_input \<Rightarrow> main_world \<Rightarrow> (main_world, bool) outcome" where
  "main_turn inp w =
     bindO (ev_op (EventPopWait (mw_this w) 0 (wi_now inp) (wi_waits inp)) w) (\<lambda>event w.
     case event of None \<Rightarrow> Undef | Some a \<Rightarrow> handle_event a w)"

text \<open>\<open>Run\<close> over the waits still to come; \<open>None\<close> is a loop that is still waiting.\<close>

fun Run :: "wait_input list \<Rightarrow> main_world \<Rightarrow> (main_world, unit option) outcome" where
  "Run [] w = Return None w"
| "Run (i # is) w = bindO (main_turn i w) (\<lambda>go w. if go then Run is w else Return (Some ()) w)"

section \<open>The signal handler\<close>

datatype wait_status = Exited int | Signaled int | Abnormal

definition SIGHUP :: int where "SIGHUP = 1"
definition SIGINT :: int where "SIGINT = 2"
definition SIGTERM :: int where "SIGTERM = 15"
definition SIGCHLD :: int where "SIGCHLD = 17"

text \<open>\<open>waitpid\<close> gives these children before it returns zero or fails.\<close>

fun Reaper :: "(int \<Rightarrow> string) \<Rightarrow> (int \<times> wait_status) list \<Rightarrow> 'b sys_world_scheme \<Rightarrow> 'b sys_world_scheme" where
  "Reaper strsignal [] w = w"
| "Reaper strsignal ((pid, status) # cs) w = Reaper strsignal cs (case status of
       Exited code \<Rightarrow> sys_log Level_Debug ''Process exited with code: %d: %d'' [ArgI pid, ArgI code] w
     | Signaled sig \<Rightarrow> sys_log Level_Debug ''Process exited by signal: %d: %s'' [ArgI pid, ArgS (strsignal sig)] w
     | Abnormal \<Rightarrow> sys_log Level_Warning ''Process exited abnormally: %d'' [ArgI pid] w)"

definition broadcast_new :: "nat \<Rightarrow> csEvent \<Rightarrow> 'b sys_world_scheme \<Rightarrow> ('b sys_world_scheme, unit) outcome" where
  "broadcast_new this e w = ev_op (\<lambda>v. bindO (ev_new e v) (\<lambda>a v. EventBroadcast this a v)) w"

definition quit_broadcast :: csEvent where
  "quit_broadcast = csEvent_ctor csEVENT_QUIT (Flag_Sticky OR Flag_HighPriority)"

definition signal_turn ::
  "(int \<Rightarrow> string) \<Rightarrow> (int \<Rightarrow> string) \<Rightarrow> nat \<Rightarrow> (int + int) \<times> (int \<times> wait_status) list \<Rightarrow> 'b sys_world_scheme \<Rightarrow>
   ('b sys_world_scheme, bool) outcome" where
  "signal_turn strerror strsignal this inp w = (case fst inp of
       Inl err \<Rightarrow>
         let w = sys_log Level_Error ''sigwaitinfo: %s'' [ArgS (strerror err)] w in
         if err = EINTR then Return True w
         else bindO (broadcast_new this quit_broadcast w) (\<lambda>_ w. Return False w)
     | Inr sig \<Rightarrow>
         let w = sys_log Level_Debug ''Signal received: %s'' [ArgS (strsignal sig)] w in
         if sig = SIGINT \<or> sig = SIGTERM then bindO (broadcast_new this quit_broadcast w) (\<lambda>_ w. Return False w)
         else if sig = SIGHUP
         then bindO (broadcast_new this (csEvent_ctor csEVENT_RELOAD Flag_None) w) (\<lambda>_ w. Return True w)
         else if sig = SIGCHLD then Return True (Reaper strsignal (snd inp) w)
         else Return True (sys_log Level_Warning ''Unhandled signal: %s'' [ArgS (strsignal sig)] w))"

fun signal_loop ::
  "(int \<Rightarrow> string) \<Rightarrow> (int \<Rightarrow> string) \<Rightarrow> nat \<Rightarrow> ((int + int) \<times> (int \<times> wait_status) list) list \<Rightarrow> 'b sys_world_scheme \<Rightarrow>
   ('b sys_world_scheme, unit option) outcome" where
  "signal_loop strerror strsignal this [] w = Return None w"
| "signal_loop strerror strsignal this (i # is) w = bindO (signal_turn strerror strsignal this i w) (\<lambda>go w.
     if go then signal_loop strerror strsignal this is w else Return (Some ()) w)"

definition csSignalHandler_Entry ::
  "(int \<Rightarrow> string) \<Rightarrow> (int \<Rightarrow> string) \<Rightarrow> nat \<Rightarrow> ((int + int) \<times> (int \<times> wait_status) list) list \<Rightarrow> 'b sys_world_scheme \<Rightarrow>
   ('b sys_world_scheme, unit option) outcome" where
  "csSignalHandler_Entry strerror strsignal this inputs w =
     signal_loop strerror strsignal this inputs (sys_log Level_Debug ''Signal handler started.'' [] w)"

section \<open>libcrypto's locks\<close>

definition CRYPTO_LOCK :: int where "CRYPTO_LOCK = 1"

definition cs_crypto_lock :: "int \<Rightarrow> nat \<Rightarrow> main_world \<Rightarrow> (main_world, unit) outcome" where
  "cs_crypto_lock mode n w = (case mw_crypto w of
       None \<Rightarrow> Return () (sys_log Level_Error ''libcrypto mutexes not initialized!'' [] w)
     | Some ms \<Rightarrow>
         if n \<ge> length ms then Undef
         else if mode AND CRYPTO_LOCK \<noteq> 0
         then mutex_lock (\<lambda>w. ms ! n) (\<lambda>f w. w\<lparr>mw_crypto := Some (ms[n := f (ms ! n)])\<rparr>) w
         else mutex_unlock (\<lambda>w. ms ! n) (\<lambda>f w. w\<lparr>mw_crypto := Some (ms[n := f (ms ! n)])\<rparr>) w)"

section \<open>Dumping a state file\<close>

text \<open>A destructor that runs on a normal return and on an exception.\<close>

fun finallyO :: "('s, 'a) outcome \<Rightarrow> ('s \<Rightarrow> ('s, unit) outcome) \<Rightarrow> ('s, 'a) outcome" where
  "finallyO (Return a s) d = bindO (d s) (\<lambda>_ s. Return a s)"
| "finallyO (Throw e s) d = bindO (d s) (\<lambda>_ s. Throw e s)"
| "finallyO m d = m"

text \<open>\<open>csHexDump\<close> takes the length as a 32-bit number.\<close>

fun dump_vars :: "(string \<times> csPluginStateValue) list \<Rightarrow> string option" where
  "dump_vars [] = Some []"
| "dump_vars ((key, v) # vs) =
     (case csHexDump (take (unat (ucast (sv_length v) :: u32)) (sv_bytes v)) of None \<Rightarrow> None
      | Some t \<Rightarrow> map_option (\<lambda>r. CHR 0x22 # c_str key @ [CHR 0x22, CHR 0x0A] @ t @ [CHR 0x0A] @ r) (dump_vars vs))"

definition state_loader_dump :: "main_env \<Rightarrow> nat \<Rightarrow> string \<Rightarrow> main_world \<Rightarrow> (main_world, unit) outcome" where
  "state_loader_dump env a state w =
     bindO (plugin_op a (SetStateFile (me_alloc env) state) w) (\<lambda>_ w.
     bindO (plugin_op a (LoadState (me_alloc env)) w) (\<lambda>_ w.
     case ld_objs w a of None \<Rightarrow> Undef | Some p \<Rightarrow> (case dump_vars (pl_vars p) of None \<Rightarrow> Undef
       | Some t \<Rightarrow> Return () (w\<lparr>mw_stdout := mw_stdout w @ t\<rparr>))))"

definition DumpStateFile :: "main_env \<Rightarrow> string \<Rightarrow> main_world \<Rightarrow> (main_world, unit) outcome" where
  "DumpStateFile env state w =
     bindO (csPluginInit (me_pthread env) ''StateLoader'' 0 65536 w) (\<lambda>a w. case a of None \<Rightarrow> Undef
       | Some a \<Rightarrow> finallyO (state_loader_dump env a state w) (csPlugin_delete a))"

section \<open>The command line\<close>

definition csUsageException :: cs_exception where
  "csUsageException = (csException_s ''csUsageException'')\<lparr>exc_class := ClassUsageException\<rparr>"

definition csDumpStateException :: cs_exception where
  "csDumpStateException = (csException_s ''csDumpStateException'')\<lparr>exc_class := ClassDumpStateException\<rparr>"

definition csInvalidOptionException :: cs_exception where
  "csInvalidOptionException = (csException_s ''csInvalidOptionException'')\<lparr>exc_class := ClassInvalidOptionException\<rparr>"

definition usage_lines :: "main_env \<Rightarrow> bool \<Rightarrow> (string \<times> fmt_arg list) list" where
  "usage_lines env version =
     [(''ClearSync v%s'', [ArgS (me_version env)]),
      (''Copyright (C) 2011-2012 ClearFoundation [%s %s]'', [ArgS (fst (me_build env)), ArgS (snd (me_build env))])] @
     (if version then
        [(''  This program comes with ABSOLUTELY NO WARRANTY.'', []),
         (''  This is free software, and you are welcome to redistribute it'', []),
         (''  under certain conditions according to the GNU General Public'', []),
         (''  License version 3, or (at your option) any later version.'', [])] @
        (case me_bugreport env of None \<Rightarrow> [] | Some a \<Rightarrow> [(''Report bugs to: %s'', [ArgS a])])
      else
        [(''  -V, --version'', []),
         (''    Display program version and license information.'', []),
         (''  -c <file>, --config <file>'', []),
         (''    Specify an alternate configuration file.'', []),
         (''    Default: %s'', [ArgS CS_MAIN_CONF]),
         (''  -D, --dump-state <state-file>'', []),
         (''    Dump the contents of a plugin state file.'', []),
         (''  -d, --debug'', []),
         (''    Enable debugging messages and remain in the foreground.'', [])])"

definition Usage :: "main_env \<Rightarrow> bool \<Rightarrow> main_world \<Rightarrow> (main_world, 'a) outcome" where
  "Usage env version w = Throw csUsageException
     (fold (\<lambda>(f, args). sys_log Level_Info f args) (usage_lines env version) w)"

record options =
  op_debug :: bool
  op_conf_filename :: string
  op_log_file :: string

definition log_op :: "(log_world \<Rightarrow> (log_world, 'a) outcome) \<Rightarrow> main_world \<Rightarrow> (main_world, 'a) outcome" where
  "log_op f w = zoomO mw_logger mw_logger_update f w"

fun option_loop ::
  "main_env \<Rightarrow> string \<Rightarrow> (char \<times> string) list \<Rightarrow> options \<Rightarrow> main_world \<Rightarrow> (main_world, options) outcome" where
  "option_loop env argv0 [] st w = Return st w"
| "option_loop env argv0 ((rc, optarg) # os) st w =
     (if rc = CHR ''V'' then Usage env True w
      else if rc = CHR ''c'' then option_loop env argv0 os (st\<lparr>op_conf_filename := optarg\<rparr>) w
      else if rc = CHR ''d'' then option_loop env argv0 os (st\<lparr>op_debug := True\<rparr>)
        (w\<lparr>mw_logger := SetMask (Level_Info OR Level_Warning OR Level_Error OR Level_Debug) (mw_logger w)\<rparr>)
      else if rc = CHR ''D'' then bindO (DumpStateFile env optarg w) (\<lambda>_ w. Throw csInvalidOptionException w)
      else if rc = CHR ''l'' then option_loop env argv0 os (st\<lparr>op_log_file := optarg\<rparr>) w
      else if rc = CHR ''?'' then Throw csInvalidOptionException
        (sys_log Level_Info ''Try %s --help for more information.'' [ArgS argv0] w)
      else if rc = CHR ''h'' then Usage env False w
      else option_loop env argv0 os st w)"

section \<open>Starting up\<close>

text \<open>Operations of the timer and netlink components on their part of the state.\<close>

definition with_sys :: "'b sys_world_scheme \<Rightarrow> 'c sys_world_scheme \<Rightarrow> 'c sys_world_scheme" where
  "with_sys w t = t\<lparr>sw_ev := sw_ev w, sw_threads := sw_threads w, sw_joined := sw_joined w, sw_log := sw_log w\<rparr>"

definition timer_op :: "(timer_world \<Rightarrow> (timer_world, 'a) outcome) \<Rightarrow> main_world \<Rightarrow> (main_world, 'a) outcome" where
  "timer_op f w = zoomO (\<lambda>w. with_sys w (mw_timer w))
     (\<lambda>g w. let t = g (with_sys w (mw_timer w)) in with_sys t (w\<lparr>mw_timer := t\<rparr>)) f w"

definition netlink_op :: "(netlink_world \<Rightarrow> (netlink_world, 'a) outcome) \<Rightarrow> main_world \<Rightarrow> (main_world, 'a) outcome" where
  "netlink_op f w = zoomO (\<lambda>w. with_sys w (mw_netlink w))
     (\<lambda>g w. let t = g (with_sys w (mw_netlink w)) in with_sys t (w\<lparr>mw_netlink := t\<rparr>)) f w"

definition fresh :: "(nat \<Rightarrow> main_world \<Rightarrow> (main_world, 'a) outcome) \<Rightarrow> main_world \<Rightarrow> (main_world, 'a) outcome" where
  "fresh f w = f (ld_next w) (w\<lparr>ld_next := Suc (ld_next w)\<rparr>)"

definition save_pid :: "main_env \<Rightarrow> main_world \<Rightarrow> main_world" where
  "save_pid env w = (case fopen CS_PID_FILE ''w+'' (ld_disk w) of
       (Inl err, d) \<Rightarrow> sys_log Level_Warning ''Error saving PID file: %s'' [ArgS CS_PID_FILE] w
     | (Inr h, d) \<Rightarrow> (case fwrite (key_bytes (show_int (me_pid env) @ [CHR 0x0A])) h d of
           (ok, h, d) \<Rightarrow> if ok then w\<lparr>ld_disk := d\<rparr>
             else sys_log Level_Warning ''Error saving PID file: %s'' [ArgS CS_PID_FILE] (w\<lparr>ld_disk := d\<rparr>)))"

text \<open>LOG_PID is 1 and LOG_DAEMON is 24.\<close>

definition become_daemon :: "main_env \<Rightarrow> main_world \<Rightarrow> (main_world, unit) outcome" where
  "become_daemon env w = (case me_daemon env of
       Some err \<Rightarrow> Throw (csException_es err ''daemon'') w
     | None \<Rightarrow> fresh (\<lambda>a w. bindO (log_op (csLog_ctor_syslog ''clearsyncd'' 1 24 a) w) (\<lambda>_ w.
         Return () (save_pid env (w\<lparr>mw_log_syslog := Some a\<rparr>)))) w)"

definition crypto_init :: "main_env \<Rightarrow> main_world \<Rightarrow> main_world" where
  "crypto_init env w = (if me_crypto_locks env > 0
     then sys_log Level_Debug ''Initialized %d libcrypto lock(s)'' [ArgI (int (me_crypto_locks env))]
       (w\<lparr>mw_crypto := Some (replicate (me_crypto_locks env) MutexFree)\<rparr>)
     else w)"

definition make_threads :: "main_env \<Rightarrow> main_world \<Rightarrow> (main_world, unit) outcome" where
  "make_threads env w =
     bindO (fresh (\<lambda>a w. bindO (timer_op (csThreadTimer_ctor (me_pthread env) (me_timer_create env)
         (ClientAt (mw_this w)) a) w) (\<lambda>_ w. Return () (w\<lparr>mw_timer_thread := Some a\<rparr>))) w) (\<lambda>_ w.
     fresh (\<lambda>a w. bindO (netlink_op (csThreadNetlink_ctor (me_pthread env) (me_nl_socket env) (me_nl_bind env)
         (me_page env) (ClientAt (mw_this w)) a) w) (\<lambda>_ w. Return () (w\<lparr>mw_netlink_thread := Some a\<rparr>))) w)"

definition start_at :: "main_env \<Rightarrow> nat option \<Rightarrow> main_world \<Rightarrow> (main_world, unit) outcome" where
  "start_at env a w = (case a of None \<Rightarrow> Undef | Some a \<Rightarrow> csThread_Start (me_pthread env) a w)"

fun start_plugins :: "main_env \<Rightarrow> (string \<times> csPluginLoader) list \<Rightarrow> main_world \<Rightarrow> (main_world, unit) outcome" where
  "start_plugins env [] w = Return () w"
| "start_plugins env ((name, l) # ps) w =
     bindO (catchO (csThread_Start (me_pthread env) (ld_plugin l) w)
       (\<lambda>e w. Return () (sys_log Level_Error ''Error starting plugin: %s'' [ArgS (what env e)] w))) (\<lambda>_ w.
     start_plugins env ps w)"

definition start_all :: "main_env \<Rightarrow> main_world \<Rightarrow> (main_world, unit) outcome" where
  "start_all env w =
     (if me_sigmask env \<noteq> 0 then Throw (csException_es (me_sigmask env) ''pthread_sigmask'') w
      else bindO (fresh (\<lambda>a w. bindO (csThread_ctor (me_pthread env) a CS_THREAD_STACK_SIZE w) (\<lambda>_ w.
             bindO (ev_op (EventsEnable a False) w) (\<lambda>_ w.
             csThread_Start (me_pthread env) a (w\<lparr>mw_sig_handler := Some a\<rparr>)))) w) (\<lambda>_ w.
           bindO (start_at env (mw_timer_thread w) w) (\<lambda>_ w.
           bindO (start_at env (mw_netlink_thread w) w) (\<lambda>_ w.
           bindO (start_plugins env (mw_plugin w) w) (\<lambda>_ w.
           Return () (sys_log Level_Info ''ClearSync initialized.'' [] w))))))"

definition main_op :: "(main_world \<Rightarrow> (main_world, 'a) outcome) \<Rightarrow> conf_world \<Rightarrow> (conf_world, 'a) outcome" where
  "main_op f x = zoomO xp_client xp_client_update f x"

text \<open>
  The body of the constructor after the base class part. The parser object is created before
  the configuration is read; until then it plays no role.
\<close>

definition csMain_body :: "main_env \<Rightarrow> string \<Rightarrow> (char \<times> string) list \<Rightarrow> conf_world \<Rightarrow> (conf_world, unit) outcome" where
  "csMain_body env argv0 opts x =
     bindO (main_op (fresh (\<lambda>a w. bindO (log_op (csLog_ctor_stdout a) w) (\<lambda>_ w.
       Return () (w\<lparr>mw_log_stdout := Some a, mw_logger := SetMask (Level_Info OR Level_Warning OR Level_Error) (mw_logger w)\<rparr>)))) x)
       (\<lambda>_ x.
     bindO (main_op (option_loop env argv0 opts
       \<lparr>op_debug = False, op_conf_filename = CS_MAIN_CONF, op_log_file = []\<rparr>) x) (\<lambda>st x.
     bindO (main_op (\<lambda>w. if \<not> op_debug st then become_daemon env w else Return () w) x) (\<lambda>_ x.
     bindO (main_op (\<lambda>w. make_threads env (sys_log Level_Debug ''Real-time signals: %d'' [ArgI (me_rt_signals env)]
       (crypto_init env w))) x) (\<lambda>_ x.
     bindO (csXmlParser_ctor (me_page env) (xp_client x)) (\<lambda>_ x.
     bindO (Reload env (SetConf (op_conf_filename st) (csMainConf_ctor (op_conf_filename st) x))) (\<lambda>_ x.
     main_op (\<lambda>w. start_all env (ValidateConfiguration w)) x))))))"

text \<open>An exception destroys the base class part; what the body made so far is leaked.\<close>

definition csMain_ctor :: "main_env \<Rightarrow> string \<Rightarrow> (char \<times> string) list \<Rightarrow> conf_world \<Rightarrow> (conf_world, unit) outcome" where
  "csMain_ctor env argv0 opts x =
     bindO (main_op (\<lambda>w. ev_op (csEventClient_ctor (mw_this w)) w) x) (\<lambda>_ x.
     case csMain_body env argv0 opts x of
       Throw e x \<Rightarrow> bindO (main_op (\<lambda>w. ev_op (csEventClient_dtor (mw_this w)) w) x) (\<lambda>_ x. Throw e x)
     | r \<Rightarrow> r)"

section \<open>Shutting down\<close>

fun delete_plugins :: "main_env \<Rightarrow> (string \<times> csPluginLoader) list \<Rightarrow> main_world \<Rightarrow> (main_world, unit) outcome" where
  "delete_plugins env [] w = Return () w"
| "delete_plugins env ((name, l) # ps) w =
     bindO (me_plugin_dtor env (ld_plugin l) w) (\<lambda>_ w.
     bindO (csPlugin_delete (ld_plugin l) w) (\<lambda>_ w.
     delete_plugins env ps (csPluginLoader_dtor l w)))"

definition csSignalHandler_dtor :: "main_env \<Rightarrow> nat \<Rightarrow> main_world \<Rightarrow> (main_world, unit) outcome" where
  "csSignalHandler_dtor env a w = (case sw_threads w a of None \<Rightarrow> Undef | Some t \<Rightarrow>
     bindO (csThread_Join (me_pthread env) a (w\<lparr>mw_killed := mw_killed w @ [th_id t]\<rparr>)) (\<lambda>_ w.
     bindO (ev_op (csEventClient_dtor a) w) (\<lambda>_ w. Return () (set_thread a None w))))"

definition if_some :: "'p option \<Rightarrow> ('p \<Rightarrow> 's \<Rightarrow> ('s, unit) outcome) \<Rightarrow> 's \<Rightarrow> ('s, unit) outcome" where
  "if_some p f s = (case p of None \<Rightarrow> Return () s | Some a \<Rightarrow> f a s)"

definition csMain_dtor :: "main_env \<Rightarrow> conf_world \<Rightarrow> (conf_world, unit) outcome" where
  "csMain_dtor env x =
     bindO (main_op (\<lambda>w. delete_plugins env (mw_plugin w) w) x) (\<lambda>_ x.
     bindO (main_op (\<lambda>w. if_some (mw_sig_handler w) (csSignalHandler_dtor env) w) x) (\<lambda>_ x.
     bindO (main_op (\<lambda>w. if_some (mw_timer_thread w) (\<lambda>a. timer_op (csThreadTimer_dtor (me_pthread env) a)) w) x) (\<lambda>_ x.
     bindO (main_op (\<lambda>w. if_some (mw_netlink_thread w) (\<lambda>a. netlink_op (csThreadNetlink_dtor (me_pthread env) a)) w) x) (\<lambda>_ x.
     bindO (csConf_dtor (me_page env) x) (\<lambda>_ x.
     bindO (main_op (\<lambda>w. if_some (mw_log_syslog w) (\<lambda>a. log_op (csLog_dtor a)) (sys_log Level_Info ''Terminated.'' [] w)) x) (\<lambda>_ x.
     bindO (main_op (\<lambda>w. if_some (mw_log_stdout w) (\<lambda>a. log_op (csLog_dtor a)) w) x) (\<lambda>_ x.
     main_op (\<lambda>w. ev_op (csEventClient_dtor (mw_this w)) w) x)))))))"

section \<open>main\<close>

definition csEXIT_SUCCESS :: int where "csEXIT_SUCCESS = 0"
definition csEXIT_INVALID_OPTION :: int where "csEXIT_INVALID_OPTION = 1"
definition csEXIT_XML_PARSE_ERROR :: int where "csEXIT_XML_PARSE_ERROR = 2"
definition csEXIT_UNHANDLED_EX :: int where "csEXIT_UNHANDLED_EX = 3"

definition exit_code :: "cs_exception \<Rightarrow> int" where
  "exit_code e = (case exc_class e of
       ClassUsageException \<Rightarrow> csEXIT_SUCCESS
     | ClassDumpStateException \<Rightarrow> csEXIT_SUCCESS
     | ClassInvalidOptionException \<Rightarrow> csEXIT_INVALID_OPTION
     | ClassXmlParseException row col byte \<Rightarrow> csEXIT_XML_PARSE_ERROR
     | _ \<Rightarrow> csEXIT_UNHANDLED_EX)"

text \<open>The \<open>catch\<close> clauses of \<open>main\<close>; the first three do not log.\<close>

definition report_exit :: "main_env \<Rightarrow> cs_exception \<Rightarrow> conf_world \<Rightarrow> conf_world" where
  "report_exit env e x = (case exc_class e of
       ClassUsageException \<Rightarrow> x
     | ClassDumpStateException \<Rightarrow> x
     | ClassInvalidOptionException \<Rightarrow> x
     | _ \<Rightarrow> report_conf_error env e x)"

text \<open>
  The exit code; \<open>None\<close> while the main loop still waits. After an exception of the constructor
  there is no object to delete. \<open>std::bad_alloc\<close> is not caught: it ends the process.
\<close>

definition main ::
  "main_env \<Rightarrow> string \<Rightarrow> (char \<times> string) list \<Rightarrow> wait_input list \<Rightarrow> conf_world \<Rightarrow> (conf_world, int option) outcome" where
  "main env argv0 opts waits x = (case csMain_ctor env argv0 opts x of
       Return _ x \<Rightarrow>
         bindO (catchO (bindO (main_op (Run waits) x) (\<lambda>r x. Return (map_option (\<lambda>_. csEXIT_SUCCESS) r) x))
             (\<lambda>e x. Return (Some (exit_code e)) (report_exit env e x))) (\<lambda>rc x.
         case rc of None \<Rightarrow> Return None x
         | Some rc \<Rightarrow> bindO (csMain_dtor env x) (\<lambda>_ x. Return (Some rc) x))
     | Throw e x \<Rightarrow> if exc_class e = ClassBadAlloc then Throw e x
         else Return (Some (exit_code e)) (report_exit env e x)
     | Block x \<Rightarrow> Block x
     | Undef \<Rightarrow> Undef)"

end
