(* ===== verification/Cs_Filter_Properties.thy ===== *)
theory Cs_Filter_Properties
  imports Cs_Main_Conf Cs_Conf_Properties
begin

text \<open>
  Properties of the daemon's configuration: the event filters against a recursive reference,
  the settings that a configuration file makes, the plugin map, the stack size, and what a
  malformed file in the plugin directory does.
\<close>

section \<open>Splitting and trimming\<close>

fun pieces :: "char \<Rightarrow> string \<Rightarrow> string list" where
  "pieces c [] = [[]]"
| "pieces c (x # xs) = (if x = c then [] # pieces c xs
     else case pieces c xs of [] \<Rightarrow> [[x]] | p # ps \<Rightarrow> (x # p) # ps)"

definition blank :: "char \<Rightarrow> bool" where
  "blank c \<longleftrightarrow> c = CHR '' ''"

definition strip :: "string \<Rightarrow> string" where
  "strip s = rev (dropWhile blank (rev (dropWhile blank s)))"

definition filter_names :: "string \<Rightarrow> string \<Rightarrow> string list" where
  "filter_names own text = filter (\<lambda>n. \<not> strcasecmp_eq n own)
     (map strip (filter (\<lambda>p. p \<noteq> []) (pieces (CHR ''|'') text)))"

definition names_of :: "(nat, string list) omap \<Rightarrow> nat \<Rightarrow> string list" where
  "names_of m plugin = (case omap_lookup m plugin of None \<Rightarrow> [] | Some v \<Rightarrow> v)"

lemma pieces_not_Nil [simp]: "pieces c xs \<noteq> []"
  by (induction xs) (auto split: list.splits)

lemma pieces_none: "c \<notin> set xs \<Longrightarrow> pieces c xs = [xs]"
  by (induction xs) auto

lemma pieces_bar: "c \<notin> set xs \<Longrightarrow> pieces c (xs @ c # ys) = xs # pieces c ys"
  by (induction xs) auto

lemma find_bar_None: "p \<le> length s \<Longrightarrow> find_bar s p = None \<Longrightarrow> CHR ''|'' \<notin> set (drop p s)"
proof
  let ?t = "takeWhile (\<lambda>c. c \<noteq> CHR ''|'') (drop p s)" and ?r = "dropWhile (\<lambda>c. c \<noteq> CHR ''|'') (drop p s)"
  assume "p \<le> length s" "find_bar s p = None" "CHR ''|'' \<in> set (drop p s)"
  then have "length (drop p s) \<le> length ?t" by (simp add: find_bar_def Let_def split: if_splits)
  moreover have "length (drop p s) = length ?t + length ?r"
    by (metis length_append takeWhile_dropWhile_id)
  ultimately have "?r = []" by simp
  then show False using \<open>CHR ''|'' \<in> set (drop p s)\<close> by (auto simp: dropWhile_eq_Nil_conv)
qed

lemma find_bar_Some:
  assumes "find_bar s p = Some k" "p \<le> length s"
  shows "p \<le> k" "k < length s" "drop p s = take (k - p) (drop p s) @ CHR ''|'' # drop (Suc k) s"
    "CHR ''|'' \<notin> set (take (k - p) (drop p s))"
proof -
  let ?t = "takeWhile (\<lambda>c. c \<noteq> CHR ''|'') (drop p s)"
  have k: "k = p + length ?t" "k < length s" using assms(1) by (auto simp: find_bar_def Let_def split: if_splits)
  then show "p \<le> k" "k < length s" by simp_all
  have t: "take (k - p) (drop p s) = ?t" using k(1) takeWhile_eq_take [of _ "drop p s"] by simp
  then show "CHR ''|'' \<notin> set (take (k - p) (drop p s))" by (auto dest: set_takeWhileD)
  have "length ?t < length (drop p s)" using k by simp
  then have "drop p s ! length ?t = CHR ''|''" using nth_length_takeWhile by blast
  then have "s ! k = CHR ''|''" using k assms(2) by simp
  then have "drop k s = CHR ''|'' # drop (Suc k) s" using k(2) by (metis Cons_nth_drop_Suc)
  moreover have "drop p s = take (k - p) (drop p s) @ drop k s"
    using append_take_drop_id [of "k - p" "drop p s"] \<open>p \<le> k\<close> by simp
  ultimately show "drop p s = take (k - p) (drop p s) @ CHR ''|'' # drop (Suc k) s" by simp
qed

lemma split_loop_pieces:
  assumes "p \<le> length s"
  shows "\<exists>q r. split_loop s p acc = (q, acc @ r) \<and> q \<le> length s \<and> r @ [drop q s] = pieces (CHR ''|'') (drop p s)"
  using assms
proof (induction s p acc rule: split_loop.induct)
  case (1 s p acc)
  show ?case
  proof (cases "find_bar s p")
    case None
    then show ?thesis using 1(2) find_bar_None [OF 1(2)] by (auto simp: split_loop.simps [of s p] pieces_none)
  next
    case (Some k)
    note b = find_bar_Some [OF Some 1(2)]
    obtain q r where qr: "split_loop s (Suc k) (acc @ [take (k - p) (drop p s)]) = (q, (acc @ [take (k - p) (drop p s)]) @ r)"
      "q \<le> length s" "r @ [drop q s] = pieces (CHR ''|'') (drop (Suc k) s)"
      using 1(1) [OF Some] b(2) by (metis Suc_leI)
    have "pieces (CHR ''|'') (drop p s) = take (k - p) (drop p s) # pieces (CHR ''|'') (drop (Suc k) s)"
      using pieces_bar [OF b(4), of "drop (Suc k) s"] b(3) by simp
    then show ?thesis using qr Some by (simp add: split_loop.simps [of s p acc] exI [of _ q])
  qed
qed

lemma filter_atoms_pieces:
  "filter (\<lambda>p. p \<noteq> []) (filter_atoms text) = filter (\<lambda>p. p \<noteq> []) (pieces (CHR ''|'') text)"
proof -
  obtain q r where qr: "split_loop text 0 [] = (q, r)"
    "q \<le> length text" "r @ [drop q text] = pieces (CHR ''|'') text"
    using split_loop_pieces [of 0 "text" "[]"] by auto
  have "filter (\<lambda>p. p \<noteq> []) (pieces (CHR ''|'') text) = filter (\<lambda>p. p \<noteq> []) (r @ [drop q text])" by (simp only: qr(3))
  then show ?thesis using qr(1,2) by (simp add: filter_atoms_def)
qed

lemma trim_atom_strip: "trim_atom s = strip s"
proof -
  let ?d = "dropWhile blank s"
  let ?h = "length (takeWhile blank s)" and ?t = "length (takeWhile blank (rev s))"
  have b: "(\<lambda>c. c = CHR '' '') = blank" by (auto simp: blank_def)
  have d: "?d = drop ?h s" by (simp add: dropWhile_eq_drop)
  show ?thesis
  proof (cases "\<forall>c \<in> set s. blank c")
    case True
    then have e: "?d = []" "?h = length s" by (simp_all add: takeWhile_eq_all_conv [THEN iffD2])
    show ?thesis unfolding strip_def e(1) using e(2) by (simp add: trim_atom_def b)
  next
    case False
    then have ne: "?d \<noteq> []" by (auto simp: dropWhile_eq_Nil_conv)
    then have hs: "?h \<noteq> length s" using d by auto
    have "takeWhile blank (rev s) = takeWhile blank (rev ?d)"
    proof -
      have "rev s = rev ?d @ rev (takeWhile blank s)" using takeWhile_dropWhile_id [of blank s] by (metis rev_append)
      moreover have "\<not> blank (hd ?d)" "hd ?d \<in> set (rev ?d)" using ne by (simp_all add: hd_dropWhile)
      ultimately show ?thesis by (metis takeWhile_append1)
    qed
    then have "dropWhile blank (rev ?d) = drop ?t (rev ?d)" by (simp only: dropWhile_eq_drop)
    then have "strip s = take (length ?d - ?t) ?d" by (simp only: strip_def rev_drop length_rev rev_rev_ident)
    then show ?thesis using hs
      by (simp only: trim_atom_def Let_def b d if_False length_drop diff_commute [of "length s"])
  qed
qed

section \<open>Event filters\<close>

definition filter_frame :: "main_world \<Rightarrow> main_world \<Rightarrow> bool" where
  "filter_frame w w' \<longleftrightarrow> (\<exists>m l. w' = w\<lparr>mw_filter := m, sw_log := l\<rparr>)"

lemma filter_frame_intros [intro]:
  "filter_frame w w" "filter_frame (filter_push p a w) v \<Longrightarrow> filter_frame w v"
  "filter_frame (sys_log l f x w) v \<Longrightarrow> filter_frame w v"
proof -
  show "filter_frame w w" by (rule filter_frame_def [THEN iffD2], rule exI [of _ "mw_filter w"],
    rule exI [of _ "sw_log w"], cases w, simp)
  show "filter_frame (filter_push p a w) v \<Longrightarrow> filter_frame w v"
    unfolding filter_frame_def by (elim exE, intro exI, cases w) (auto simp: filter_push_def)
  show "filter_frame (sys_log l f x w) v \<Longrightarrow> filter_frame w v"
    unfolding filter_frame_def by (elim exE, intro exI, cases w) (auto simp: sys_log_def)
qed

lemma sys_log_main [simp]:
  fixes w :: main_world
  shows "mw_filter (sys_log l f x w) = mw_filter w" "mw_plugin (sys_log l f x w) = mw_plugin w"
    "mw_plugin_dir (sys_log l f x w) = mw_plugin_dir w" "mw_version (sys_log l f x w) = mw_version w"
    "mw_this (sys_log l f x w) = mw_this w" "mw_filename (sys_log l f x w) = mw_filename w"
  by (simp_all add: sys_log_def)

lemma names_of_push:
  "names_of (mw_filter (filter_push plugin a w)) q = names_of (mw_filter w) q @ (if q = plugin then [a] else [])"
  by (simp add: names_of_def filter_push_def omap_lookup_update)

lemma filter_add_spec:
  fixes w :: main_world
  shows
  "names_of (mw_filter (filter_add plugin name ss w)) q = names_of (mw_filter w) q @
     (if q = plugin then filter (\<lambda>n. \<not> strcasecmp_eq n name) (map strip (filter (\<lambda>p. p \<noteq> []) ss)) else [])"
  "filter_frame w (filter_add plugin name ss w)"
  "omap_ok (mw_filter w) \<Longrightarrow> omap_ok (mw_filter (filter_add plugin name ss w))"
proof (induction ss arbitrary: w q)
  case (Cons s ss)
  {
    case 1 show ?case by (simp add: Let_def trim_atom_strip Cons(1) names_of_push)
  next
    case 2 show ?case using Cons(2) by (auto simp: Let_def)
  next
    case 3 then show ?case using Cons(3) by (simp add: Let_def filter_push_def omap_ok_update)
  }
qed auto

text \<open>
  C16. Event filters. \<open>ParseEventFilter\<close> adds to the filter of the plugin, in their order, the
  names between the bars of the text, without the blanks around them, except empty pieces and
  the plugin's own name in any spelling of upper and lower case. The filters of other plugins
  and the rest of the daemon's state are left alone (only the log may grow).
\<close>

theorem event_filter_parsed:
  assumes "ld_objs w plugin = Some p"
  shows "\<exists>w'. ParseEventFilter plugin t w = Return () w' \<and> filter_frame w w' \<and>
    (\<forall>q. names_of (mw_filter w') q = names_of (mw_filter w) q @
       (if q = plugin then filter_names (pl_name p) t else [])) \<and>
    (omap_ok (mw_filter w) \<longrightarrow> omap_ok (mw_filter w'))"
  using assms filter_add_spec [where plugin = plugin and name = "pl_name p" and ss = "filter_atoms t" and w = w]
  by (simp add: ParseEventFilter_def filter_names_def filter_atoms_pieces)

section \<open>Malformed files\<close>

lemma cut_short:
  assumes "xml_ok w" "xp_stack w = []" "map fst evs = SaxOpen n as # nodes_events ns"
    "ParseElementOpen h [] (csXmlTag_ctor n as) (xp_client w) = Return (HandlerOk tag) c"
    "visit_nodes h [tag] ns c = Some (stk, c')"
  shows "\<exists>w'. run_callbacks h evs w = Return () w' \<and> xml_ok w' \<and> xp_stack w' \<noteq> [] \<and> xp_client w' = c' \<and>
    xp_buffer w' = xp_buffer w"
proof -
  obtain pos evs' where evs: "evs = (SaxOpen n as, pos) # evs'" "map fst evs' = nodes_events ns"
    using assms(3) by (cases evs) auto
  obtain v where v: "csXmlElementOpen h pos n as w = Return () v" "xml_ok v" "xp_stack v = [xp_next w]"
    "stack_tags v = map Some [tag]" "xp_client v = c" "xp_buffer v = xp_buffer w"
    using open_pushed [of w "[]" h n as tag c pos] assms(1,2,4) by (auto simp: stack_tags_def)
  obtain w' where "run_callbacks h evs' v = Return () w'" "traversed v stk c' w'"
    using visit_traversed(2) [OF assms(5) v(2,4,5) evs(2)] by blast
  then show ?thesis using v evs(1) by (auto simp: traversed_def)
qed

lemma report_conf_error_frame [simp]:
  "xp_stack (report_conf_error env e x) = xp_stack x" "xp_tags (report_conf_error env e x) = xp_tags x"
  "xp_next (report_conf_error env e x) = xp_next x"
  by (auto simp: report_conf_error_def conf_log_def split: exception_class.splits)

lemma xml_ok_frame:
  "xp_stack w' = xp_stack w \<Longrightarrow> xp_tags w' = xp_tags w \<Longrightarrow> xp_next w' = xp_next w \<Longrightarrow> xml_ok w' = xml_ok w"
  by (simp add: xml_ok_def)

lemma set_filename_frame [simp]:
  "xp_stack (set_filename f x) = xp_stack x" "xp_tags (set_filename f x) = xp_tags x"
  "xp_next (set_filename f x) = xp_next x" "xp_conf (set_filename f x) = Some f"
  "xp_client (set_filename f x) = (xp_client x)\<lparr>mw_filename := f\<rparr>"
  by (simp_all add: set_filename_def)

lemma scan_after_cut_short:
  assumes "xml_ok x" "xp_stack x \<noteq> []"
  shows "scan_file env name x = Undef"
proof -
  let ?x = "set_filename (mw_plugin_dir (xp_client x) @ ''/'' @ name) x"
  have "xml_ok ?x" "xp_stack ?x \<noteq> []" using assms xml_ok_frame [of ?x x] by simp_all
  then obtain x1 where "Reset (me_page env) ?x = Return () x1" "Reset (me_page env) x1 = Undef"
    by (rule Reset_nonempty)
  then show ?thesis by (simp add: scan_file_def Parse_def)
qed

text \<open>
  C35. One malformed file. A file in the plugin directory whose root element is opened and
  accepted, but which then ends or turns malformed, is reported in the log; but its tags stay
  on the parser's stack, and with the next configuration file they are deleted twice. So two
  matching files, of which the first is malformed, make start-up undefined.
\<close>

theorem malformed_conf_undefined:
  assumes "xml_ok x" "xp_stack x = []"
    "me_fopen env (mw_plugin_dir (xp_client x) @ ''/'' @ a) (me_page env) = Inr [Chunk bs True]"
    "length bs \<le> me_page env" "me_expat env [bs] True = (evs, Some (msg, pos))" "px_index pos < me_page env"
    "map fst evs = SaxOpen n as # nodes_events ns"
    "main_ParseElementOpen env [] (csXmlTag_ctor n as)
       ((xp_client x)\<lparr>mw_filename := mw_plugin_dir (xp_client x) @ ''/'' @ a\<rparr>) = Return (HandlerOk tag) c"
    "visit_nodes (main_handlers env) [tag] ns c = Some (stk, c')"
    "me_regexec env a \<noteq> REG_NOMATCH" "me_regexec env b \<noteq> REG_NOMATCH"
  shows "returns (scan_file env a x) \<and> scan_loop env [Inr (a, DT_REG), Inr (b, DT_REG)] x = Undef"
proof -
  let ?f = "mw_plugin_dir (xp_client x) @ ''/'' @ a" and ?page = "me_page env"
  let ?x = "set_filename ?f x"
  let ?y = "?x\<lparr>xp_page_size := ?page, xp_buffer := replicate ?page 0\<rparr>"
  let ?z = "into_buffer bs (?y\<lparr>xp_open_files := Suc (xp_open_files ?y)\<rparr>)"
  have z: "xml_ok ?z" "xp_stack ?z = []" "xp_client ?z = (xp_client x)\<lparr>mw_filename := ?f\<rparr>"
    "length (xp_buffer ?z) = ?page"
    using assms(1,2,4) xml_ok_frame [of ?z x] by (simp_all add: into_buffer_def)
  obtain v where v: "run_callbacks (main_handlers env) evs ?z = Return () v" "xml_ok v" "xp_stack v \<noteq> []"
    "xp_buffer v = xp_buffer ?z"
    using cut_short [OF z(1,2) assms(7), of "main_handlers env" tag c stk c'] assms(8,9) z(3)
    by (auto simp: main_handlers_def)
  have "Parse (main_handlers env) (me_expat env) (me_fopen env) ?page None ?y =
      Throw (csXmlParseException (c_str msg) (of_nat (px_line pos)) (of_nat (px_col pos)) (xp_buffer v ! px_index pos)) v"
    using assms(2,3,5,6) v(1,4) z(4) by (simp add: Parse_def Reset_empty ParseError_def Let_def)
  then have run: "\<exists>e. scan_file env a x = Return () (report_conf_error env e v)"
    using assms(2) by (auto simp: scan_file_def Let_def Reset_empty csXmlParseException_def)
  then obtain e where e: "scan_file env a x = Return () (report_conf_error env e v)" by blast
  have "scan_file env b (report_conf_error env e v) = Undef"
    using scan_after_cut_short [of "report_conf_error env e v"] v(2,3) xml_ok_frame [of "report_conf_error env e v" v]
    by simp
  then show ?thesis using e assms(10,11) by simp
qed

section \<open>Well-formed files\<close>

lemma tag_is_ctor [simp]: "tag_is (csXmlTag_ctor n as) m = strcasecmp_eq m n" "xt_text (csXmlTag_ctor n as) = []"
  "xt_data (csXmlTag_ctor n as) = None" "xt_name (csXmlTag_ctor n as) = n"
  by (simp_all add: tag_is_def csXmlTag_ctor_def)

lemma tag_is_frame [simp]: "tag_is (t\<lparr>xt_text := x\<rparr>) m = tag_is t m" "tag_is (t\<lparr>xt_data := d\<rparr>) m = tag_is t m"
  by (simp_all add: tag_is_def)

lemma tag_spellings [simp]:
  "\<not> strcasecmp_eq ''csconf'' ''plugin''" "\<not> strcasecmp_eq ''csconf'' ''event-filter''"
  "\<not> strcasecmp_eq ''plugin'' ''event-filter''" "\<not> strcasecmp_eq ''plugin-dir'' ''event-filter''"
  "\<not> strcasecmp_eq ''state-file'' ''event-filter''" "\<not> strcasecmp_eq ''plugin-dir'' ''plugin''"
  "\<not> strcasecmp_eq ''state-file'' ''plugin''" "\<not> strcasecmp_eq ''event-filter'' ''plugin''"
  "\<not> strcasecmp_eq ''csconf'' ''plugin-dir''" "\<not> strcasecmp_eq ''plugin'' ''plugin-dir''"
  "\<not> strcasecmp_eq ''plugin'' ''csconf''" "\<not> strcasecmp_eq ''plugin-dir'' ''csconf''"
  "\<not> strcasecmp_eq ''state-file'' ''csconf''" "\<not> strcasecmp_eq ''event-filter'' ''csconf''"
  by (simp_all add: strcasecmp_eq_def c_str_def tolower_def)

lemma ctor_param:
  "distinct (map fst as) \<Longrightarrow> omap_lookup (xt_param (csXmlTag_ctor n as)) = map_of as"
  using om.lookup_assign_all [of "[]" as] by (simp add: csXmlTag_ctor_def map_of_rev fun_eq_iff map_add_def split: option.splits)

text \<open>The daemon's state while the file of this name in the plugin directory is read.\<close>

definition reading :: "string \<Rightarrow> conf_world \<Rightarrow> main_world" where
  "reading name x = (xp_client x)\<lparr>mw_filename := mw_plugin_dir (xp_client x) @ ''/'' @ name\<rparr>"

lemma plugin_file_read:
  assumes "xml_ok x" "xp_stack x = []" "w = reading name x" "me_fopen env (mw_filename w) (me_page env) = Inr reads"
    "expat_events (me_expat env) [] reads = Some evs"
    "map fst evs = node_events (XElem ''plugin'' [(''name'', n), (''library'', lib)]
       [XElem ''event-filter'' [] [XText f]])"
    "omap_lookup (mw_plugin w) n = None" "load_plugin env lib n CS_THREAD_STACK_SIZE w = Return (Some l) w1"
    "me_set_conf env (ld_plugin l) (mw_filename w1) w1 = Return () w2" "ld_objs w2 (ld_plugin l) = Some p" "text_filter f \<noteq> []"
  shows "\<exists>x'. scan_file env name x = Return () x' \<and> xml_ok x' \<and> xp_stack x' = [] \<and>
    filter_frame (sys_log Level_Debug ''Plugin: %s (%s), stack size: %ld''
      [ArgS (c_str n), ArgS (c_str lib), ArgI (sint CS_THREAD_STACK_SIZE)] (w2\<lparr>mw_plugin := omap_update n l (mw_plugin w2)\<rparr>)) (xp_client x') \<and>
    (\<forall>q. names_of (mw_filter (xp_client x')) q = names_of (mw_filter w2) q @
       (if q = ld_plugin l then filter_names (pl_name p) (text_filter f) else []))"
proof -
  let ?as = "[(''name'', n), (''library'', lib)]" and ?h = "main_handlers env"
  let ?tag = "csXmlTag_ctor ''plugin'' ?as"
  let ?w3 = "sys_log Level_Debug ''Plugin: %s (%s), stack size: %ld''
    [ArgS (c_str n), ArgS (c_str lib), ArgI (sint CS_THREAD_STACK_SIZE)] (w2\<lparr>mw_plugin := omap_update n l (mw_plugin w2)\<rparr>)"
  let ?y = "(set_filename (mw_filename w) x)\<lparr>xp_page_size := me_page env, xp_buffer := replicate (me_page env) 0\<rparr>"
  have y: "xml_ok ?y" "xp_stack ?y = []" "xp_conf ?y = Some (mw_filename w)"
    using assms(1,2) xml_ok_frame [of ?y x] by simp_all
  have yc: "xp_client ?y = w" using assms(3) by (simp add: reading_def)
  have par: "omap_lookup (xt_param ?tag) = map_of ?as" by (intro ctor_param) simp
  have opened: "ParseElementOpen ?h [] ?tag w = Return (HandlerOk (?tag\<lparr>xt_data := Some (ld_plugin l)\<rparr>)) ?w3"
    using assms(7-9) by (simp add: main_handlers_def main_ParseElementOpen_def par stack_size_of_def configure_plugin_def)
  have p: "ld_objs ?w3 (ld_plugin l) = Some p" using assms(10) by (simp add: sys_log_def)
  obtain w4 where w4: "ParseEventFilter (ld_plugin l) (text_filter f) ?w3 = Return () w4"
    "filter_frame ?w3 w4"
    "\<forall>q. names_of (mw_filter w4) q = names_of (mw_filter ?w3) q @
       (if q = ld_plugin l then filter_names (pl_name p) (text_filter f) else [])"
    using filter_add_spec [where plugin = "ld_plugin l" and name = "pl_name p" and ss = "filter_atoms (text_filter f)" and w = ?w3] p
    by (simp add: ParseEventFilter_def filter_names_def filter_atoms_pieces)
  have ne: "f \<noteq> []" using assms(11) by (auto simp: text_filter_def)
  have "visit_node ?h [] (XElem ''plugin'' ?as [XElem ''event-filter'' [] [XText f]]) w = Some ([], w4)"
    using opened w4(1) ne assms(11)
    by (simp add: main_handlers_def main_ParseElementOpen_def main_ParseElementClose_def value_tag_def)
  then obtain x' where x': "Parse ?h (me_expat env) (me_fopen env) (me_page env) None ?y = Return () x'" "xml_ok x'"
    "xp_stack x' = []" "xp_client x' = w4"
    using Parse_document [of ?y "mw_filename w" "me_fopen env" "me_page env" reads "me_expat env" evs, OF y assms(4,5,6)] yc
    by (metis (no_types, lifting))
  then have "scan_file env name x = Return () x'"
    using assms(2,3) by (simp add: scan_file_def Reset_empty reading_def)
  then show ?thesis using x' w4(2,3) by simp
qed


section \<open>The stack size\<close>

lemma atol_bounds: "- (2 ^ 63) \<le> atol s" "atol s < 2 ^ 63"
  by (simp_all add: atol_def strtol10_def Let_def)


section \<open>Instances\<close>

text \<open>A daemon at rest, without plugins, and an environment in which everything works.\<close>

definition idle_main :: main_world where
  "idle_main = \<lparr>sw_ev = ev_init, sw_threads = Map.empty, sw_joined = [], sw_log = [], ld_open = [], ld_objs = Map.empty,
     ld_disk = \<lparr>dk_files = Map.empty, dk_good = (\<lambda>_. 4096), dk_limit = (\<lambda>_. 4096), dk_refuse = (\<lambda>_ _. None),
       dk_strerror = (\<lambda>_. ''error'')\<rparr>, ld_next = 10, mw_this = 0, mw_version = -1, mw_plugin_dir = CS_PLUGIN_CONF,
     mw_filename = CS_MAIN_CONF, mw_plugin = [], mw_filter = [], mw_log_stdout = None, mw_log_syslog = None,
     mw_sig_handler = None, mw_timer_thread = None, mw_netlink_thread = None, mw_stdout = [], mw_killed = [],
     mw_crypto = None, mw_logger = log_init,
     mw_timer = \<lparr>sw_ev = ev_init, sw_threads = Map.empty, sw_joined = [], sw_log = [], tm_objs = Map.empty,
       timer_vector = [], vector_mutex = MutexNull, tt_instance = None, tt_objs = Map.empty,
       tt_kernel = Map.empty\<rparr>,
     mw_netlink = \<lparr>sw_ev = ev_init, sw_threads = Map.empty, sw_joined = [], sw_log = [], nt_instance = None,
       nt_objs = Map.empty, nt_open = [], nt_sent = []\<rparr>\<rparr>"

definition sample_env :: "(sax \<times> xml_pos) list \<Rightarrow> (string \<times> xml_pos) option \<Rightarrow> main_env" where
  "sample_env evs err = \<lparr>me_pthread = good_pthreads, me_page = 4096, me_stack_min = 16384, me_dlopen = (\<lambda>_. Inr 1),
     me_dlsym_error = (\<lambda>_. None), me_null = (\<lambda>_. False), me_set_conf = (\<lambda>a f. Return ()), me_alloc = (\<lambda>n. n < 2 ^ 32),
     me_strerror = (\<lambda>_. ''error''), me_regexec = (\<lambda>_. 0), me_readdir = (\<lambda>_. Inr []), me_expat = (\<lambda>_ _. (evs, err)),
     me_fopen = (\<lambda>_ _. Inr [Chunk [0x3C] True]), me_plugin_dtor = (\<lambda>a. Return ()), me_daemon = None, me_pid = 77,
     me_crypto_locks = 0, me_rt_signals = 30, me_timer_create = Inr 3, me_nl_socket = Inr 4, me_nl_bind = None,
     me_sigmask = 0, me_version = ''1.4'', me_build = (''Jan'', ''now''), me_bugreport = None\<rparr>"

definition conf_start :: "main_world \<Rightarrow> conf_world" where
  "conf_start w = \<lparr>xp_tags = Map.empty, xp_next = 0, xp_stack = [], xp_conf = None, xp_open_files = 0,
     xp_buffer = [], xp_page_size = 0, xp_client = w\<rparr>"

lemma conf_start_simps [simp]: "xml_ok (conf_start w)" "xp_stack (conf_start w) = []" "xp_client (conf_start w) = w"
  by (simp_all add: conf_start_def xml_ok_def)

lemma sample_env_simps [simp]:
  "me_pthread (sample_env evs err) = good_pthreads" "me_page (sample_env evs err) = 4096"
  "me_stack_min (sample_env evs err) = 16384" "me_dlopen (sample_env evs err) s = Inr 1"
  "me_dlsym_error (sample_env evs err) h = None" "\<not> me_null (sample_env evs err) h"
  "me_set_conf (sample_env evs err) a s = Return ()" "me_regexec (sample_env evs err) s = 0"
  "me_expat (sample_env evs err) ch fin = (evs, err)" "me_fopen (sample_env evs err) s n = Inr [Chunk [0x3C] True]"
  by (simp_all add: sample_env_def)

lemma idle_main_simps [simp]:
  "sw_ev idle_main = ev_init" "ld_next idle_main = 10" "ld_objs idle_main = Map.empty" "mw_plugin idle_main = []"
  "mw_filter idle_main = []" "mw_this idle_main = 0" "mw_plugin_dir idle_main = CS_PLUGIN_CONF"
  "mw_logger idle_main = log_init" "mw_stdout idle_main = []"
  by (simp_all add: idle_main_def)

definition plugin_named :: "string \<Rightarrow> csPlugin" where
  "plugin_named n = \<lparr>pl_name = n, pl_parent = 0, fh_state = None, pl_vars = [], pl_disk = ld_disk idle_main, pl_log = []\<rparr>"

theorem event_filter_parsed_witness:
  "\<exists>w'. ParseEventFilter 7 '' FileWatch ||example| SelF'' (idle_main\<lparr>ld_objs := [7 \<mapsto> plugin_named ''Self'']\<rparr>) = Return () w' \<and>
    names_of (mw_filter w') 7 = [''FileWatch'', ''example'']"
proof -
  have "filter_names ''Self'' '' FileWatch ||example| SelF'' = [''FileWatch'', ''example'']"
    by (simp add: filter_names_def strip_def blank_def strcasecmp_eq_def c_str_def tolower_def)
  then show ?thesis
    using event_filter_parsed [of "idle_main\<lparr>ld_objs := [7 \<mapsto> plugin_named ''Self'']\<rparr>" 7 "plugin_named ''Self''"
        "'' FileWatch ||example| SelF''"]
    by (auto simp: plugin_named_def names_of_def)
qed

theorem malformed_conf_undefined_witness:
  "scan_loop (sample_env [(SaxOpen ''other'' [], pos0)] (Some (''no element found'', pos0)))
     [Inr (''a.conf'', DT_REG), Inr (''b.conf'', DT_REG)] (conf_start idle_main) = Undef"
proof -
  have "\<not> strcasecmp_eq ''csconf'' ''other''" "\<not> strcasecmp_eq ''plugin'' ''other''"
    by (simp_all add: strcasecmp_eq_def c_str_def tolower_def)
  then show ?thesis
    using malformed_conf_undefined [of "conf_start idle_main" "sample_env [(SaxOpen ''other'' [], pos0)] (Some (''no element found'', pos0))"
        "''a.conf''" "[0x3C]" "[(SaxOpen ''other'' [], pos0)]" "''no element found''" pos0 "''other''" "[]" "[]"
        "csXmlTag_ctor ''other'' []" _ _ _ "''b.conf''"]
    by (simp add: main_ParseElementOpen_def pos0_def REG_NOMATCH_def)
qed


text \<open>Loading a library in this environment makes a plugin object at the next address.\<close>

lemma load_sample:
  assumes "ev_wf (sw_ev w)" "ld_next w \<notin> set (event_client (sw_ev w))" "\<not> stk < 16384"
  shows "\<exists>w1. load_plugin (sample_env evs err) lib n stk w =
      Return (Some \<lparr>ld_so_name = lib, ld_handle = 1, ld_plugin = ld_next w\<rparr>) w1 \<and>
    (\<exists>p. ld_objs w1 (ld_next w) = Some p \<and> pl_name p = n) \<and> mw_plugin w1 = mw_plugin w \<and> mw_filter w1 = mw_filter w"
proof -
  obtain e where e: "csEventClient_ctor (ld_next w) (sw_ev w) = Return () e"
    using client_ctor_dtor [OF assms(1,2)] by blast
  then show ?thesis using assms(3)
    by (simp add: load_plugin_def csPluginLoader_ctor_def csPluginInit_def Let_def csThread_ctor_def good_pthreads_def
        ev_op_def zoomO_def set_thread_def csPlugin_ctor_def sys_log_def pl_say_def)
qed

definition filewatch_doc :: xnode where
  "filewatch_doc = XElem ''plugin'' [(''name'', ''FileWatch''), (''library'', ''libfw.so'')]
     [XElem ''event-filter'' [] [XText (map byte_of_char ''Example'')]]"


end
