(* ===== verification/Cs_Main_Invariant.thy ===== *)
theory Cs_Main_Invariant
  imports Cs_Filter_Properties Cs_Plugin_State
begin

text \<open>
  The invariant of the daemon's tables: every entry of the plugin map is a live plugin object
  of that name, every event filter belongs to a live plugin object and does not name that
  plugin itself. Every operation that reads configuration keeps it, on every path, including
  those that end with an exception.
\<close>

section \<open>The invariant\<close>

definition plugins_ok :: "main_world \<Rightarrow> bool" where
  "plugins_ok w \<longleftrightarrow> omap_ok (mw_plugin w) \<and> omap_ok (mw_filter w) \<and> (\<forall>a \<in> dom (ld_objs w). a < ld_next w) \<and>
     (\<forall>(n, l) \<in> set (mw_plugin w). \<exists>p. ld_objs w (ld_plugin l) = Some p \<and> pl_name p = n) \<and>
     (\<forall>(q, ms) \<in> set (mw_filter w). \<exists>p. ld_objs w q = Some p \<and> (\<forall>m \<in> set ms. \<not> strcasecmp_eq m (pl_name p)))"

text \<open>What every operation on single plugins leaves alone: the tables, and the names of live plugins.\<close>

definition plug_keeps :: "main_world \<Rightarrow> main_world \<Rightarrow> bool" where
  "plug_keeps w w' \<longleftrightarrow> mw_plugin w' = mw_plugin w \<and> mw_filter w' = mw_filter w \<and> ld_next w \<le> ld_next w' \<and>
     (\<forall>a \<in> dom (ld_objs w'). a \<in> dom (ld_objs w) \<or> a < ld_next w') \<and>
     (\<forall>a p. ld_objs w a = Some p \<longrightarrow> (\<exists>p'. ld_objs w' a = Some p' \<and> pl_name p' = pl_name p))"

text \<open>
  The hypothesis on \<open>SetConfigurationFile\<close>, the one function of a plugin that the
  configuration calls: it does not change the daemon's tables and deletes or renames no
  plugin. The base class does nothing at all.
\<close>

definition conf_local :: "main_env \<Rightarrow> bool" where
  "conf_local env \<longleftrightarrow> (\<forall>a f w w'. run_state (me_set_conf env a f w) = Some w' \<longrightarrow> plug_keeps w w')"

lemma plug_keeps_refl [simp, intro]: "plug_keeps w w"
  by (auto simp: plug_keeps_def)

lemma plug_keepsD:
  "plug_keeps w w' \<Longrightarrow> ld_objs w a = Some p \<Longrightarrow> \<exists>p'. ld_objs w' a = Some p' \<and> pl_name p' = pl_name p"
  by (simp add: plug_keeps_def)

lemma plug_keeps_trans:
  assumes "plug_keeps u v" "plug_keeps v w"
  shows "plug_keeps u w"
proof -
  have dom: "a \<in> dom (ld_objs u) \<or> a < ld_next w" if "a \<in> dom (ld_objs w)" for a
  proof -
    have "a \<in> dom (ld_objs v) \<or> a < ld_next w" using assms(2) that by (simp only: plug_keeps_def)
    moreover have "a \<in> dom (ld_objs v) \<Longrightarrow> a \<in> dom (ld_objs u) \<or> a < ld_next v"
      using assms(1) by (simp only: plug_keeps_def)
    moreover have "ld_next v \<le> ld_next w" using assms(2) by (simp only: plug_keeps_def)
    ultimately show ?thesis by (meson less_le_trans)
  qed
  have "\<exists>p''. ld_objs w a = Some p'' \<and> pl_name p'' = pl_name p" if ap: "ld_objs u a = Some p" for a p
  proof -
    obtain p' where p': "ld_objs v a = Some p'" "pl_name p' = pl_name p" using plug_keepsD [OF assms(1) ap] by blast
    then show ?thesis using plug_keepsD [OF assms(2) p'(1)] by simp
  qed
  moreover have "mw_plugin w = mw_plugin u" "mw_filter w = mw_filter u" "ld_next u \<le> ld_next w"
    using assms by (simp_all add: plug_keeps_def)
  ultimately show ?thesis using dom unfolding plug_keeps_def by blast
qed

lemma plugins_ok_keeps:
  assumes "plugins_ok w" "plug_keeps w w'"
  shows "plugins_ok w'"
proof -
  have old: "\<exists>p'. ld_objs w' a = Some p' \<and> pl_name p' = pl_name p" if "ld_objs w a = Some p" for a p
    using assms(2) that by (simp add: plug_keeps_def)
  have "a < ld_next w'" if "a \<in> dom (ld_objs w')" for a
  proof -
    have "a \<in> dom (ld_objs w) \<or> a < ld_next w'" "ld_next w \<le> ld_next w'"
      using assms(2) that by (simp_all only: plug_keeps_def)
    moreover have "a \<in> dom (ld_objs w) \<Longrightarrow> a < ld_next w" using assms(1) by (simp only: plugins_ok_def)
    ultimately show ?thesis by (meson less_le_trans)
  qed
  moreover have "\<forall>(n, l) \<in> set (mw_plugin w). \<exists>p. ld_objs w' (ld_plugin l) = Some p \<and> pl_name p = n"
    using assms(1) old by (fastforce simp: plugins_ok_def)
  moreover have "\<forall>(q, ms) \<in> set (mw_filter w). \<exists>p. ld_objs w' q = Some p \<and> (\<forall>m \<in> set ms. \<not> strcasecmp_eq m (pl_name p))"
  proof (clarify)
    fix q ms assume "(q, ms) \<in> set (mw_filter w)"
    then obtain p where "ld_objs w q = Some p" "\<forall>m \<in> set ms. \<not> strcasecmp_eq m (pl_name p)"
      using assms(1) by (auto simp: plugins_ok_def)
    then show "\<exists>p. ld_objs w' q = Some p \<and> (\<forall>m \<in> set ms. \<not> strcasecmp_eq m (pl_name p))"
      using old by fastforce
  qed
  ultimately show ?thesis using assms by (simp add: plugins_ok_def plug_keeps_def)
qed

lemma plug_keeps_sys:
  fixes w :: main_world
  shows "plug_keeps w (sys_log l f x w)" "sys_same w w' \<Longrightarrow> plug_keeps w w'"
    "plug_keeps w (w\<lparr>ld_open := h\<rparr>)" "plug_keeps w (w\<lparr>mw_filename := s\<rparr>)"
    "plug_keeps w (w\<lparr>mw_version := v\<rparr>)" "plug_keeps w (w\<lparr>mw_plugin_dir := s\<rparr>)"
  by (auto simp: plug_keeps_def sys_log_def sys_same_def)

lemma plugins_ok_log [simp]: "plugins_ok (sys_log l f x w) = plugins_ok w"
  by (simp add: plugins_ok_def)

section \<open>Plugin objects\<close>

lemma pl_name_frame [simp]:
  "pl_name (pl_say l f a p) = pl_name p" "pl_name (pl_error f p) = pl_name p" "pl_name (pl_rewind p) = pl_name p"
  by (simp_all add: pl_say_def pl_error_def pl_rewind_def)

lemma LoadState_name:
  assumes "run_state (LoadState alloc p) = Some q"
  shows "pl_name q = pl_name p"
proof (cases "fh_state p")
  case None
  then show ?thesis using assms by (simp add: LoadState_def)
next
  case (Some f)
  obtain es b where "parse_state alloc (readable (pl_disk p) (f_path f)) = (es, b)"
    by fastforce
  from LoadState_parse [OF Some this] show ?thesis using assms by (auto simp: same_file_def split: if_splits)
qed

lemma SetStateFile_name: "run_state (SetStateFile alloc f p) = Some q \<Longrightarrow> pl_name q = pl_name p"
  by (auto simp: SetStateFile_def Let_def dest!: LoadState_name split: prod.splits sum.splits if_splits)

lemma plugin_op_keeps:
  fixes w :: main_world
  assumes "run_state (plugin_op a f w) = Some w'" "\<And>p q. run_state (f p) = Some q \<Longrightarrow> pl_name q = pl_name p"
  shows "plug_keeps w w'"
proof -
  obtain p where p: "ld_objs w a = Some p" using assms(1) by (auto simp: plugin_op_def split: option.splits)
  let ?p = "p\<lparr>pl_disk := ld_disk w, pl_log := []\<rparr>"
  obtain q where q: "run_state (f ?p) = Some q"
    "w' = w\<lparr>ld_objs := (ld_objs w)(a \<mapsto> q\<lparr>pl_log := []\<rparr>), ld_disk := pl_disk q, sw_log := sw_log w @ pl_log q\<rparr>"
    using assms(1) p by (cases "f ?p") (auto simp: plugin_op_def zoomO_def Let_def)
  have "pl_name q = pl_name p" using assms(2) [OF q(1)] by simp
  then show ?thesis using p by (auto simp: plug_keeps_def q(2))
qed

lemma csPluginInit_keeps:
  fixes w :: main_world
  assumes "run_state (csPluginInit env name parent stk w) = Some w'" "plugins_ok w"
  shows "plug_keeps w w'"
    "csPluginInit env name parent stk w = Return a w' \<Longrightarrow>
       a = Some (ld_next w) \<and> (\<exists>p. ld_objs w' (ld_next w) = Some p \<and> pl_name p = name)"
proof -
  let ?w = "w\<lparr>ld_next := Suc (ld_next w)\<rparr>"
  have none: "ld_objs w (ld_next w) = None" using assms(2) by (auto simp: plugins_ok_def)
  have same: "plug_keeps ?w v" if "run_state (csThread_ctor env (ld_next w) stk ?w) = Some v" for v
    using csThread_ctor_same [OF that] plug_keeps_sys(2) by blast
  have step: "plug_keeps w ?w" by (simp add: plug_keeps_def)
  show "plug_keeps w w'"
  proof (cases "csThread_ctor env (ld_next w) stk ?w")
    case (Return u v)
    then have v: "ld_objs v = ld_objs w" "ld_next v = Suc (ld_next w)" "mw_plugin v = mw_plugin w" "mw_filter v = mw_filter w"
      using csThread_ctor_same [of env "ld_next w" stk ?w v] by (auto simp: sys_same_def)
    then show ?thesis using assms(1) Return none
      by (auto simp: csPluginInit_def Let_def csPlugin_ctor_def plug_keeps_def)
  qed (use assms(1) same plug_keeps_trans [OF step] in \<open>auto simp: csPluginInit_def Let_def\<close>)
  show "a = Some (ld_next w) \<and> (\<exists>p. ld_objs w' (ld_next w) = Some p \<and> pl_name p = name)"
    if "csPluginInit env name parent stk w = Return a w'"
    using that by (auto simp: csPluginInit_def Let_def bindO_Return_iff csPlugin_ctor_def)
qed

lemma load_plugin_keeps:
  assumes "plugins_ok w" "run_state (load_plugin env lib name stk w) = Some w'"
  shows "plug_keeps w w'"
    "load_plugin env lib name stk w = Return (Some l) w' \<Longrightarrow> \<exists>p. ld_objs w' (ld_plugin l) = Some p \<and> pl_name p = name"
proof -
  let ?init = "\<lambda>h. if me_null env h then Return None else csPluginInit (me_pthread env) name (mw_this w) stk"
  let ?w = "\<lambda>h. w\<lparr>ld_open := h # ld_open w\<rparr>"
  have ok: "plugins_ok (?w h)" for h using plugins_ok_keeps [OF assms(1) plug_keeps_sys(3)] .
  have init: "plug_keeps w v" if v: "run_state (?init h (?w h)) = Some v" for h v
  proof (cases "me_null env h")
    case True
    then show ?thesis using v plug_keeps_sys(3) by auto
  next
    case False
    then have "plug_keeps (?w h) v" using v csPluginInit_keeps(1) [OF _ ok] by simp
    then show ?thesis by (rule plug_keeps_trans [OF plug_keeps_sys(3)])
  qed
  have log: "plug_keeps w (sys_log a b c v)" "plug_keeps w (v\<lparr>ld_open := o'\<rparr>)" if "plug_keeps w v" for a b c v o'
    using that plug_keeps_trans plug_keeps_sys by blast+
  show "plug_keeps w w'"
  proof (cases "me_dlopen env (c_str lib)")
    case (Inl e)
    then show ?thesis using assms(2) plug_keeps_sys
      by (auto simp: load_plugin_def csPluginLoader_ctor_def csException_s_def)
  next
    case (Inr h)
    show ?thesis
    proof (cases "me_dlsym_error env h")
      case None
      then show ?thesis using assms(2) Inr init [of h] log
        by (cases "?init h (?w h)")
          (auto simp: load_plugin_def csPluginLoader_ctor_def csException_s_def Let_def split: option.splits if_splits)
    next
      case (Some e)
      then show ?thesis using assms(2) Inr log
        by (auto simp: load_plugin_def csPluginLoader_ctor_def csException_s_def Let_def)
    qed
  qed
  show "\<exists>p. ld_objs w' (ld_plugin l) = Some p \<and> pl_name p = name"
    if ret: "load_plugin env lib name stk w = Return (Some l) w'"
  proof -
    obtain v where v: "csPluginLoader_ctor (me_dlopen env) (me_dlsym_error env) ?init lib w = Return l v" "v = w'"
      using ret unfolding load_plugin_def
      by (cases "csPluginLoader_ctor (me_dlopen env) (me_dlsym_error env) ?init lib w") (auto split: if_splits)
    then obtain h a u where h: "?init h (?w h) = Return (Some a) u" "ld_plugin l = a" "ld_objs w' = ld_objs u"
      by (auto simp: csPluginLoader_ctor_def Let_def bindO_Return_iff split: sum.splits option.splits)
    then have "csPluginInit (me_pthread env) name (mw_this w) stk (?w h) = Return (Some a) u" by (simp split: if_splits)
    from csPluginInit_keeps(2) [OF _ ok this] this show ?thesis using h(2,3) by auto
  qed
qed

section \<open>The handlers\<close>

lemma plugins_ok_insert:
  assumes "plugins_ok w" "ld_objs w (ld_plugin l) = Some p" "pl_name p = n"
  shows "plugins_ok (w\<lparr>mw_plugin := omap_update n l (mw_plugin w)\<rparr>)"
proof -
  have "omap_ok (omap_update n l (mw_plugin w))" using assms(1) omap_ok_update by (auto simp: plugins_ok_def)
  moreover have "\<forall>(m, k) \<in> set (omap_update n l (mw_plugin w)). \<exists>p. ld_objs w (ld_plugin k) = Some p \<and> pl_name p = m"
  proof
    fix q assume "q \<in> set (omap_update n l (mw_plugin w))"
    then consider "q = (n, l)" | "q \<in> set (mw_plugin w)" using set_omap_update [of n l "mw_plugin w"] by auto
    then show "case q of (m, k) \<Rightarrow> \<exists>p. ld_objs w (ld_plugin k) = Some p \<and> pl_name p = m"
      using assms by cases (simp_all add: plugins_ok_def)
  qed
  ultimately show ?thesis using assms(1) by (simp add: plugins_ok_def)
qed

lemma run_state_catchO:
  "run_state (catchO m h) = Some t \<Longrightarrow>
     (\<exists>e s. m = Throw e s \<and> exc_class e \<noteq> ClassBadAlloc \<and> run_state (h e s) = Some t) \<or> run_state m = Some t"
  by (cases m) (auto split: if_splits)

lemma configure_plugin_ok:
  assumes "conf_local env" "plugins_ok w" "ld_objs w (ld_plugin l) = Some p" "pl_name p = name"
    "run_state (configure_plugin env l name lib stk tag w) = Some w'"
  shows "plugins_ok w'"
proof -
  let ?m = "me_set_conf env (ld_plugin l) (mw_filename w) w"
  have keep: "plug_keeps w v" if "run_state ?m = Some v" for v using assms(1) that by (auto simp: conf_local_def)
  show ?thesis
  proof (cases ?m)
    case (Return a v)
    then have v: "plug_keeps w v" using keep by simp
    then obtain q where "ld_objs v (ld_plugin l) = Some q" "pl_name q = name"
      using plug_keepsD [OF v assms(3)] assms(4) by blast
    from plugins_ok_insert [OF plugins_ok_keeps [OF assms(2) v] this] show ?thesis
      using assms(5) Return by (auto simp: configure_plugin_def)
  next
    case (Throw e v)
    then have "plugins_ok v" using keep plugins_ok_keeps [OF assms(2)] by simp
    then show ?thesis using assms(5) Throw plugins_ok_keeps [OF _ plug_keeps_sys(3)]
      by (auto simp: configure_plugin_def csPluginLoader_dtor_def split: if_splits)
  qed (use assms(5) keep plugins_ok_keeps [OF assms(2)] in \<open>auto simp: configure_plugin_def\<close>)
qed

lemma ParseElementOpen_ok:
  assumes "conf_local env" "plugins_ok w" "run_state (main_ParseElementOpen env stk tag w) = Some w'"
  shows "plugins_ok w'"
proof -
  have plug: "plugins_ok w'" if "run_state (bindO (load_plugin env lib name s w) (\<lambda>l w. case l of
      None \<Rightarrow> Return (HandlerOk tag) w | Some l \<Rightarrow> configure_plugin env l name lib s tag w)) = Some w'" for lib name s
  proof (cases "load_plugin env lib name s w")
    case (Return l v)
    have v: "plugins_ok v" using load_plugin_keeps(1) [OF assms(2), of env lib name s v] Return plugins_ok_keeps [OF assms(2)] by simp
    show ?thesis
    proof (cases l)
      case None
      then show ?thesis using that Return v by simp
    next
      case (Some k)
      then obtain p where "ld_objs v (ld_plugin k) = Some p" "pl_name p = name"
        using load_plugin_keeps(2) [OF assms(2), of env lib name s v k] Return by auto
      then show ?thesis using configure_plugin_ok [OF assms(1) v] that Return Some by simp
    qed
  qed (use that load_plugin_keeps(1) [OF assms(2), of env lib name s w'] plugins_ok_keeps [OF assms(2)] in auto)
  have version: "plugins_ok (w\<lparr>mw_version := v\<rparr>)" for v
    using plugins_ok_keeps [OF assms(2)] plug_keeps_sys(5) by blast
  show ?thesis using assms(2,3) plug version
    unfolding main_ParseElementOpen_def Let_def
    by (auto simp del: bindO.simps split: if_splits option.splits)
qed

lemma filter_push_ok:
  assumes "plugins_ok w" "ld_objs w plugin = Some p" "\<not> strcasecmp_eq atom (pl_name p)"
  shows "plugins_ok (filter_push plugin atom w)"
proof -
  let ?old = "case omap_lookup (mw_filter w) plugin of None \<Rightarrow> [] | Some v \<Rightarrow> v"
  let ?m = "omap_update plugin (?old @ [atom]) (mw_filter w)"
  have inv: "\<exists>p. ld_objs w q = Some p \<and> (\<forall>m \<in> set ms. \<not> strcasecmp_eq m (pl_name p))"
    if "(q, ms) \<in> set (mw_filter w)" for q ms
    using assms(1) that by (auto simp: plugins_ok_def)
  have old: "\<forall>m \<in> set ?old. \<not> strcasecmp_eq m (pl_name p)"
  proof (cases "omap_lookup (mw_filter w) plugin")
    case (Some v)
    then have "(plugin, v) \<in> set (mw_filter w)" by (simp add: omap_lookup_def map_of_SomeD)
    from inv [OF this] show ?thesis using Some assms(2) by simp
  qed simp
  have "omap_ok ?m" using assms(1) omap_ok_update by (auto simp: plugins_ok_def)
  moreover have "\<forall>(q, ms) \<in> set ?m. \<exists>p. ld_objs w q = Some p \<and> (\<forall>m \<in> set ms. \<not> strcasecmp_eq m (pl_name p))"
  proof
    fix y assume "y \<in> set ?m"
    then consider "y = (plugin, ?old @ [atom])" | "y \<in> set (mw_filter w)"
      using set_omap_update [of plugin "?old @ [atom]" "mw_filter w"] by auto
    then show "case y of (q, ms) \<Rightarrow> \<exists>p. ld_objs w q = Some p \<and> (\<forall>m \<in> set ms. \<not> strcasecmp_eq m (pl_name p))"
      using assms old by cases (auto simp: plugins_ok_def)
  qed
  ultimately show ?thesis using assms(1) by (simp add: plugins_ok_def filter_push_def)
qed

lemma filter_add_ok:
  "plugins_ok w \<Longrightarrow> ld_objs w plugin = Some p \<Longrightarrow> plugins_ok (filter_add plugin (pl_name p) ss w)"
proof (induction ss arbitrary: w)
  case (Cons s ss)
  have "ld_objs (filter_push plugin a w) plugin = Some p" for a using Cons.prems by (simp add: filter_push_def)
  then show ?case using Cons filter_push_ok [OF Cons.prems] by (simp add: Let_def)
qed simp

lemma ParseElementClose_ok:
  assumes "plugins_ok w" "run_state (main_ParseElementClose env stk tag w) = Some w'"
  shows "plugins_ok w'"
proof -
  let ?t = "xt_text tag"
  have checked: "plugins_ok w'" if "run_state (value_tag parent stk tag w k) = Some w'"
    "\<And>encl v. run_state (k encl) = Some v \<Longrightarrow> plugins_ok v" for parent k
    using that assms(1) by (auto simp: value_tag_def split: if_splits option.splits)
  have dir: "plugins_ok (w\<lparr>mw_plugin_dir := d\<rparr>)" for d
    using plugins_ok_keeps [OF assms(1)] plug_keeps_sys(6) by blast
  have state: "plugins_ok v" if "run_state (bindO (plugin_op a (SetStateFile (me_alloc env) ?t) w)
      (\<lambda>_ w. Return (HandlerOk tag) w)) = Some v" for a v
  proof -
    have "run_state (plugin_op a (SetStateFile (me_alloc env) ?t) w) = Some v"
      using that by (cases "plugin_op a (SetStateFile (me_alloc env) ?t) w") auto
    from plugin_op_keeps [OF this SetStateFile_name] show ?thesis by (rule plugins_ok_keeps [OF assms(1)])
  qed
  have filt: "plugins_ok v" if "run_state (bindO (ParseEventFilter a ?t w) (\<lambda>_ w. Return (HandlerOk tag) w)) = Some v" for a v
    using that filter_add_ok [OF assms(1)] by (auto simp: ParseEventFilter_def split: option.splits)
  show ?thesis using assms unfolding main_ParseElementClose_def Let_def
    by (auto simp del: bindO.simps simp: dir elim!: checked split: if_splits option.splits intro: state filt)
qed

interpretation daemon_conf: conf_client "main_handlers env" "\<lambda>w. conf_local env \<longrightarrow> plugins_ok w" for env
  by unfold_locales (auto simp: main_handlers_def intro: ParseElementOpen_ok ParseElementClose_ok)

section \<open>Reading the configuration\<close>

text \<open>The part of the invariant's argument that the two \<open>catch\<close> clauses and the log share.\<close>

lemma conf_log_ok [simp]: "plugins_ok (xp_client (conf_log l f a x)) = plugins_ok (xp_client x)"
  by (simp add: conf_log_def)

lemma report_conf_error_ok [simp]: "plugins_ok (xp_client (report_conf_error env e x)) = plugins_ok (xp_client x)"
  by (simp add: report_conf_error_def split: exception_class.splits)

lemma filename_ok [simp]: "plugins_ok (w\<lparr>mw_filename := f\<rparr>) = plugins_ok w"
  by (simp add: plugins_ok_def)

lemma set_filename_ok: "plugins_ok (xp_client (set_filename f x)) = plugins_ok (xp_client x)"
  by simp

lemma scan_file_ok:
  assumes "conf_local env" "plugins_ok (xp_client x)" "run_state (scan_file env name x) = Some x'"
  shows "plugins_ok (xp_client x')"
proof -
  let ?x = "set_filename (mw_plugin_dir (xp_client x) @ ''/'' @ name) x"
  let ?m = "bindO (Reset (me_page env) ?x) (\<lambda>_ x. Parse (main_handlers env) (me_expat env) (me_fopen env) (me_page env) None x)"
  have m: "plugins_ok (xp_client v)" if "run_state ?m = Some v" for v
  proof (cases "Reset (me_page env) ?x")
    case (Return u y)
    then have "plugins_ok (xp_client y)" using daemon_conf.Reset_client [of "me_page env" ?x y] assms(2) by simp
    then show ?thesis using daemon_conf.Parse_keeps [of env y] that Return assms(1) by auto
  qed (use that daemon_conf.Reset_client [of "me_page env" ?x v] assms(2) in auto)
  show ?thesis
    using assms(3) m run_state_catchO [of ?m "\<lambda>e x. Return () (report_conf_error env e x)" x']
    by (auto simp: scan_file_def Let_def)
qed

lemma scan_loop_ok:
  assumes "conf_local env"
  shows "plugins_ok (xp_client x) \<Longrightarrow> run_state (scan_loop env es x) = Some x' \<Longrightarrow> plugins_ok (xp_client x')"
proof (induction es arbitrary: x)
  case (Cons e es)
  show ?case
  proof (cases e)
    case (Inr f)
    obtain name ty where f: "f = (name, ty)" by (cases f)
    have "plugins_ok (xp_client x')" if "run_state (bindO (scan_file env name x) (\<lambda>_ x. scan_loop env es x)) = Some x'"
    proof (cases "scan_file env name x")
      case (Return u y)
      then show ?thesis using that Cons.IH [of y] scan_file_ok [OF assms Cons.prems(1), of name y] by simp
    qed (use that scan_file_ok [OF assms Cons.prems(1), of name x'] in auto)
    then show ?thesis using Cons.prems Cons.IH [of x] Inr f by (simp split: if_splits)
  qed (use Cons.prems in auto)
qed simp

lemma ScanPlugins_ok:
  assumes "conf_local env" "plugins_ok (xp_client x)" "run_state (ScanPlugins env x) = Some x'"
  shows "plugins_ok (xp_client x')"
proof (cases "me_readdir env (c_str (mw_plugin_dir (xp_client x)))")
  case (Inl e)
  then show ?thesis using assms(2,3) by (auto simp: ScanPlugins_def Let_def)
next
  case (Inr es)
  then show ?thesis using assms(3) scan_loop_ok [OF assms(1,2), of es]
    by (cases "scan_loop env es x") (auto simp: ScanPlugins_def Let_def)
qed

text \<open>
  C14. The daemon's tables. Whatever the configuration files contain, and whether reading them
  ends normally or with an exception, \<open>Reload\<close> keeps the invariant: every entry of the plugin
  map is a live plugin object of that name, the maps are sorted without duplicates, and every
  event filter belongs to a live plugin and never names that plugin itself, so no plugin is
  sent its own events.
\<close>

theorem reload_keeps_tables:
  assumes "conf_local env" "plugins_ok (xp_client x)" "run_state (Reload env x) = Some x'"
  shows "plugins_ok (xp_client x')"
proof -
  let ?x = "conf_log Level_Debug ''Reload configuration.'' [] x"
  let ?P = "\<lambda>y. Parse (main_handlers env) (me_expat env) (me_fopen env) (me_page env) None y"
  show ?thesis
  proof (cases "Reset (me_page env) ?x")
    case (Return u y)
    then have y: "plugins_ok (xp_client y)" using daemon_conf.Reset_client [of "me_page env" ?x y] assms(2) by simp
    have p: "plugins_ok (xp_client z)" if "run_state (?P y) = Some z" for z
      using daemon_conf.Parse_keeps [of env y] that y assms(1) by blast
    show ?thesis using assms(3) Return p ScanPlugins_ok [OF assms(1)] by (cases "?P y") (auto simp: Reload_def)
  qed (use assms(2,3) daemon_conf.Reset_client [of "me_page env" ?x x'] in \<open>auto simp: Reload_def\<close>)
qed

section \<open>Instances\<close>

lemma sample_env_local: "conf_local (sample_env evs err)"
  by (simp add: conf_local_def)

definition one_plugin :: main_world where
  "one_plugin = idle_main\<lparr>ld_objs := [7 \<mapsto> plugin_named ''FileWatch''],
     mw_plugin := [(''FileWatch'', \<lparr>ld_so_name = ''libfw.so'', ld_handle = 1, ld_plugin = 7\<rparr>)],
     mw_filter := [(7, [''Example''])]\<rparr>"

lemma one_plugin_ok: "plugins_ok one_plugin"
  by (simp add: plugins_ok_def one_plugin_def plugin_named_def omap_ok_def strcasecmp_eq_def c_str_def tolower_def)

text \<open>A configuration that the handlers reject: the tables are still sound.\<close>

theorem reload_keeps_tables_witness:
  "\<exists>e x'. Reload (sample_env [(SaxOpen ''plugin'' [], pos0)] None) (set_filename ''main.conf'' (conf_start one_plugin)) =
      Throw e x' \<and> plugins_ok (xp_client x')"
proof -
  let ?env = "sample_env [(SaxOpen ''plugin'' [], pos0)] None" and ?x = "set_filename ''main.conf'' (conf_start one_plugin)"
  have ok: "plugins_ok (xp_client ?x)" using one_plugin_ok by simp
  have "omap_lookup (xt_param (csXmlTag_ctor ''plugin'' [])) k = None" for k by (simp add: ctor_param)
  then have "\<exists>e x'. Reload ?env ?x = Throw e x'"
    by (simp add: Reload_def conf_log_def Reset_def Parse_def into_buffer_def csXmlElementOpen_def client_op_def
        main_handlers_def main_ParseElementOpen_def ParseError_def pos0_def stack_tags_def Let_def)
  then obtain e x' where "Reload ?env ?x = Throw e x'" by blast
  moreover from this have "plugins_ok (xp_client x')"
    using reload_keeps_tables [OF sample_env_local ok, of "[(SaxOpen ''plugin'' [], pos0)]" None x'] by simp
  ultimately show ?thesis by blast
qed

end
