(* ===== verification/Cs_Main_Properties.thy ===== *)
theory Cs_Main_Properties
  imports Cs_Main Cs_Main_Invariant Cs_Timer_Properties Cs_Plugin_File
begin

text \<open>
  What the daemon does at run time: which plugins receive a plugin event, how a signal stops
  every thread and the main loop, which exit code the command line leads to, and what dumping
  a state file does to it.
\<close>

section \<open>Dispatch of plugin events\<close>

text \<open>A name of the filter matches the source.\<close>

definition matched :: "string \<Rightarrow> string list \<Rightarrow> bool" where
  "matched source names \<longleftrightarrow> (\<exists>m \<in> set names. strcasecmp_eq source m)"

text \<open>The clients whose filter lets events of this source through.\<close>

definition listeners :: "string \<Rightarrow> (nat \<times> string list) list \<Rightarrow> nat set" where
  "listeners source fs = {q. \<exists>names. (q, names) \<in> set fs \<and> matched source names}"

text \<open>Every filter belongs to a plugin that the plugin map has under its name.\<close>

definition resolved :: "main_world \<Rightarrow> (nat \<times> string list) list \<Rightarrow> bool" where
  "resolved w fs \<longleftrightarrow> (\<forall>(q, names) \<in> set fs. \<exists>p l. ld_objs w q = Some p \<and>
     omap_lookup (mw_plugin w) (pl_name p) = Some l \<and> ld_plugin l = q)"

lemma sw_ev_frame [simp]:
  fixes w :: main_world
  shows "ld_objs (w\<lparr>sw_ev := e\<rparr>) = ld_objs w" "mw_plugin (w\<lparr>sw_ev := e\<rparr>) = mw_plugin w"
    "mw_filter (w\<lparr>sw_ev := e\<rparr>) = mw_filter w" "mw_this (w\<lparr>sw_ev := e\<rparr>) = mw_this w"
    "resolved (w\<lparr>sw_ev := e\<rparr>) fs = resolved w fs"
  by (simp_all add: resolved_def)

lemma filter_loop_eq:
  assumes "ld_objs w q = Some p" "omap_lookup (mw_plugin w) (pl_name p) = Some l" "ld_plugin l = q"
  shows "filter_loop a source q names w = (if matched source names
    then ev_op (\<lambda>v. bindO (Clone a v) (\<lambda>copy. EventDispatch (mw_this w) copy (ClientAt q))) w else Return () w)"
proof (induction names)
  case (Cons m ms)
  have op: "bindO (ev_op f w) (\<lambda>x w. ev_op (g x) w) = ev_op (\<lambda>v. bindO (f v) g) w" for f and g :: "nat \<Rightarrow> _"
    by (cases "f (sw_ev w)") (auto simp: ev_op_def zoomO_def split: outcome.splits)
  have mt: "bindO (ev_op (Clone a) w) (\<lambda>copy w. ev_op (EventDispatch (mw_this w) copy (ClientAt q)) w) =
      bindO (ev_op (Clone a) w) (\<lambda>copy v. ev_op (EventDispatch (mw_this w) copy (ClientAt q)) v)"
    by (cases "Clone a (sw_ev w)") (auto simp: ev_op_def zoomO_def)
  show ?case using Cons assms by (simp add: matched_def pluginName_def mt op)
qed (simp add: matched_def)

text \<open>One copy sent to one client; the original stays as it is.\<close>

lemma send_copy:
  assumes "ev_wf v" "event_client v \<noteq> []" "ev_heap v a = Some e" "a \<notin> queued v" "clone_event e = Some e'"
  shows "\<exists>v'. bindO (Clone a v) (\<lambda>copy. EventDispatch this copy (ClientAt q)) = Return () v' \<and> ev_wf v' \<and>
    ev_moves {} {} v v' \<and> ev_heap v' a = Some e \<and> a \<notin> queued v' \<and>
    abs_queue v' = broadcast_spec (e'\<lparr>ev_dst := ClientAt q, ev_src := ClientAt this\<rparr>)
      (\<lambda>d. d = q \<and> enabled v d) (abs_queue v)"
proof -
  obtain v' where v': "bindO (ev_new e' v) (\<lambda>c. EventDispatch this c (ClientAt q)) = Return () v'" "ev_wf v'"
    "ev_moves {} {} v v'"
    "abs_queue v' = broadcast_spec (e'\<lparr>ev_dst := ClientAt q, ev_src := ClientAt this\<rparr>)
      (\<lambda>d. ClientAt q = ClientAt d \<and> enabled v d) (abs_queue v)"
    using send_new [OF assms(1,2), of "ClientAt q" e' this] by auto
  have "a \<in> loose v" using assms(3,4) by (auto simp: loose_def)
  then have "ev_heap v' a = Some e" "a \<notin> queued v'"
    using v'(3) assms(3) by (auto simp: ev_moves_def loose_def)
  moreover have "Clone a v = ev_new e' v" using assms(3,5) by (simp add: Clone_def ev_read_def)
  moreover have "(\<lambda>d. ClientAt q = ClientAt d \<and> enabled v d) = (\<lambda>d. d = q \<and> enabled v d)" by auto
  ultimately show ?thesis using v' by auto
qed

definition forwarded :: "csEvent \<Rightarrow> nat \<Rightarrow> nat set \<Rightarrow> ev_world \<Rightarrow> nat \<Rightarrow> csEvent list option" where
  "forwarded e this qs v c = (if c \<in> qs \<and> enabled v c
     then Some (push_spec (e\<lparr>ev_dst := ClientAt c, ev_src := ClientAt this\<rparr>) (the (abs_queue v c)))
     else abs_queue v c)"

lemma dispatch_loop_spec:
  assumes "ev_wf (sw_ev w)" "event_client (sw_ev w) \<noteq> []" "ev_heap (sw_ev w) a = Some e" "a \<notin> queued (sw_ev w)"
    "clone_event e = Some e'" "resolved w fs" "distinct (map fst fs)"
  shows "\<exists>v. dispatch_loop a source fs w = Return () (w\<lparr>sw_ev := v\<rparr>) \<and> ev_wf v \<and> ev_moves {} {} (sw_ev w) v \<and>
    ev_heap v a = Some e \<and> a \<notin> queued v \<and>
    abs_queue v = forwarded e' (mw_this w) (listeners source fs) (sw_ev w)"
  using assms
proof (induction fs arbitrary: w)
  case Nil
  then show ?case
    by (intro exI [of _ "sw_ev w"]) (simp add: ev_moves_refl forwarded_def listeners_def fun_eq_iff)
next
  case (Cons f fs)
  obtain q names where f: "f = (q, names)" by (cases f)
  obtain p l where pl: "ld_objs w q = Some p" "omap_lookup (mw_plugin w) (pl_name p) = Some l" "ld_plugin l = q"
    using Cons.prems(6) f by (auto simp: resolved_def)
  note step = filter_loop_eq [OF pl, of a source names]
  have res: "resolved w fs" "distinct (map fst fs)" using Cons.prems(6,7) by (auto simp: resolved_def)
  have q: "q \<notin> listeners source fs" using Cons.prems(7) f by (force simp: listeners_def)
  show ?case
  proof (cases "matched source names")
    case False
    then have "listeners source (f # fs) = listeners source fs" using f by (auto simp: listeners_def)
    then show ?thesis using Cons.IH [OF Cons.prems(1-5) res] step False f by simp
  next
    case True
    obtain v where v: "bindO (Clone a (sw_ev w)) (\<lambda>copy. EventDispatch (mw_this w) copy (ClientAt q)) = Return () v"
      "ev_wf v" "ev_moves {} {} (sw_ev w) v" "ev_heap v a = Some e" "a \<notin> queued v"
      "abs_queue v = broadcast_spec (e'\<lparr>ev_dst := ClientAt q, ev_src := ClientAt (mw_this w)\<rparr>)
        (\<lambda>d. d = q \<and> enabled (sw_ev w) d) (abs_queue (sw_ev w))"
      using send_copy [OF Cons.prems(1-5), of "mw_this w" q] by blast
    let ?w = "w\<lparr>sw_ev := v\<rparr>"
    have en: "enabled v = enabled (sw_ev w)" "event_client v = event_client (sw_ev w)"
      using v(3) by (simp_all add: ev_moves_def)
    obtain v' where v': "dispatch_loop a source fs ?w = Return () (?w\<lparr>sw_ev := v'\<rparr>)" "ev_wf v'" "ev_moves {} {} v v'"
      "ev_heap v' a = Some e" "a \<notin> queued v'" "abs_queue v' = forwarded e' (mw_this w) (listeners source fs) v"
      using Cons.IH [of ?w] Cons.prems(2,5) v en res by auto
    have "listeners source (f # fs) = insert q (listeners source fs)" using True f by (auto simp: listeners_def)
    then have "abs_queue v' = forwarded e' (mw_this w) (listeners source (f # fs)) (sw_ev w)"
      using v'(6) v(6) en(1) q by (auto simp: forwarded_def broadcast_spec_def fun_eq_iff)
    then show ?thesis using v v' step True f ev_moves_trans [OF v(3) v'(3)] by (auto simp: ev_op_Return)
  qed
qed

text \<open>
  C3. Delivery of plugin events. \<open>DispatchPluginEvent\<close> marks the event with the name of the
  plugin it comes from, and puts exactly one copy into the queue of every enabled plugin whose
  filter has that name in any spelling, however often it is listed; no other queue changes, the
  event itself stays alive, and nothing is leaked.
\<close>

theorem plugin_event_delivered:
  assumes "ev_wf (sw_ev w)" "event_client (sw_ev w) \<noteq> []" "ev_heap (sw_ev w) a = Some e" "a \<notin> queued (sw_ev w)"
    "ev_class e = EvPlugin kv" "ev_src e = ClientAt src" "ld_objs w src = Some p"
    "resolved w (mw_filter w)" "omap_ok (mw_filter w)"
  shows "\<exists>v. DispatchPluginEvent a w = Return () (w\<lparr>sw_ev := v\<rparr>) \<and> ev_wf v \<and>
    ev_heap v a = Some (e\<lparr>ev_class := EvPlugin (kv(''event_source'' \<mapsto> pl_name p))\<rparr>) \<and> a \<notin> queued v \<and>
    abs_queue v = forwarded (e\<lparr>ev_class := EvPlugin (kv(''event_source'' \<mapsto> pl_name p))\<rparr>) (mw_this w)
      (listeners (pl_name p) (mw_filter w)) (sw_ev w) \<and>
    ev_moves {a} {a} (sw_ev w) v"
proof -
  let ?f = "csEventPlugin_SetValue ''event_source'' (pl_name p)"
  let ?e = "e\<lparr>ev_class := EvPlugin (kv(''event_source'' \<mapsto> pl_name p))\<rparr>"
  let ?v = "(sw_ev w)\<lparr>ev_heap := (ev_heap (sw_ev w))(a \<mapsto> ?e)\<rparr>"
  let ?w = "w\<lparr>sw_ev := ?v\<rparr>"
  have fe: "?f e = ?e" using assms(5) by (simp add: csEventPlugin_SetValue_def)
  have core: "ev_core (sw_ev w)" using assms(1) by (simp add: ev_wf_def)
  note wl = write_loose [OF core assms(4,3), of ?f, unfolded fe]
  have pre: "ev_wf (sw_ev ?w)" "event_client (sw_ev ?w) \<noteq> []" "ev_heap (sw_ev ?w) a = Some ?e" "a \<notin> queued (sw_ev ?w)"
    "clone_event ?e = Some ?e" "resolved ?w (mw_filter ?w)" "distinct (map fst (mw_filter ?w))"
    using wl assms(1,2,4,8,9) omap_ok_distinct by (simp_all add: ev_wf_def clone_event_def)
  obtain v where v: "dispatch_loop a (pl_name p) (mw_filter ?w) ?w = Return () (?w\<lparr>sw_ev := v\<rparr>)" "ev_wf v"
    "ev_moves {} {} (sw_ev ?w) v" "ev_heap v a = Some ?e" "a \<notin> queued v"
    "abs_queue v = forwarded ?e (mw_this ?w) (listeners (pl_name p) (mw_filter ?w)) (sw_ev ?w)"
    using dispatch_loop_spec [OF pre, of "pl_name p"] by blast
  have run: "DispatchPluginEvent a w = Return () (w\<lparr>sw_ev := v\<rparr>)"
    using v(1) assms(3,5-7) fe
    by (simp add: DispatchPluginEvent_def ev_op_def zoomO_def ev_read_def ev_write_def pluginName_def)
  have "abs_queue v = forwarded ?e (mw_this w) (listeners (pl_name p) (mw_filter w)) (sw_ev w)"
    using v(6) wl(2,4) by (simp add: forwarded_def fun_eq_iff)
  moreover have "ev_moves {a} {a} (sw_ev w) v" using ev_moves_trans [OF wl(5), of "{}" "{}" v] v(3) by simp
  ultimately show ?thesis using run v(2,4,5) by blast
qed

section \<open>Stopping the daemon\<close>

text \<open>\<open>EventPopWait\<close> on a queue that has an event.\<close>

lemma popwait_loop_event: "EventPop c v = Return (Some a) v' \<Longrightarrow> popwait_loop ms c ws v = Return (Some a) v'"
  by (cases ws) auto

lemma popwait_front:
  assumes "ev_wf v" "abs_queue v c = Some (x # r)" "IsSticky x \<longrightarrow> clonable x"
  shows "\<exists>a v' y. EventPopWait c ms now waits v = Return (Some a) v' \<and> ev_wf v' \<and> ev_heap v' a = Some y \<and>
    a \<notin> queued v' \<and> ev_id y = ev_id x \<and> event_client v' = event_client v"
proof -
  obtain a v' y where "EventPop c v = Return (Some a) v'" "ev_wf v'" "ev_heap v' a = Some y"
    "a \<notin> queued v'" "ev_id y = ev_id x" "event_client v' = event_client v"
    using pop_front [OF assms] by blast
  then show ?thesis
    by (intro exI [of _ a] exI [of _ v'] exI [of _ y]) (simp add: EventPopWait_def popwait_loop_event)
qed

definition quit_mail :: "nat \<Rightarrow> csEvent" where
  "quit_mail this = quit_broadcast\<lparr>ev_dst := BroadcastClient, ev_src := ClientAt this\<rparr>"

lemma quit_mail_simps [simp]:
  "ev_id (quit_mail this) = csEVENT_QUIT" "IsSticky (quit_mail this)" "IsHighPriority (quit_mail this)"
  "\<not> IsExclusive (quit_mail this)" "clonable (quit_mail this)" "clone_event quit_broadcast = Some quit_broadcast"
  "push_spec (quit_mail this) q = quit_mail this # q"
  by (simp_all add: quit_mail_def quit_broadcast_def csEvent_ctor_def IsSticky_def IsHighPriority_def IsExclusive_def
      clonable_def clone_event_def push_spec_def event_flag_values)

lemma quit_broadcast_spec:
  assumes "ev_wf v" "event_client v \<noteq> []"
  shows "\<exists>v'. bindO (ev_new quit_broadcast v) (\<lambda>a v. EventBroadcast this a v) = Return () v' \<and> ev_wf v' \<and>
    event_client v' = event_client v \<and> enabled v' = enabled v \<and>
    abs_queue v' = broadcast_spec (quit_mail this) (enabled v) (abs_queue v)"
proof -
  let ?a = "ev_next v"
  let ?v = "v\<lparr>ev_heap := (ev_heap v)(?a \<mapsto> quit_broadcast), ev_next := Suc ?a\<rparr>"
  have core: "ev_core v" using assms(1) by (simp add: ev_wf_def)
  note n = new_event [OF core, of quit_broadcast]
  have wf: "ev_wf ?v" using n(1) assms(1) by (simp add: ev_wf_def)
  have a: "ev_heap ?v ?a = Some quit_broadcast" "?a \<notin> queued ?v" using n(3) ev_next_not_queued [OF core] by auto
  have fr: "event_client ?v = event_client v" "enabled ?v = enabled v" using n(4) by (simp_all add: ev_moves_def)
  obtain v' where "EventBroadcast this ?a ?v = Return () v'" "ev_wf v'" "ev_moves {?a} {} ?v v'"
    "abs_queue v' = broadcast_spec (quit_broadcast\<lparr>ev_dst := BroadcastClient, ev_src := ClientAt this\<rparr>)
      (enabled ?v) (abs_queue ?v)"
    using EventBroadcast_spec [OF wf _ a, of quit_broadcast this] fr(1) assms(2) by auto
  then show ?thesis using n(2) fr by (auto simp: ev_new_def ev_moves_def quit_mail_def)
qed

lemma main_turn_quit:
  assumes "ev_wf (sw_ev w)" "abs_queue (sw_ev w) (mw_this w) = Some (x # r)" "ev_id x = csEVENT_QUIT" "clonable x"
  shows "\<exists>w'. main_turn i w = Return False w'"
proof -
  obtain a v y where v: "EventPopWait (mw_this w) 0 (wi_now i) (wi_waits i) (sw_ev w) = Return (Some a) v"
    "ev_heap v a = Some y" "ev_id y = csEVENT_QUIT"
    using popwait_front [OF assms(1,2), of 0 "wi_now i" "wi_waits i"] assms(3,4) by auto
  then show ?thesis using EventDestroy_eq [OF v(2)]
    by (auto simp: main_turn_def handle_event_def ev_op_def zoomO_def ev_read_def sys_log_def)
qed

text \<open>
  C15. Signals stop the daemon. When the signal handler receives \<open>SIGINT\<close> or \<open>SIGTERM\<close> its
  thread ends; every enabled client of the event system then has the quit event in front of
  whatever waits in its queue, and the main loop returns in its next turn, whatever else the
  main thread has to do.
\<close>

theorem signal_stops_daemon:
  assumes "ev_wf (sw_ev w)" "event_client (sw_ev w) \<noteq> []" "enabled (sw_ev w) (mw_this w)"
    "sig = SIGINT \<or> sig = SIGTERM"
  shows "\<exists>w' w''. csSignalHandler_Entry strerror strsignal h ((Inr sig, cs) # is) w = Return (Some ()) w' \<and>
    (\<forall>c. enabled (sw_ev w) c \<longrightarrow> (\<exists>q. abs_queue (sw_ev w) c = Some q \<and> abs_queue (sw_ev w') c = Some (quit_mail h # q))) \<and>
    Run (i # js) w' = Return (Some ()) w''"
proof -
  let ?w = "sys_log Level_Debug ''Signal received: %s'' [ArgS (strsignal sig)]
    (sys_log Level_Debug ''Signal handler started.'' [] w)"
  obtain v where v: "bindO (ev_new quit_broadcast (sw_ev ?w)) (\<lambda>a v. EventBroadcast h a v) = Return () v" "ev_wf v"
    "abs_queue v = broadcast_spec (quit_mail h) (enabled (sw_ev w)) (abs_queue (sw_ev w))"
    using quit_broadcast_spec [of "sw_ev ?w" h] assms(1,2) by auto
  let ?w' = "?w\<lparr>sw_ev := v\<rparr>"
  have run: "csSignalHandler_Entry strerror strsignal h ((Inr sig, cs) # is) w = Return (Some ()) ?w'"
    using assms(4) v(1)
    by (auto simp: csSignalHandler_Entry_def signal_turn_def broadcast_new_def Let_def ev_op_def zoomO_def)
  have mail: "\<exists>q. abs_queue (sw_ev w) c = Some q \<and> abs_queue v c = Some (quit_mail h # q)" if "enabled (sw_ev w) c" for c
    using that v(3) by (auto simp: broadcast_spec_def enabled_def abs_queue_def)
  obtain q where "abs_queue (sw_ev ?w') (mw_this ?w') = Some (quit_mail h # q)" using mail [OF assms(3)] by auto
  then obtain w'' where "main_turn i ?w' = Return False w''" using main_turn_quit [of ?w' "quit_mail h" q i] v(2) by auto
  then have "Run (i # js) ?w' = Return (Some ()) w''" by simp
  then show ?thesis using run mail by (intro exI [of _ ?w'] exI [of _ w'']) simp
qed

section \<open>Dumping a state file\<close>

text \<open>The plugin object behind the dump, before it is given the file.\<close>

definition state_loader :: "disk \<Rightarrow> csPlugin" where
  "state_loader d = \<lparr>pl_name = ''StateLoader'', pl_parent = 0, fh_state = None, pl_vars = [], pl_disk = d, pl_log = []\<rparr>"

definition threads_work :: "pthread_env \<Rightarrow> u64 \<Rightarrow> bool" where
  "threads_work env stk \<longleftrightarrow> pt_attr_init env = 0 \<and> pt_attr_setstacksize env stk = 0"

lemma plugin_op_Return:
  fixes w :: main_world
  assumes "ld_objs w a = Some p" "f (p\<lparr>pl_disk := ld_disk w, pl_log := []\<rparr>) = Return r q"
  shows "plugin_op a f w = Return r (w\<lparr>ld_objs := (ld_objs w)(a \<mapsto> q\<lparr>pl_log := []\<rparr>), ld_disk := pl_disk q,
    sw_log := sw_log w @ pl_log q\<rparr>)"
  using assms by (simp add: plugin_op_def zoomO_def Let_def)

lemma DumpStateFile_run:
  assumes "ev_wf (sw_ev w)" "ld_next w \<notin> set (event_client (sw_ev w))" "threads_work (me_pthread env) 65536"
    "SetStateFile (me_alloc env) path (state_loader (ld_disk w)) = Return () p1"
    "LoadState (me_alloc env) (p1\<lparr>pl_log := []\<rparr>) = Return () p2" "dump_vars (pl_vars p2) = Some t"
  shows "\<exists>w'. DumpStateFile env path w = Return () w' \<and> mw_stdout w' = mw_stdout w @ t \<and>
    ld_disk w' = pl_disk (SaveState (p2\<lparr>pl_log := []\<rparr>)) \<and> ld_objs w' = (ld_objs w)(ld_next w := None) \<and>
    event_client (sw_ev w') = event_client (sw_ev w)"
proof -
  let ?a = "ld_next w"
  obtain e1 e2 where e: "csEventClient_ctor ?a (sw_ev w) = Return () e1" "csEventClient_dtor ?a e1 = Return () e2"
    "event_client e2 = event_client (sw_ev w)"
    using client_ctor_dtor [OF assms(1,2)] by blast
  let ?th = "\<lparr>th_id = invalid_id, th_attr = Some 65536\<rparr>"
  let ?w1 = "w\<lparr>ld_next := Suc ?a, sw_ev := e1, sw_threads := (sw_threads w)(?a \<mapsto> ?th),
    ld_objs := (ld_objs w)(?a \<mapsto> state_loader (ld_disk w)),
    sw_log := sw_log w @ pl_log (csPlugin_ctor ''StateLoader'' 0 65536 (ld_disk w))\<rparr>"
  have init: "csPluginInit (me_pthread env) ''StateLoader'' 0 65536 w = Return (Some ?a) ?w1"
    using e(1) assms(3) by (simp add: csPluginInit_def Let_def csThread_ctor_def ev_op_def zoomO_def threads_work_def
        set_thread_def csPlugin_ctor_def pl_say_def state_loader_def)
  obtain w1 where w1: "csPluginInit (me_pthread env) ''StateLoader'' 0 65536 w = Return (Some ?a) w1"
    "ld_objs w1 = (ld_objs w)(?a \<mapsto> state_loader (ld_disk w))" "ld_disk w1 = ld_disk w" "mw_stdout w1 = mw_stdout w"
    "sw_ev w1 = e1" using init by simp
  have sl: "(state_loader d)\<lparr>pl_disk := d, pl_log := []\<rparr> = state_loader d" for d by (simp add: state_loader_def)
  have o1: "ld_objs w1 ?a = Some (state_loader (ld_disk w))" using w1(2) by simp
  have f1: "SetStateFile (me_alloc env) path ((state_loader (ld_disk w))\<lparr>pl_disk := ld_disk w1, pl_log := []\<rparr>) = Return () p1"
    using assms(4) w1(3) sl by simp
  obtain w2 where w2: "plugin_op ?a (SetStateFile (me_alloc env) path) w1 = Return () w2"
    "ld_objs w2 = (ld_objs w)(?a \<mapsto> p1\<lparr>pl_log := []\<rparr>)" "ld_disk w2 = pl_disk p1" "mw_stdout w2 = mw_stdout w" "sw_ev w2 = e1"
    using plugin_op_Return [where f = "SetStateFile (me_alloc env) path", OF o1 f1] w1 by simp
  have o2: "ld_objs w2 ?a = Some (p1\<lparr>pl_log := []\<rparr>)" using w2(2) by simp
  have "(p1\<lparr>pl_log := []\<rparr>)\<lparr>pl_disk := ld_disk w2, pl_log := []\<rparr> = p1\<lparr>pl_log := []\<rparr>" using w2(3) by (cases p1) simp
  then have f2: "LoadState (me_alloc env) ((p1\<lparr>pl_log := []\<rparr>)\<lparr>pl_disk := ld_disk w2, pl_log := []\<rparr>) = Return () p2"
    using assms(5) by simp
  obtain w3 where w3: "plugin_op ?a (LoadState (me_alloc env)) w2 = Return () w3"
    "ld_objs w3 = (ld_objs w)(?a \<mapsto> p2\<lparr>pl_log := []\<rparr>)" "ld_disk w3 = pl_disk p2" "mw_stdout w3 = mw_stdout w" "sw_ev w3 = e1"
    using plugin_op_Return [where f = "LoadState (me_alloc env)", OF o2 f2] w2 by simp
  let ?w3 = "w3\<lparr>mw_stdout := mw_stdout w @ t\<rparr>"
  have dump: "state_loader_dump env ?a path w1 = Return () ?w3"
    using w2(1) w3 assms(6) by (simp add: state_loader_dump_def)
  have o3: "ld_objs ?w3 ?a = Some (p2\<lparr>pl_log := []\<rparr>)" using w3(2) by simp
  have p2': "(p2\<lparr>pl_log := []\<rparr>)\<lparr>pl_disk := ld_disk ?w3, pl_log := []\<rparr> = p2\<lparr>pl_log := []\<rparr>" using w3(3) by (cases p2) simp
  obtain w4 where w4: "plugin_op ?a (\<lambda>p. Return () (csPlugin_dtor p)) ?w3 = Return () w4"
    "ld_objs w4 = (ld_objs w)(?a \<mapsto> (csPlugin_dtor (p2\<lparr>pl_log := []\<rparr>))\<lparr>pl_log := []\<rparr>)"
    "ld_disk w4 = pl_disk (SaveState (p2\<lparr>pl_log := []\<rparr>))" "mw_stdout w4 = mw_stdout w @ t" "sw_ev w4 = e1"
    using plugin_op_Return [OF o3, of "\<lambda>p. Return () (csPlugin_dtor p)"] w3 unfolding p2' by (simp add: dtor_disk)
  have "csPlugin_delete ?a ?w3 = Return () (set_thread ?a None (w4\<lparr>sw_ev := e2, ld_objs := (ld_objs w)(?a := None)\<rparr>))"
    using w4 e(2) by (simp add: csPlugin_delete_def ev_op_def zoomO_def)
  then show ?thesis using w1(1) dump w4 e(3)
    by (simp add: DumpStateFile_def set_thread_def)
qed

lemma SetStateFile_opened:
  assumes "c_str path = path" "fopen path (if stat_ok path (pl_disk p) then ''r+'' else ''w+'') (pl_disk p) =
      (Inr \<lparr>f_path = path, f_pos = 0, f_eof = False\<rparr>, d)"
    "parse_state alloc (readable d path) = (es, False)"
  shows "\<exists>q. SetStateFile alloc path p = Return () q \<and> pl_vars q = assign_vars es [] \<and> pl_disk q = d \<and>
    (\<exists>f. fh_state q = Some f \<and> f_path f = path)"
proof -
  let ?f = "\<lparr>f_path = path, f_pos = 0, f_eof = False\<rparr>"
  let ?p = "p\<lparr>fh_state := Some ?f, pl_disk := d\<rparr>"
  obtain q where q: "LoadState alloc ?p = Return () q" "same_file ?p q" "pl_vars q = assign_vars es []"
    using LoadState_parse [of ?p ?f alloc es False] assms(3) by auto
  have "SetStateFile alloc path p = LoadState alloc ?p"
    using assms(1,2) by (auto simp: SetStateFile_def Let_def split: if_splits)
  then show ?thesis using q by (auto simp: same_file_def)
qed

text \<open>Both theorems below: opening, loading twice, printing, saving again.\<close>

lemma dump_reads_and_writes:
  assumes "ev_wf (sw_ev w)" "ld_next w \<notin> set (event_client (sw_ev w))" "threads_work (me_pthread env) 65536"
    "c_str path = path"
    "fopen path (if stat_ok path (ld_disk w) then ''r+'' else ''w+'') (ld_disk w) =
       (Inr \<lparr>f_path = path, f_pos = 0, f_eof = False\<rparr>, d)"
    "parse_state (me_alloc env) (readable d path) = (m, False)" "omap_ok m"
    "\<forall>kv \<in> set m. storable_record (me_alloc env) kv" "length (enc_state m) \<le> dk_limit d path" "dump_vars m = Some t"
  shows "\<exists>w'. DumpStateFile env path w = Return () w' \<and> mw_stdout w' = mw_stdout w @ t \<and>
    dk_files (ld_disk w') = (dk_files d)(path \<mapsto> enc_state m @ drop (length (enc_state m)) (dk_data d path)) \<and>
    ld_objs w' = (ld_objs w)(ld_next w := None) \<and> event_client (sw_ev w') = event_client (sw_ev w)"
proof -
  have fo: "fopen path (if stat_ok path (pl_disk (state_loader (ld_disk w))) then ''r+'' else ''w+'')
      (pl_disk (state_loader (ld_disk w))) = (Inr \<lparr>f_path = path, f_pos = 0, f_eof = False\<rparr>, d)"
    using assms(5) by (simp add: state_loader_def)
  obtain p1 f1 where p1: "SetStateFile (me_alloc env) path (state_loader (ld_disk w)) = Return () p1"
    "pl_disk p1 = d" "fh_state p1 = Some f1" "f_path f1 = path"
    using SetStateFile_opened [OF assms(4) fo assms(6)] by blast
  obtain p2 where p2: "LoadState (me_alloc env) (p1\<lparr>pl_log := []\<rparr>) = Return () p2" "same_file p1 p2" "pl_vars p2 = m"
    using LoadState_parse [of "p1\<lparr>pl_log := []\<rparr>" f1 "me_alloc env" m False] p1 assms(6) assign_vars_self [OF assms(7)]
    by (auto simp: same_file_def)
  obtain f2 where f2: "fh_state p2 = Some f2" "f_path f2 = path" "pl_disk p2 = d"
    using p2(2) p1 by (auto simp: same_file_def)
  let ?q = "p2\<lparr>pl_log := []\<rparr>"
  have "dk_files (pl_disk (SaveState ?q)) = (dk_files d)(path \<mapsto> enc_state m @ drop (length (enc_state m)) (dk_data d path))"
    using SaveState_data [of ?q f2 m] f2 p2(3) assms(8,9) by (auto simp: enc_state_def storable_record_def)
  then show ?thesis using DumpStateFile_run [OF assms(1-3) p1(1) p2(1)] p2(3) assms(10) by auto
qed


text \<open>
  Dumping a file that is not there. \<open>-D\<close> with the name of a file that does not exist prints
  nothing and creates the file: the empty state that the destructor saves.
\<close>

theorem dump_creates_file:
  assumes "ev_wf (sw_ev w)" "ld_next w \<notin> set (event_client (sw_ev w))" "threads_work (me_pthread env) 65536"
    "c_str path = path" "dk_refuse (ld_disk w) path ''w+'' = None" "dk_files (ld_disk w) path = None"
    "8 \<le> dk_limit (ld_disk w) path"
  shows "\<exists>w'. DumpStateFile env path w = Return () w' \<and> mw_stdout w' = mw_stdout w \<and>
    dk_files (ld_disk w') = (dk_files (ld_disk w))(path \<mapsto> put_u64 0)"
proof -
  let ?d = "(ld_disk w)\<lparr>dk_files := (dk_files (ld_disk w))(path \<mapsto> [])\<rparr>"
  have fo: "fopen path (if stat_ok path (ld_disk w) then ''r+'' else ''w+'') (ld_disk w) =
      (Inr \<lparr>f_path = path, f_pos = 0, f_eof = False\<rparr>, ?d)"
    using assms(5,6) by (simp add: fopen_def stat_ok_def)
  have "parse_state (me_alloc env) (readable ?d path) = ([], False)"
    by (simp add: parse_state_def readable_def dk_data_def)
  from dump_reads_and_writes [OF assms(1-4) fo this] show ?thesis
    using assms(7) by (auto simp: enc_state_def dk_data_def)
qed

section \<open>The command line\<close>

text \<open>What looking at the options can change: the log mask and the log.\<close>

definition opts_frame :: "main_world \<Rightarrow> main_world \<Rightarrow> bool" where
  "opts_frame w w' \<longleftrightarrow> (\<exists>g l. w' = w\<lparr>mw_logger := g, sw_log := l\<rparr>)"

lemma opts_frame_refl: "opts_frame w w"
  unfolding opts_frame_def by (intro exI [of _ "mw_logger w"] exI [of _ "sw_log w"]) simp

lemma opts_frame_trans: "opts_frame u v \<Longrightarrow> opts_frame v w \<Longrightarrow> opts_frame u w"
  unfolding opts_frame_def by (elim exE) (simp, metis)

lemma opts_frame_step: "opts_frame w (w\<lparr>mw_logger := g\<rparr>)" "opts_frame w (sys_log l f a w)"
  unfolding opts_frame_def sys_log_def
  by (intro exI [of _ g] exI [of _ "sw_log w"], simp)
    (intro exI [of _ "mw_logger w"] exI [of _ "sw_log w @ [(l, f, a)]"], simp)

lemma fold_log_frame: "opts_frame w (fold (\<lambda>(f, args). sys_log l f args) fs w)"
proof (induction fs arbitrary: w)
  case (Cons f fs)
  then show ?case using opts_frame_trans [OF opts_frame_step(2) Cons.IH] by (cases f) simp
qed (simp add: opts_frame_refl)

lemma option_loop_settings:
  assumes "\<forall>o' \<in> set pre. fst o' \<in> {CHR ''c'', CHR ''d'', CHR ''l''}"
  shows "\<exists>st' w'. option_loop env argv0 (pre @ os) st w = option_loop env argv0 os st' w' \<and> opts_frame w w'"
  using assms
proof (induction pre arbitrary: st w)
  case Nil
  then show ?case using opts_frame_refl by auto
next
  case (Cons o' pre)
  obtain rc arg where o': "o' = (rc, arg)" by (cases o')
  then have "\<exists>st' w'. option_loop env argv0 (o' # pre @ os) st w = option_loop env argv0 (pre @ os) st' w' \<and> opts_frame w w'"
    using Cons.prems opts_frame_refl [of w] opts_frame_step(1) [of w] by auto
  then show ?case using Cons.IH Cons.prems opts_frame_trans by (metis append_Cons list.set_intros(2))
qed

lemma option_loop_ends:
  assumes "\<forall>o' \<in> set pre. fst o' \<in> {CHR ''c'', CHR ''d'', CHR ''l''}" "rc \<in> {CHR ''V'', CHR ''h'', CHR ''?''}"
  shows "\<exists>w'. option_loop env argv0 (pre @ (rc, arg) # post) st w =
    Throw (if rc = CHR ''?'' then csInvalidOptionException else csUsageException) w' \<and> opts_frame w w'"
proof -
  obtain st' v where v: "option_loop env argv0 (pre @ (rc, arg) # post) st w = option_loop env argv0 ((rc, arg) # post) st' v"
    "opts_frame w v"
    using option_loop_settings [OF assms(1)] by blast
  have "\<exists>w'. option_loop env argv0 ((rc, arg) # post) st' v =
      Throw (if rc = CHR ''?'' then csInvalidOptionException else csUsageException) w' \<and> opts_frame v w'"
    using assms(2) fold_log_frame [of v Level_Info] opts_frame_step(2) by (auto simp: Usage_def)
  then show ?thesis using v opts_frame_trans by metis
qed

lemma stdout_log_made:
  assumes "logger_mutex g \<noteq> MutexHeld"
  shows "\<exists>g'. csLog_ctor_stdout a g = Return () g'"
  using assms by (cases "logger_mutex g")
    (auto simp: csLog_ctor_stdout_def Initialize_def logger_lock_def logger_unlock_def mutex_lock_def mutex_unlock_def
      log_new_def logger_push_def)

text \<open>
  C28. Exit codes. A command line that asks for the version or the usage text, after any of the
  options that only set something, ends with exit code 0, one with an invalid option with 1,
  before the daemon detaches, writes its PID file, loads a plugin or starts a thread; and the
  main object is no longer registered for events.
\<close>

theorem command_line_exit:
  assumes "ev_wf (sw_ev (xp_client x))" "mw_this (xp_client x) \<notin> set (event_client (sw_ev (xp_client x)))"
    "logger_mutex (mw_logger (xp_client x)) \<noteq> MutexHeld"
    "\<forall>o' \<in> set pre. fst o' \<in> {CHR ''c'', CHR ''d'', CHR ''l''}" "rc \<in> {CHR ''V'', CHR ''h'', CHR ''?''}"
  shows "\<exists>x'. main env argv0 (pre @ (rc, arg) # post) waits x =
      Return (Some (if rc = CHR ''?'' then csEXIT_INVALID_OPTION else csEXIT_SUCCESS)) x' \<and>
    ld_disk (xp_client x') = ld_disk (xp_client x) \<and> sw_threads (xp_client x') = sw_threads (xp_client x) \<and>
    mw_plugin (xp_client x') = mw_plugin (xp_client x) \<and>
    event_client (sw_ev (xp_client x')) = event_client (sw_ev (xp_client x))"
proof -
  let ?w = "xp_client x" and ?m = "mw_this (xp_client x)"
  let ?e = "if rc = CHR ''?'' then csInvalidOptionException else csUsageException"
  obtain e1 e2 where e: "csEventClient_ctor ?m (sw_ev ?w) = Return () e1" "csEventClient_dtor ?m e1 = Return () e2"
    "event_client e2 = event_client (sw_ev ?w)"
    using client_ctor_dtor [OF assms(1,2)] by blast
  let ?w1 = "?w\<lparr>sw_ev := e1\<rparr>"
  obtain g where g: "csLog_ctor_stdout (ld_next ?w1) (mw_logger ?w1) = Return () g"
    using stdout_log_made [of "mw_logger ?w1" "ld_next ?w1"] assms(3) by auto
  let ?w2 = "?w1\<lparr>ld_next := Suc (ld_next ?w1), mw_logger := SetMask (Level_Info OR Level_Warning OR Level_Error) g,
    mw_log_stdout := Some (ld_next ?w1)\<rparr>"
  obtain w3 where w3: "option_loop env argv0 (pre @ (rc, arg) # post)
      \<lparr>op_debug = False, op_conf_filename = CS_MAIN_CONF, op_log_file = []\<rparr> ?w2 = Throw ?e w3" "opts_frame ?w2 w3"
    using option_loop_ends [OF assms(4,5)] by blast
  have fr: "sw_ev w3 = e1" "mw_this w3 = ?m" "ld_disk w3 = ld_disk ?w" "sw_threads w3 = sw_threads ?w" "mw_plugin w3 = mw_plugin ?w"
    using w3(2) by (auto simp: opts_frame_def)
  let ?x1 = "x\<lparr>xp_client := ?w1\<rparr>"
  have log: "fresh (\<lambda>a w. bindO (log_op (csLog_ctor_stdout a) w) (\<lambda>_ w.
       Return () (w\<lparr>mw_log_stdout := Some a, mw_logger := SetMask (Level_Info OR Level_Warning OR Level_Error) (mw_logger w)\<rparr>))) ?w1 =
      Return () ?w2"
    using g by (simp add: fresh_def log_op_def zoomO_def)
  have body: "csMain_body env argv0 (pre @ (rc, arg) # post) ?x1 = Throw ?e (x\<lparr>xp_client := w3\<rparr>)"
    using log w3(1) by (simp add: csMain_body_def main_op_def zoomO_def)
  have ctor: "csMain_ctor env argv0 (pre @ (rc, arg) # post) x = Throw ?e (x\<lparr>xp_client := w3\<lparr>sw_ev := e2\<rparr>\<rparr>)"
    using e(1,2) body fr(1,2) by (simp add: csMain_ctor_def main_op_def zoomO_def ev_op_def)
  show ?thesis using ctor fr e(3)
    by (simp add: main_def csInvalidOptionException_def csUsageException_def exit_code_def report_exit_def)
qed

section \<open>Instances\<close>

text \<open>
  The daemon is client 0; plugin \<open>FileWatch\<close> is client 1 and listens to \<open>Example\<close>, whose object is
  at address 5 and which has sent the event at address 0.
\<close>

definition example_event :: csEvent where
  "example_event = (csEventPlugin_ctor ''changed'')\<lparr>ev_src := ClientAt 5\<rparr>"

definition busy :: main_world where
  "busy = idle_main\<lparr>sw_ev := two_clients example_event (user_event 1),
     ld_objs := [1 \<mapsto> plugin_named ''FileWatch'', 5 \<mapsto> plugin_named ''Example''],
     mw_plugin := [(''FileWatch'', \<lparr>ld_so_name = ''libfw.so'', ld_handle = 1, ld_plugin = 1\<rparr>)],
     mw_filter := [(1, [''other'', ''EXAMPLE'', ''example''])]\<rparr>"

lemma busy_simps [simp]:
  "sw_ev busy = two_clients example_event (user_event 1)" "mw_this busy = 0"
  "ld_objs busy = [1 \<mapsto> plugin_named ''FileWatch'', 5 \<mapsto> plugin_named ''Example'']"
  "mw_filter busy = [(1, [''other'', ''EXAMPLE'', ''example''])]" "resolved busy [(Suc 0, names)]"
  by (simp_all add: busy_def resolved_def plugin_named_def)

theorem plugin_event_delivered_witness:
  "\<exists>v q. DispatchPluginEvent 0 busy = Return () (busy\<lparr>sw_ev := v\<rparr>) \<and> abs_queue v 1 = Some [q] \<and>
    csEventPlugin_GetValue q ''event_source'' = Some ''Example''"
proof -
  have e: "ev_class example_event = EvPlugin [''event_type'' \<mapsto> ''changed'']" "ev_src example_event = ClientAt 5"
    by (simp_all add: example_event_def csEventPlugin_ctor_def)
  have "listeners ''Example'' [(1, [''other'', ''EXAMPLE'', ''example''])] = {1}"
    by (auto simp: listeners_def matched_def strcasecmp_eq_def c_str_def tolower_def)
  then obtain v where "DispatchPluginEvent 0 busy = Return () (busy\<lparr>sw_ev := v\<rparr>)"
    "abs_queue v = forwarded (example_event\<lparr>ev_class := EvPlugin [''event_type'' \<mapsto> ''changed'', ''event_source'' \<mapsto> ''Example'']\<rparr>)
      0 {1} (sw_ev busy)"
    using plugin_event_delivered [of busy 0 example_event "[''event_type'' \<mapsto> ''changed'']" 5 "plugin_named ''Example''"] e
    by (auto simp: plugin_named_def omap_ok_def)
  then show ?thesis by (auto simp: forwarded_def push_spec_def csEventPlugin_GetValue_def)
qed

theorem signal_stops_daemon_witness:
  "\<exists>w' w''. csSignalHandler_Entry (\<lambda>_. ''error'') (\<lambda>_. ''Terminated'') 9 [(Inr SIGTERM, [])] busy = Return (Some ()) w' \<and>
    Run [\<lparr>wi_now = \<lparr>tv_sec = 0, tv_nsec = 0\<rparr>, wi_waits = (\<lambda>_. [])\<rparr>] w' = Return (Some ()) w''"
  using signal_stops_daemon [of busy SIGTERM "\<lambda>_. ''error''" "\<lambda>_. ''Terminated''" 9 "[]" "[]"
      "\<lparr>wi_now = \<lparr>tv_sec = 0, tv_nsec = 0\<rparr>, wi_waits = (\<lambda>_. [])\<rparr>" "[]"] by auto

definition with_state :: main_world where
  "with_state = idle_main\<lparr>ld_disk := small_disk (enc_state [note_var] @ [1, 2, 3])\<rparr>"


theorem dump_creates_file_witness:
  "\<exists>w'. DumpStateFile (sample_env [] None) ''/tmp/x'' idle_main = Return () w' \<and>
    dk_files (ld_disk w') ''/tmp/x'' = Some (put_u64 0)"
  using dump_creates_file [of idle_main "sample_env [] None" "''/tmp/x''"]
  by (auto simp: threads_work_def good_pthreads_def c_str_def idle_main_def)

theorem command_line_exit_witness:
  "\<exists>x'. main (sample_env [] None) ''clearsyncd'' [(CHR ''d'', []), (CHR ''?'', [])] [] (conf_start idle_main) = Return (Some 1) x' \<and>
    event_client (sw_ev (xp_client x')) = []"
  using command_line_exit [of "conf_start idle_main" "[(CHR ''d'', [])]" "CHR ''?''" "sample_env [] None" "''clearsyncd''" "[]" "[]" "[]"]
  by (auto simp: log_init_def csEXIT_INVALID_OPTION_def)

end
