(* ===== verification/Cs_Example.thy ===== *)
theory Cs_Example
  imports Cs_Main_Properties
begin

text \<open>
  The example plugin (\<open>plugin/csplugin-example.cpp\<close>): its configuration, its thread with a
  repeating timer, and the counter that it keeps in its state file.

  The plugin object is at address \<open>a\<close> of the daemon's state; its member \<open>conf\<close> is an argument,
  as the parser it owns. The thread runs alone here: what others do while it waits is part of
  the input of the wait.
\<close>

section \<open>Configuration\<close>

definition example_ParseElementOpen :: "tag_stack \<Rightarrow> csXmlTag \<Rightarrow> main_world \<Rightarrow> (main_world, handler_result) outcome" where
  "example_ParseElementOpen stk tag w = Return (HandlerOk tag) w"

definition example_ParseElementClose :: "tag_stack \<Rightarrow> csXmlTag \<Rightarrow> main_world \<Rightarrow> (main_world, handler_result) outcome" where
  "example_ParseElementClose stk tag w =
     (if tag_is tag ''test-tag'' then value_tag ''plugin'' stk tag w (\<lambda>encl.
        Return (HandlerOk tag) (sys_log Level_Debug ''%s: %s'' [ArgS (c_str (xt_name tag)), ArgS (c_str (xt_text tag))] w))
      else Return (HandlerOk tag) w)"

definition example_handlers :: "main_world xml_handlers" where
  "example_handlers = \<lparr>ParseElementOpen = example_ParseElementOpen, ParseElementClose = example_ParseElementClose\<rparr>"

definition example_Reload :: "main_env \<Rightarrow> conf_world \<Rightarrow> (conf_world, unit) outcome" where
  "example_Reload env x = bindO (csConf_Reload (me_page env) x) (\<lambda>_ x.
     Parse example_handlers (me_expat env) (me_fopen env) (me_page env) None x)"

text \<open>The result is the new value of \<open>conf\<close>; it is set before the file is read.\<close>

definition example_SetConfigurationFile ::
  "main_env \<Rightarrow> string \<Rightarrow> conf_world option \<Rightarrow> main_world \<Rightarrow> (main_world, conf_world option) outcome" where
  "example_SetConfigurationFile env conf_filename conf w =
     (if conf \<noteq> None then Return conf w
      else case bindO (csXmlParser_ctor (me_page env) w) (\<lambda>_ x. example_Reload env (SetConf (c_str conf_filename) x)) of
          Return _ x \<Rightarrow> Return (Some x) (xp_client x)
        | Throw e x \<Rightarrow> Throw e (xp_client x)
        | Block x \<Rightarrow> Block (xp_client x)
        | Undef \<Rightarrow> Undef)"

section \<open>Construction and destruction\<close>

definition csPluginExample_ctor :: "main_env \<Rightarrow> string \<Rightarrow> u64 \<Rightarrow> main_world \<Rightarrow> (main_world, nat option) outcome" where
  "csPluginExample_ctor env name stack_size w =
     bindO (csPluginInit (me_pthread env) name (mw_this w) stack_size w) (\<lambda>a w.
     Return a (sys_log Level_Debug ''%s: Initialized.'' [ArgS (c_str name)] w))"

text \<open>The destructor of the derived class; \<open>csPlugin_delete\<close> is that of the base classes.\<close>

definition csPluginExample_dtor :: "main_env \<Rightarrow> nat \<Rightarrow> conf_world option \<Rightarrow> main_world \<Rightarrow> (main_world, unit) outcome" where
  "csPluginExample_dtor env a conf w =
     bindO (csThread_Join (me_pthread env) a w) (\<lambda>_ w. case conf of None \<Rightarrow> Return () w
     | Some x \<Rightarrow> (case csConf_dtor (me_page env) (x\<lparr>xp_client := w\<rparr>) of
           Return _ x \<Rightarrow> Return () (xp_client x) | Throw e x \<Rightarrow> Throw e (xp_client x)
         | Block x \<Rightarrow> Block (xp_client x) | Undef \<Rightarrow> Undef))"

section \<open>The thread\<close>

text \<open>
  One event. The timer event is cast to its class and its timer is read. \<open>delete\<close> does not ask
  whether the event is persistent.
\<close>

definition example_event_turn :: "nat \<Rightarrow> string \<Rightarrow> nat \<Rightarrow> main_world \<Rightarrow> (main_world, bool) outcome" where
  "example_event_turn a name event w =
     bindO (ev_op (ev_read event) w) (\<lambda>e w.
     bindO (if ev_id e = csEVENT_QUIT then Return False (sys_log Level_Info ''%s: Terminated.'' [ArgS (c_str name)] w)
            else if ev_id e = csEVENT_TIMER then (case ev_class e of
                EvTimer t \<Rightarrow> bindO (timer_op (tm_read t) w) (\<lambda>x w. Return True
                  (sys_log Level_Debug ''%s: Tick: %lu'' [ArgS (c_str name), ArgI (uint (tm_id x))] w))
              | _ \<Rightarrow> Undef)
            else Return True w) (\<lambda>run w.
     bindO (ev_op (ev_delete event) w) (\<lambda>_ w. Return run w)))"

text \<open>The loop over the waits still to come; \<open>None\<close> while it waits, else the final counter.\<close>

fun example_loop :: "nat \<Rightarrow> string \<Rightarrow> wait_input list \<Rightarrow> u64 \<Rightarrow> main_world \<Rightarrow> (main_world, u64 option) outcome" where
  "example_loop a name [] loops w = Return None w"
| "example_loop a name (i # is) loops w =
     bindO (ev_op (EventPopWait a 0 (wi_now i) (wi_waits i)) w) (\<lambda>event w. case event of None \<Rightarrow> Undef
       | Some event \<Rightarrow> bindO (example_event_turn a name event w) (\<lambda>run w.
           if run then example_loop a name is (loops + 1) w else Return (Some (loops + 1)) w))"

definition example_loops :: "csPlugin \<Rightarrow> u64" where
  "example_loops p = (case GetStateVar_ulong p ''loops'' of None \<Rightarrow> 0 | Some n \<Rightarrow> n)"

text \<open>\<open>None\<close> is a thread that still waits.\<close>

definition csPluginExample_Entry :: "nat \<Rightarrow> wait_input list \<Rightarrow> main_world \<Rightarrow> (main_world, unit option) outcome" where
  "csPluginExample_Entry a inputs w = (case ld_objs w a of None \<Rightarrow> Undef | Some p \<Rightarrow>
     let name = pl_name p; loops = example_loops p;
         w = sys_log Level_Info ''%s: Running.'' [ArgS (c_str name)] w;
         w = sys_log Level_Debug ''%s: loops: %lu'' [ArgS (c_str name), ArgI (uint loops)] w
     in fresh (\<lambda>t w.
        bindO (timer_op (csTimer_ctor t 500 3 3 (ClientAt a)) w) (\<lambda>_ w.
        bindO (timer_op (csTimer_Start t) w) (\<lambda>_ w.
        bindO (example_loop a name inputs loops w) (\<lambda>r w. case r of None \<Rightarrow> Return None w
        | Some loops \<Rightarrow>
          bindO (timer_op (csTimer_dtor t) w) (\<lambda>_ w.
          bindO (plugin_op a (\<lambda>p. Return () (SetStateVar_ulong ''loops'' loops p)) w) (\<lambda>_ w.
          Return (Some ()) (sys_log Level_Debug ''%s: loops: %lu'' [ArgS (c_str name), ArgI (uint loops)] w))))))) w)"

section \<open>The counter\<close>

lemma ev_delete_plain:
  assumes "ev_heap v b = Some e" "\<not> IsPersistent e"
  shows "ev_delete b v = Return () (v\<lparr>ev_heap := kill b (ev_heap v)\<rparr>)"
  using assms by (simp add: ev_delete_def kill_def)

text \<open>An event that the loop only counts.\<close>

definition counted :: "csEvent \<Rightarrow> bool" where
  "counted e \<longleftrightarrow> \<not> IsSticky e \<and> \<not> IsPersistent e \<and> ev_id e \<noteq> csEVENT_QUIT \<and> ev_id e \<noteq> csEVENT_TIMER"

lemma pop_counted:
  assumes "ev_wf v" "abs_queue v c = Some (q # r)" "counted q"
  shows "\<exists>b v'. EventPopWait c ms now waits v = Return (Some b) v' \<and> ev_wf v' \<and> ev_heap v' b = Some q \<and>
    b \<notin> queued v' \<and> abs_queue v' c = Some r"
proof -
  obtain ob where ob: "ev_clients v c = Some ob" using abs_queue_client [OF assms(2)] by blast
  obtain y v' where y: "EventPop c v = Return y v'" "ev_wf v'" "abs_queue v' = (abs_queue v)(c \<mapsto> r)"
    "map_option (\<lambda>b. the (ev_heap v' b)) y = Some q" "set_option y \<subseteq> loose v'"
    using EventPop_spec [OF assms(1) ob assms(2)] assms(3) by (auto simp: counted_def pop_spec_def)
  then obtain b where b: "y = Some b" "the (ev_heap v' b) = q" by auto
  then have "ev_heap v' b = Some q" "b \<notin> queued v'" using y(5) by (auto simp: loose_def)
  then show ?thesis using y b by (auto simp: EventPopWait_def popwait_loop_event)
qed

definition ex_frame :: "main_world \<Rightarrow> main_world \<Rightarrow> bool" where
  "ex_frame w w' \<longleftrightarrow> (\<exists>v l. w' = w\<lparr>sw_ev := v, sw_log := l\<rparr>)"

lemma ex_frame_intro: "ex_frame (w\<lparr>sw_ev := v\<rparr>) w' \<Longrightarrow> ex_frame w w'"
  by (auto simp: ex_frame_def)

lemma ex_frame_log: "ex_frame w (w\<lparr>sw_log := l, sw_ev := v\<rparr>)"
  unfolding ex_frame_def by (intro exI [of _ v] exI [of _ l]) (cases w, simp)

lemma mw_timer_frame [simp]:
  "mw_timer (w\<lparr>sw_ev := e\<rparr>) = mw_timer w" "mw_timer (w\<lparr>sw_log := l\<rparr>) = mw_timer w"
  "mw_timer (w\<lparr>sw_threads := t\<rparr>) = mw_timer w" "mw_timer (w\<lparr>sw_joined := j\<rparr>) = mw_timer w"
  "mw_timer (w\<lparr>ld_next := n\<rparr>) = mw_timer w" "mw_timer (w\<lparr>ld_objs := os\<rparr>) = mw_timer w"
  "mw_timer (w\<lparr>ld_disk := d\<rparr>) = mw_timer w"
  by (cases w, simp)+

lemma mw_timer_log [simp]: "mw_timer (sys_log l f x w) = mw_timer w"
  by (simp add: sys_log_def)

lemma example_loop_counts:
  assumes "ev_wf (sw_ev w)" "abs_queue (sw_ev w) a = Some (qs @ q # r)" "\<forall>e \<in> set qs. counted e"
    "ev_id q = csEVENT_QUIT" "clonable q" "length qs < length inputs"
  shows "\<exists>w'. example_loop a name inputs loops w = Return (Some (loops + of_nat (Suc (length qs)))) w' \<and> ex_frame w w'"
  using assms
proof (induction qs arbitrary: w inputs loops)
  case Nil
  then obtain i "is" where i: "inputs = i # is" by (cases inputs) auto
  obtain b v y where v: "EventPopWait a 0 (wi_now i) (wi_waits i) (sw_ev w) = Return (Some b) v" "ev_heap v b = Some y"
    "ev_id y = csEVENT_QUIT"
    using popwait_front [OF Nil.prems(1), of a q r 0 "wi_now i" "wi_waits i"] Nil.prems(2,4,5) by auto
  then show ?case using i
    by (auto simp: example_event_turn_def ev_op_def zoomO_def ev_read_def ev_delete_def sys_log_def ex_frame_log)
next
  case (Cons x qs)
  then obtain i "is" where i: "inputs = i # is" by (cases inputs) auto
  have x: "counted x" using Cons.prems(3) by simp
  obtain b v where v: "EventPopWait a 0 (wi_now i) (wi_waits i) (sw_ev w) = Return (Some b) v" "ev_wf v"
    "ev_heap v b = Some x" "b \<notin> queued v" "abs_queue v a = Some (qs @ q # r)"
    using pop_counted [OF Cons.prems(1) _ x, of a "qs @ q # r"] Cons.prems(2) by fastforce
  let ?v = "v\<lparr>ev_heap := kill b (ev_heap v)\<rparr>"
  have core: "ev_core v" using v(2) by (simp add: ev_wf_def)
  note k = kill_loose [OF core v(4)]
  have wf: "ev_wf ?v" using k(1) v(2) by (simp add: ev_wf_def)
  have turn: "example_event_turn a name b (w\<lparr>sw_ev := v\<rparr>) = Return True (w\<lparr>sw_ev := ?v\<rparr>)"
    using v(3) x ev_delete_plain [OF v(3)] by (simp add: example_event_turn_def ev_op_def zoomO_def ev_read_def counted_def)
  obtain w' where w': "example_loop a name is (loops + 1) (w\<lparr>sw_ev := ?v\<rparr>) =
      Return (Some (loops + 1 + of_nat (Suc (length qs)))) w'" "ex_frame (w\<lparr>sw_ev := ?v\<rparr>) w'"
    using Cons.IH [of "w\<lparr>sw_ev := ?v\<rparr>" "is" "loops + 1"] wf k(2) v(5) Cons.prems(3-6) i by auto
  have "example_loop a name inputs loops w = Return (Some (loops + 1 + of_nat (Suc (length qs)))) w'"
    using i v(1) turn w'(1) by (simp add: ev_op_Return)
  moreover have "ex_frame w w'" using w'(2) by (rule ex_frame_intro)
  ultimately show ?case by (auto simp: add.assoc)
qed

lemma timer_op_Return:
  "f (with_sys w (mw_timer w)) = Return r t \<Longrightarrow> timer_op f w = Return r (with_sys t (w\<lparr>mw_timer := t\<rparr>))"
  by (simp add: timer_op_def zoomO_def Let_def)

text \<open>What a call into the timer component leaves alone.\<close>

lemma with_sys_simps [simp]:
  "sw_ev (with_sys t w) = sw_ev t" "sw_threads (with_sys t w) = sw_threads t" "sw_log (with_sys t w) = sw_log t"
  "sw_joined (with_sys t w) = sw_joined t"
  by (simp_all add: with_sys_def)

lemma with_sys_timer [simp]:
  fixes t :: timer_world
  shows "tm_objs (with_sys w t) = tm_objs t" "timer_vector (with_sys w t) = timer_vector t"
    "vector_mutex (with_sys w t) = vector_mutex t" "tt_instance (with_sys w t) = tt_instance t"
  by (simp_all add: with_sys_def)

lemma with_sys_main [simp]:
  fixes w :: main_world
  shows "mw_timer (with_sys t w) = mw_timer w" "ld_objs (with_sys t w) = ld_objs w" "ld_disk (with_sys t w) = ld_disk w"
  by (simp_all add: with_sys_def)

text \<open>The timer thread exists and nobody holds its vector of timers.\<close>

definition timers_up :: "main_world \<Rightarrow> bool" where
  "timers_up w \<longleftrightarrow> tt_instance (mw_timer w) \<noteq> None \<and> vector_mutex (mw_timer w) = MutexFree"

lemma timer_started:
  assumes "timers_up w"
  shows "\<exists>w'. bindO (timer_op (csTimer_ctor t 500 3 3 (ClientAt a)) w) (\<lambda>_ w. timer_op (csTimer_Start t) w) = Return () w' \<and>
    sw_ev w' = sw_ev w \<and> ld_objs w' = ld_objs w \<and> ld_disk w' = ld_disk w \<and> timers_up w' \<and>
    timer_vector (mw_timer w') = timer_vector (mw_timer w) @ [t] \<and>
    tm_objs (mw_timer w') t = Some \<lparr>tm_running = True, tm_id = 500, tm_target = ClientAt a, tm_value = 3, tm_interval = 3, tm_mutex = MutexFree\<rparr>"
  using assms
  by (simp add: timer_op_def zoomO_def csTimer_ctor_def csTimer_Start_def tm_locked_def tm_lock_def tm_unlock_def tm_read_def
      tm_set_def AddTimer_def vector_lock_def vector_unlock_def mutex_lock_def mutex_unlock_def timer_push_def
      timers_up_def sys_log_def Let_def)

lemma timer_deleted:
  assumes "timers_up w" "tm_objs (mw_timer w) t = Some x" "tm_mutex x = MutexFree"
  shows "\<exists>w'. timer_op (csTimer_dtor t) w = Return () w' \<and> ld_objs w' = ld_objs w \<and> ld_disk w' = ld_disk w \<and>
    timer_vector (mw_timer w') = remove1 t (timer_vector (mw_timer w))"
  using assms
  by (simp add: timer_op_def zoomO_def csTimer_dtor_def csTimer_Stop_def tm_locked_def tm_lock_def tm_unlock_def tm_read_def
      tm_set_def RemoveTimer_def vector_lock_def vector_unlock_def mutex_lock_def mutex_unlock_def timer_erase_def
      erase_first_remove1 timers_up_def Let_def)


section \<open>Instances\<close>

definition two_waiting :: ev_world where
  "two_waiting = quiet\<lparr>ev_clients := (ev_clients quiet)(1 \<mapsto> idle_client\<lparr>event_queue := [1, 0]\<rparr>)\<rparr>"

lemma two_waiting_simps [simp]:
  "ev_wf two_waiting" "abs_queue two_waiting (Suc 0) = Some [user_event 1, quit_event]"
  by (auto simp: two_waiting_def two_clients_def idle_client_def ev_wf_def ev_core_def abs_queue_def
      critical_free_def critical_init_def split: if_splits)

definition example_running :: main_world where
  "example_running = idle_main\<lparr>sw_ev := two_waiting, ld_objs := [1 \<mapsto> small_plugin [loops_var] []],
     mw_timer := (mw_timer idle_main)\<lparr>vector_mutex := MutexFree, tt_instance := Some 3\<rparr>\<rparr>"


end
