(* ===== verification/Cs_Event_Types.thy ===== *)
theory Cs_Event_Types
  imports Cs_Example
begin

text \<open>
  The dynamic classes of events. The receivers of events cast them by their id:
  \<open>csMain::Run\<close> to \<open>csEventPlugin\<close>, \<open>csThreadNetlink::Entry\<close> to \<open>csEventNetlink\<close>, the example
  plugin to \<open>csEventTimer\<close>, each with an unchecked \<open>static_cast\<close>. Here: these casts are right
  as long as timer events are neither broadcast nor made sticky, since \<open>csEventTimer\<close> has no
  \<open>Clone\<close> of its own; and what happens to a timer event that is broadcast.

  The locale \<open>event_invariant\<close> has the operations of the event clients keep a property of
  all event objects, whatever they return or throw and whoever shares the objects.
\<close>

section \<open>Properties of all event objects\<close>

definition heap_all :: "(nat \<Rightarrow> csEvent \<Rightarrow> bool) \<Rightarrow> ev_world \<Rightarrow> bool" where
  "heap_all P w \<longleftrightarrow> (\<forall>a e. ev_heap w a = Some e \<longrightarrow> P a e)"

definition left_all :: "(nat \<Rightarrow> csEvent \<Rightarrow> bool) \<Rightarrow> (ev_world, 'a) outcome \<Rightarrow> bool" where
  "left_all P r \<longleftrightarrow> (\<forall>w. run_state r = Some w \<longrightarrow> heap_all P w)"

named_theorems keeps \<open>operations that keep a property of all events\<close>

lemma left_all_simps [simp]:
  "left_all P (Return a w) = heap_all P w" "left_all P (Throw e w) = heap_all P w"
  "left_all P (Block w) = heap_all P w" "left_all P Undef"
  by (simp_all add: left_all_def)

lemma left_all_bind:
  assumes "left_all P m" "\<And>a w. m = Return a w \<Longrightarrow> heap_all P w \<Longrightarrow> left_all P (f a w)"
  shows "left_all P (bindO m f)"
  using assms by (cases m) auto

lemma heap_all_same: "ev_heap w' = ev_heap w \<Longrightarrow> heap_all P w' = heap_all P w"
  by (simp add: heap_all_def)

lemma heap_all_frame [simp]:
  "heap_all P (w\<lparr>event_client_mutex := m\<rparr>) = heap_all P w"
  "heap_all P (w\<lparr>event_client := cs\<rparr>) = heap_all P w"
  "heap_all P (w\<lparr>ev_clients := cl\<rparr>) = heap_all P w"
  "heap_all P (w\<lparr>ev_critical := k\<rparr>) = heap_all P w"
  "heap_all P (set_queue c q w) = heap_all P w"
  "heap_all P (set_queue_mutex c m w) = heap_all P w"
  "heap_all P (log_missing d w) = heap_all P w"
  "heap_all P (event_client_push c w) = heap_all P w"
  "heap_all P (event_client_erase c w) = heap_all P w"
  by (auto intro!: heap_all_same simp: set_queue_def set_queue_mutex_def event_client_push_def
      event_client_erase_def)

lemma registry_lock_keeps [keeps]:
  "heap_all P w \<Longrightarrow> left_all P (mutex_lock event_client_mutex event_client_mutex_update w)"
  "heap_all P w \<Longrightarrow> left_all P (mutex_unlock event_client_mutex event_client_mutex_update w)"
  by (auto simp: mutex_lock_def mutex_unlock_def split: mutex.splits)

lemma critical_keeps [keeps]:
  assumes "heap_all P w"
  shows "left_all P (zoomO ev_critical ev_critical_update f w)"
  using assms by (auto simp: zoomO_def split: outcome.splits)

lemma queue_keeps [keeps]:
  "heap_all P w \<Longrightarrow> left_all P (ev_client c w)"
  "heap_all P w \<Longrightarrow> left_all P (queue_lock c w)"
  "heap_all P w \<Longrightarrow> left_all P (queue_unlock c w)"
  "heap_all P w \<Longrightarrow> left_all P (ev_read a w)"
  "heap_all P w \<Longrightarrow> left_all P (EventsEnable c on w)"
  by (auto simp: ev_client_def queue_lock_def queue_unlock_def ev_read_def EventsEnable_def
      split: option.splits mutex.splits)

lemma write_keeps:
  assumes "heap_all P w" "\<And>e. ev_heap w a = Some e \<Longrightarrow> P a (f e)"
  shows "left_all P (ev_write a f w)"
  using assms by (auto simp: ev_write_def heap_all_def split: option.splits)

lemma destroy_keeps [keeps]: "heap_all P w \<Longrightarrow> left_all P (EventDestroy a w)"
  by (auto simp: EventDestroy_def ev_read_def ev_delete_def heap_all_def split: option.splits)

lemma destroy_all_keeps [keeps]: "heap_all P w \<Longrightarrow> left_all P (destroy_all as w)"
  by (induction as arbitrary: w) (auto intro: left_all_bind destroy_keeps)

lemma erase_same_id_keeps [keeps]: "heap_all P w \<Longrightarrow> left_all P (erase_same_id i bs w)"
  by (induction bs arbitrary: w) (auto intro!: left_all_bind keeps)

lemma push_keeps:
  assumes "\<And>a e s. P a e \<Longrightarrow> P a (e\<lparr>ev_src := s\<rparr>)" "heap_all P w"
  shows "left_all P (EventPush c a src w)"
  using assms unfolding EventPush_def
  by (auto intro!: left_all_bind keeps write_keeps simp: heap_all_def [of P])

section \<open>Copies\<close>

definition copyable :: "csEvent \<Rightarrow> bool" where
  "copyable e \<longleftrightarrow> clone_event e = Some e"

lemma copyable_class: "copyable e \<longleftrightarrow> ev_class e = EvBase \<or> (\<exists>kv. ev_class e = EvPlugin kv)"
  by (cases "ev_class e"; cases e) (auto simp: copyable_def clone_event_def)

lemma copyable_frame [simp]:
  "copyable (e\<lparr>ev_src := s\<rparr>) = copyable e" "copyable (e\<lparr>ev_dst := d\<rparr>) = copyable e"
  by (simp_all add: copyable_class)

lemma clone_keeps:
  assumes "heap_all P w" "\<And>e. ev_heap w a = Some e \<Longrightarrow> copyable e \<and> P (ev_next w) e"
  shows "left_all P (Clone a w)"
  using assms
  by (auto simp: Clone_def ev_read_def ev_new_def heap_all_def copyable_def split: option.splits)

locale event_invariant =
  fixes good :: "csEvent \<Rightarrow> bool"
  assumes good_src: "good e \<Longrightarrow> good (e\<lparr>ev_src := s\<rparr>)"
    and good_dst: "good e \<Longrightarrow> good (e\<lparr>ev_dst := d\<rparr>)"
    and sticky_copyable: "good e \<Longrightarrow> IsSticky e \<Longrightarrow> copyable e"
begin

text \<open>The broadcast copies the one event at \<open>a\<close>, which stays copyable during the loop.\<close>

lemma broadcast_loop_keeps:
  assumes "heap_all (\<lambda>b e. good e \<and> (b = a \<longrightarrow> copyable e)) w"
  shows "left_all (\<lambda>b e. good e \<and> (b = a \<longrightarrow> copyable e)) (broadcast_loop this a is w)"
  using assms
proof (induction "is" arbitrary: w)
  case (Cons i "is")
  let ?P = "\<lambda>b e. good e \<and> (b = a \<longrightarrow> copyable e)"
  have copy: "left_all ?P (Clone a v)" if "heap_all ?P v" for v
    using that by (intro clone_keeps) (auto simp: heap_all_def)
  have push: "left_all ?P (EventPush i b s v)" if "heap_all ?P v" for b s v
    by (rule push_keeps [OF _ that]) (auto intro: good_src)
  have "left_all ?P (IsEventsEnabled i w)"
    using Cons.prems by (auto simp: IsEventsEnabled_def intro!: left_all_bind keeps)
  then show ?case using Cons.IH copy push by (auto intro!: left_all_bind)
qed simp

lemma dispatch_body_keeps:
  assumes "heap_all (\<lambda>_. good) v"
    "dst = BroadcastClient \<longrightarrow> heap_all (\<lambda>b e. good e \<and> (b = a \<longrightarrow> copyable e)) v"
  shows "left_all (\<lambda>_. good) (case dst of
          BroadcastClient \<Rightarrow> bindO (broadcast_loop this a (event_client v) v) (\<lambda>_ w. EventDestroy a w)
        | ClientAt c \<Rightarrow> if c \<in> set (event_client v) then EventPush c a (ClientAt this) v
            else EventDestroy a (log_missing dst v)
        | NullClient \<Rightarrow> EventDestroy a (log_missing dst v))"
proof (cases dst)
  case BroadcastClient
  let ?P = "\<lambda>b e. good e \<and> (b = a \<longrightarrow> copyable e)"
  have "left_all ?P (bindO (broadcast_loop this a (event_client v) v) (\<lambda>_ w. EventDestroy a w))"
    using BroadcastClient assms(2) by (intro left_all_bind broadcast_loop_keeps destroy_keeps) auto
  then show ?thesis using BroadcastClient by (auto simp: left_all_def heap_all_def)
next
  case (ClientAt c)
  have "left_all (\<lambda>_. good) (EventPush c a (ClientAt this) v)"
    by (rule push_keeps [OF _ assms(1)]) (rule good_src)
  then show ?thesis using ClientAt assms(1) by (simp add: destroy_keeps)
qed (use assms(1) in \<open>simp add: destroy_keeps\<close>)

lemma dispatch_keeps:
  assumes "heap_all (\<lambda>_. good) w" "dst = BroadcastClient \<longrightarrow> copyable (the (ev_heap w a))"
  shows "left_all (\<lambda>_. good) (EventDispatch this a dst w)"
  unfolding EventDispatch_def
proof (intro left_all_bind, goal_cases)
  case 1
  then show ?case using assms(1) by (rule registry_lock_keeps)
next
  case (2 x u)
  then show ?case by (intro write_keeps) (auto simp: heap_all_def intro: good_dst)
next
  case (3 x u y v)
  then have u: "ev_heap u = ev_heap w" by (auto simp: mutex_lock_def split: mutex.splits)
  obtain e where e: "ev_heap w a = Some e" "v = u\<lparr>ev_heap := (ev_heap w)(a \<mapsto> e\<lparr>ev_dst := dst\<rparr>)\<rparr>"
    using 3(3) u by (auto simp: ev_write_def split: option.splits)
  have "dst = BroadcastClient \<longrightarrow> (\<forall>x. ev_heap v a = Some x \<longrightarrow> copyable x)" using assms(2) e by auto
  then have "dst = BroadcastClient \<longrightarrow> heap_all (\<lambda>b e. good e \<and> (b = a \<longrightarrow> copyable e)) v"
    using 3(4) by (simp add: heap_all_def)
  then show ?case by (rule dispatch_body_keeps [OF 3(4)])
next
  case (4 x u y v z t)
  then show ?case by (intro registry_lock_keeps)
qed

lemma pop_keeps:
  assumes "heap_all (\<lambda>_. good) w"
  shows "left_all (\<lambda>_. good) (EventPop c w)"
proof -
  let ?Q = "\<lambda>_. good :: csEvent \<Rightarrow> bool"
  have "left_all ?Q (Clone a v)" if "heap_all ?Q v" "ev_heap v a = Some e" "IsSticky e" for a e v
    using that sticky_copyable by (intro clone_keeps) (auto simp: heap_all_def)
  then have "left_all ?Q (bindO (ev_read a v) (\<lambda>e w. if IsSticky e then bindO (Clone a w) (\<lambda>a' w. Return (Some a') w)
      else Return (Some a) (set_queue c q w)))" if "heap_all ?Q v" for a q v
    using that by (auto simp: ev_read_def intro!: left_all_bind split: option.splits)
  then show ?thesis using assms unfolding EventPop_def
    by (auto intro!: left_all_bind keeps split: list.splits)
qed

lemma client_keeps:
  assumes "heap_all (\<lambda>_. good) w"
  shows "left_all (\<lambda>_. good) (csEventClient_ctor c w)" "left_all (\<lambda>_. good) (csEventClient_dtor c w)"
  using assms unfolding csEventClient_ctor_def csEventClient_dtor_def
  by (auto intro!: left_all_bind keeps)

end
section \<open>Classes and ids\<close>

text \<open>
  What the constructors make. The base class is constructed with ids of its own: the sources
  use \<open>csEVENT_QUIT\<close> and \<open>csEVENT_RELOAD\<close>, plugins number theirs from \<open>csEVENT_USER\<close>.
\<close>

inductive constructed :: "csEvent \<Rightarrow> bool" where
  base_event: "i \<notin> {csEVENT_TIMER, csEVENT_PLUGIN, csEVENT_NETLINK} \<Longrightarrow> constructed (csEvent_ctor i f)"
| plugin_event: "constructed (csEventPlugin_ctor type)"
| timer_event: "constructed (csEventTimer_ctor t)"
| netlink_event: "constructed (csEventNetlink_ctor ty q)"

text \<open>The member functions that change an event; only events that can be copied are made sticky.\<close>

inductive setter :: "csEvent \<Rightarrow> csEvent \<Rightarrow> bool" where
  set_exclusive: "setter e (SetExclusive on e)"
| set_high_priority: "setter e (SetHighPriority on e)"
| set_persistent: "setter e (SetPersistent on e)"
| set_sticky: "on \<longrightarrow> copyable e \<Longrightarrow> setter e (SetSticky on e)"
| set_source: "setter e (e\<lparr>ev_src := s\<rparr>)"
| set_target: "setter e (e\<lparr>ev_dst := d\<rparr>)"
| set_user_data: "setter e (e\<lparr>ev_user_data := u\<rparr>)"
| set_value: "setter e (csEventPlugin_SetValue key v e)"
| set_netlink: "ev_class e = EvNetlink ty q sq rs \<Longrightarrow> setter e (e\<lparr>ev_class := EvNetlink ty' q sq' rs'\<rparr>)"

definition cast_ok :: "csEvent \<Rightarrow> bool" where
  "cast_ok e \<longleftrightarrow>
     (ev_id e = csEVENT_PLUGIN \<longleftrightarrow> (\<exists>kv. ev_class e = EvPlugin kv)) \<and>
     (ev_id e = csEVENT_TIMER \<longleftrightarrow> (\<exists>t. ev_class e = EvTimer t)) \<and>
     (ev_id e = csEVENT_NETLINK \<longleftrightarrow> (\<exists>ty q sq rs. ev_class e = EvNetlink ty q sq rs)) \<and>
     (\<forall>kv. ev_class e = EvPlugin kv \<longrightarrow> kv ''event_type'' \<noteq> None)"

definition class_ok :: "csEvent \<Rightarrow> bool" where
  "class_ok e \<longleftrightarrow> cast_ok e \<and> (IsSticky e \<longrightarrow> copyable e)"

interpretation casts: event_invariant class_ok
  by unfold_locales (auto simp: class_ok_def cast_ok_def)

lemma constructed_ok: "constructed e \<Longrightarrow> class_ok e"
  by (induction rule: constructed.induct)
    (auto simp: class_ok_def cast_ok_def copyable_class csEvent_ctor_def csEventPlugin_ctor_def
      csEventTimer_ctor_def csEventNetlink_ctor_def event_ids IsSticky_def Flag_None_def)

lemma class_ok_flags:
  "class_ok e \<Longrightarrow> bit f 2 = IsSticky e \<Longrightarrow> class_ok (e\<lparr>ev_flags := f\<rparr>)"
  by (simp add: class_ok_def cast_ok_def copyable_class cs_simps)

lemma setter_ok: "setter e e' \<Longrightarrow> class_ok e \<Longrightarrow> class_ok e'"
proof (induction rule: setter.induct)
  case (set_sticky on e)
  then show ?case
    by (simp add: class_ok_def cast_ok_def copyable_class cs_simps SetSticky_def event_flag_values bit_simps)
next
  case (set_value e key v)
  then show ?case
    by (cases "ev_class e") (auto simp: class_ok_def cast_ok_def copyable_class csEventPlugin_SetValue_def)
next
  case (set_exclusive e on)
  then show ?case by (auto simp: SetExclusive_def event_flag_values bit_simps cs_simps intro!: class_ok_flags)
next
  case (set_high_priority e on)
  then show ?case by (auto simp: SetHighPriority_def event_flag_values bit_simps cs_simps intro!: class_ok_flags)
next
  case (set_persistent e on)
  then show ?case by (auto simp: SetPersistent_def event_flag_values bit_simps cs_simps intro!: class_ok_flags)
qed (auto simp: class_ok_def cast_ok_def copyable_class cs_simps)

text \<open>
  A step is one call, by any thread and on any object, however it ends; timer and netlink
  events are not broadcast.
\<close>

inductive class_step :: "ev_world \<Rightarrow> ev_world \<Rightarrow> bool" where
  make: "constructed e \<Longrightarrow> run_state (ev_new e w) = Some w' \<Longrightarrow> class_step w w'"
| change: "ev_heap w a = Some e \<Longrightarrow> setter e (f e) \<Longrightarrow> run_state (ev_write a f w) = Some w' \<Longrightarrow> class_step w w'"
| dispatch: "dst = BroadcastClient \<longrightarrow> copyable (the (ev_heap w a)) \<Longrightarrow>
    run_state (EventDispatch this a dst w) = Some w' \<Longrightarrow> class_step w w'"
| pop: "run_state (EventPop c w) = Some w' \<Longrightarrow> class_step w w'"
| destroy: "run_state (EventDestroy a w) = Some w' \<Longrightarrow> class_step w w'"
| enable: "run_state (EventsEnable c on w) = Some w' \<Longrightarrow> class_step w w'"
| construct: "run_state (csEventClient_ctor c w) = Some w' \<Longrightarrow> class_step w w'"
| destruct: "run_state (csEventClient_dtor c w) = Some w' \<Longrightarrow> class_step w w'"

inductive class_reachable :: "ev_world \<Rightarrow> bool" where
  at_start: "class_reachable ev_init"
| after_step: "class_reachable w \<Longrightarrow> class_step w w' \<Longrightarrow> class_reachable w'"

lemma class_step_keeps:
  assumes "class_step w w'" "heap_all (\<lambda>_. class_ok) w"
  shows "heap_all (\<lambda>_. class_ok) w'"
  using assms
proof (induction rule: class_step.induct)
  case (make e w w')
  then show ?case using constructed_ok by (auto simp: ev_new_def heap_all_def split: if_splits)
next
  case (change w a e f w')
  then have "left_all (\<lambda>_. class_ok) (ev_write a f w)"
    using setter_ok by (intro write_keeps) (auto simp: heap_all_def)
  then show ?case using change.hyps(3) by (simp add: left_all_def)
next
  case (dispatch dst w a this w')
  then show ?case using casts.dispatch_keeps [of w dst a this] by (simp add: left_all_def)
next
  case (pop c w w')
  then show ?case using casts.pop_keeps [of w c] by (simp add: left_all_def)
next
  case (destroy a w w')
  then show ?case using destroy_keeps [of _ w a] by (simp add: left_all_def)
next
  case (enable c on w w')
  then show ?case using queue_keeps(5) [of _ w c on] by (simp add: left_all_def)
next
  case (construct c w w')
  then show ?case using casts.client_keeps(1) [of w c] by (simp add: left_all_def)
next
  case (destruct c w w')
  then show ?case using casts.client_keeps(2) [of w c] by (simp add: left_all_def)
qed

lemma class_reachable_ok: "class_reachable w \<Longrightarrow> heap_all (\<lambda>_. class_ok) w"
proof (induction rule: class_reachable.induct)
  case at_start
  then show ?case by (simp add: heap_all_def ev_init_def)
qed (rule class_step_keeps)

section \<open>Properties\<close>



text \<open>
  A timer event that is broadcast is sliced. Every enabled client receives an event with the id
  \<open>csEVENT_TIMER\<close> that is a plain \<open>csEvent\<close>; a client that casts it, as the example plugin does,
  reads a member that is not there.
\<close>

theorem timer_broadcast_slices:
  assumes "ev_wf w" "event_client w \<noteq> []" "ev_heap w a = Some e" "a \<notin> queued w"
    "ev_id e = csEVENT_TIMER" "ev_class e = EvTimer t" "enabled w c"
  shows "\<exists>w'. EventBroadcast this a w = Return () w' \<and>
    (\<exists>x \<in> set (the (abs_queue w' c)). ev_id x = csEVENT_TIMER \<and> ev_class x = EvBase) \<and>
    (\<forall>m b x p name. ev_heap (sw_ev m) b = Some x \<and> ev_id x = csEVENT_TIMER \<and> ev_class x = EvBase \<longrightarrow>
      example_event_turn p name b m = Undef)"
proof -
  let ?x = "e\<lparr>ev_class := EvBase, ev_dst := BroadcastClient, ev_src := ClientAt this\<rparr>"
  have "clone_event e = Some (e\<lparr>ev_class := EvBase\<rparr>)" using assms(6) by (simp add: clone_event_def)
  from EventBroadcast_spec [OF assms(1-4) this, of this]
  obtain w' where w': "EventBroadcast this a w = Return () w'"
    "abs_queue w' = broadcast_spec ?x (enabled w) (abs_queue w)" by auto
  have "?x \<in> set (push_spec ?x q)" for q by (simp add: push_spec_def Let_def)
  then have "?x \<in> set (the (abs_queue w' c))" using w'(2) assms(7) by (simp add: broadcast_spec_def)
  then have "\<exists>x \<in> set (the (abs_queue w' c)). ev_id x = csEVENT_TIMER \<and> ev_class x = EvBase"
    by (rule bexI [rotated]) (simp add: assms(5))
  moreover have "example_event_turn p name b m = Undef"
    if "ev_heap (sw_ev m) b = Some x" "ev_id x = csEVENT_TIMER" "ev_class x = EvBase" for m b x p name
    using that by (simp add: example_event_turn_def ev_op_def zoomO_def ev_read_def event_ids)
  ultimately show ?thesis using w'(1) by blast
qed

theorem timer_broadcast_slices_witness:
  "\<exists>w'. EventBroadcast 0 0 (two_clients (csEventTimer_ctor 9) (user_event 1)) = Return () w' \<and>
    (\<exists>x \<in> set (the (abs_queue w' 1)). ev_id x = csEVENT_TIMER \<and> ev_class x = EvBase)"
  using timer_broadcast_slices [of "two_clients (csEventTimer_ctor 9) (user_event 1)" 0 "csEventTimer_ctor 9" 9 1 0]
  by (auto simp: csEventTimer_ctor_def csEvent_ctor_def)

end
