(* ===== verification/Cs_Shutdown.thy ===== *)
theory Cs_Shutdown
  imports Cs_Event_Types "HOL-Library.Multiset"
begin

text \<open>
  Shutting the daemon down: \<open>csMain::~csMain\<close> with the destructors of all the objects that the
  daemon owns. \<open>running\<close> describes a daemon between start-up and shutdown; the destructor then
  returns, joins every thread once, saves the state of every plugin and leaves nothing behind.
\<close>

section \<open>Threads and clients\<close>

definition joined_ids :: "csThread \<Rightarrow> u64 list" where
  "joined_ids t = (if th_id t = invalid_id then [] else [th_id t])"

text \<open>The thread objects that can be joined, with ids of their own.\<close>

definition crew :: "nat set \<Rightarrow> 'b sys_world_scheme \<Rightarrow> bool" where
  "crew T w \<longleftrightarrow> (\<forall>a \<in> T. \<exists>t. sw_threads w a = Some t \<and> th_attr t \<noteq> None \<and>
       (th_id t \<noteq> invalid_id \<longrightarrow> th_id t \<notin> set (sw_joined w))) \<and>
     (\<forall>a \<in> T. \<forall>b \<in> T. a \<noteq> b \<longrightarrow> th_id (the (sw_threads w a)) = th_id (the (sw_threads w b)) \<longrightarrow>
       th_id (the (sw_threads w a)) = invalid_id)"

definition thread_ids :: "'b sys_world_scheme \<Rightarrow> nat \<Rightarrow> u64 list" where
  "thread_ids w a = joined_ids (the (sw_threads w a))"

text \<open>The state after the thread object at \<open>a\<close> was joined and destroyed.\<close>

definition retired :: "nat \<Rightarrow> ev_world \<Rightarrow> log_call list \<Rightarrow> 'b sys_world_scheme \<Rightarrow> 'b sys_world_scheme" where
  "retired a e ls w = w\<lparr>sw_ev := e, sw_threads := (sw_threads w)(a := None),
     sw_joined := sw_joined w @ thread_ids w a, sw_log := sw_log w @ ls\<rparr>"

definition client_left :: "nat \<Rightarrow> ev_world \<Rightarrow> ev_world \<Rightarrow> bool" where
  "client_left a v e \<longleftrightarrow> ev_wf e \<and> event_client e = remove1 a (event_client v) \<and>
     ev_clients e = (ev_clients v)(a := None)"

lemma join_eq:
  assumes "crew T w" "a \<in> T"
  obtains ls where "csThread_Join env a w = Return () (w\<lparr>sw_threads := (sw_threads w)(a \<mapsto>
      (the (sw_threads w a))\<lparr>th_attr := None\<rparr>), sw_joined := sw_joined w @ thread_ids w a, sw_log := sw_log w @ ls\<rparr>)"
proof -
  obtain t where t: "sw_threads w a = Some t" "th_attr t \<noteq> None"
    "th_id t \<noteq> invalid_id \<longrightarrow> th_id t \<notin> set (sw_joined w)" using assms by (auto simp: crew_def)
  let ?l1 = "if pt_attr_destroy env \<noteq> 0
    then [(Level_Error, ''pthread_attr_destroy: %s'', [ArgS (pt_strerror env (pt_attr_destroy env))])] else []"
  let ?l2 = "if th_id t \<noteq> invalid_id \<and> pt_join env (th_id t) \<noteq> 0
    then [(Level_Error, ''pthread_join: %s'', [ArgS (pt_strerror env (pt_join env (th_id t)))])] else []"
  have "csThread_Join env a w = Return () (w\<lparr>sw_threads := (sw_threads w)(a \<mapsto> t\<lparr>th_attr := None\<rparr>),
      sw_joined := sw_joined w @ thread_ids w a, sw_log := sw_log w @ (?l1 @ ?l2)\<rparr>)"
    using t by (cases w) (auto simp: csThread_Join_def set_thread_def sys_log_def thread_ids_def joined_ids_def)
  then show thesis using t(1) by (intro that [of "?l1 @ ?l2"]) simp
qed

lemma client_gone:
  assumes "ev_wf (sw_ev w)" "a \<in> dom (ev_clients (sw_ev w))"
  obtains e where "ev_op (csEventClient_dtor a) w = Return () (w\<lparr>sw_ev := e\<rparr>)" "client_left a (sw_ev w) e"
proof -
  obtain ob where "ev_clients (sw_ev w) a = Some ob" using assms(2) by blast
  from csEventClient_dtor_spec [OF assms(1) this]
  obtain e where "csEventClient_dtor a (sw_ev w) = Return () e" "client_left a (sw_ev w) e"
    by (auto simp: client_left_def)
  then show thesis using that [of e] by (simp add: ev_op_Return)
qed

lemma crew_retired:
  assumes "crew T w" "a \<in> T"
  shows "crew (T - {a}) (retired a e ls w)"
proof -
  have own: "th_id t \<notin> set (thread_ids w a)"
    if "b \<in> T - {a}" "sw_threads w b = Some t" "th_id t \<noteq> invalid_id" for b t
  proof -
    have "th_id (the (sw_threads w b)) = th_id (the (sw_threads w a)) \<longrightarrow> th_id (the (sw_threads w b)) = invalid_id"
      using assms that(1) unfolding crew_def by blast
    then show ?thesis using that(2,3) by (auto simp: thread_ids_def joined_ids_def)
  qed
  have "\<exists>t. sw_threads (retired a e ls w) b = Some t \<and> th_attr t \<noteq> None \<and>
      (th_id t \<noteq> invalid_id \<longrightarrow> th_id t \<notin> set (sw_joined (retired a e ls w)))" if b: "b \<in> T - {a}" for b
  proof -
    obtain t where "sw_threads w b = Some t" "th_attr t \<noteq> None"
      "th_id t \<noteq> invalid_id \<longrightarrow> th_id t \<notin> set (sw_joined w)" using assms(1) b unfolding crew_def by blast
    then show ?thesis using own [OF b] b by (auto simp: retired_def)
  qed
  moreover have "th_id (the (sw_threads (retired a e ls w) b)) = invalid_id"
    if "b \<in> T - {a}" "c \<in> T - {a}" "b \<noteq> c"
      "th_id (the (sw_threads (retired a e ls w) b)) = th_id (the (sw_threads (retired a e ls w) c))" for b c
  proof -
    have "sw_threads (retired a e ls w) b = sw_threads w b" "sw_threads (retired a e ls w) c = sw_threads w c"
      using that(1,2) by (simp_all add: retired_def)
    then show ?thesis using that assms(1) unfolding crew_def by (metis DiffD1)
  qed
  ultimately show ?thesis unfolding crew_def by blast
qed

lemma crew_cong:
  assumes "sw_threads w' = sw_threads w" "sw_joined w' = sw_joined w"
  shows "crew T w' = crew T w"
  using assms by (simp add: crew_def)

section \<open>Plugins\<close>

text \<open>
  The hypothesis on the destructor of a plugin's own class, which the sources do not have: it
  joins the thread of the plugin, as that of the example does, and has no other effect on the
  state of the daemon.
\<close>

definition dtor_joins :: "main_env \<Rightarrow> bool" where
  "dtor_joins env \<longleftrightarrow> (\<forall>a w. me_plugin_dtor env a w = csThread_Join (me_pthread env) a w)"

text \<open>What the destructor of a plugin writes to the disk.\<close>

definition saved :: "csPlugin \<Rightarrow> disk \<Rightarrow> disk" where
  "saved p d = pl_disk (SaveState (p\<lparr>pl_disk := d, pl_log := []\<rparr>))"

definition client_set :: "'b sys_world_scheme \<Rightarrow> nat set" where
  "client_set w = dom (ev_clients (sw_ev w))"

lemma plugin_gone:
  assumes "dtor_joins env" "crew T w" "a \<in> T" "ev_wf (sw_ev w)" "a \<in> client_set w" "ld_objs w a = Some p"
  obtains e ls where
    "bindO (me_plugin_dtor env a w) (\<lambda>_ w. csPlugin_delete a w) = Return () (retired a e ls
      (w\<lparr>ld_objs := (ld_objs w)(a := None), ld_disk := saved p (ld_disk w)\<rparr>))"
    "client_left a (sw_ev w) e"
proof -
  obtain l1 where j: "csThread_Join (me_pthread env) a w = Return () (w\<lparr>sw_threads := (sw_threads w)(a \<mapsto>
      (the (sw_threads w a))\<lparr>th_attr := None\<rparr>), sw_joined := sw_joined w @ thread_ids w a, sw_log := sw_log w @ l1\<rparr>)"
    using join_eq [OF assms(2,3)] by blast
  let ?w1 = "w\<lparr>sw_threads := (sw_threads w)(a \<mapsto> (the (sw_threads w a))\<lparr>th_attr := None\<rparr>),
    sw_joined := sw_joined w @ thread_ids w a, sw_log := sw_log w @ l1\<rparr>"
  let ?q = "csPlugin_dtor (p\<lparr>pl_disk := ld_disk w, pl_log := []\<rparr>)"
  have disk: "pl_disk (csPlugin_dtor (p\<lparr>pl_disk := d, pl_log := []\<rparr>)) = saved p d" for d
    by (simp add: csPlugin_dtor_def saved_def pl_say_def Let_def)
  let ?w2 = "?w1\<lparr>ld_objs := (ld_objs w)(a \<mapsto> ?q\<lparr>pl_log := []\<rparr>), ld_disk := pl_disk ?q, sw_log := (sw_log w @ l1) @ pl_log ?q\<rparr>"
  have op: "plugin_op a (\<lambda>p. Return () (csPlugin_dtor p)) ?w1 = Return () ?w2"
    using assms(6) by (simp add: plugin_op_def zoomO_def Let_def)
  obtain e where e: "ev_op (csEventClient_dtor a) ?w2 = Return () (?w2\<lparr>sw_ev := e\<rparr>)" "client_left a (sw_ev ?w2) e"
    using client_gone [of ?w2 a] assms(4,5) by (auto simp: client_set_def)
  have fin: "set_thread a None ((?w2\<lparr>sw_ev := e\<rparr>)\<lparr>ld_objs := (ld_objs (?w2\<lparr>sw_ev := e\<rparr>))(a := None)\<rparr>) =
      retired a e (l1 @ pl_log ?q) (w\<lparr>ld_objs := (ld_objs w)(a := None), ld_disk := saved p (ld_disk w)\<rparr>)"
    by (cases w) (simp add: set_thread_def retired_def thread_ids_def disk)
  show thesis
  proof (rule that [of e "l1 @ pl_log ?q"])
    show "bindO (me_plugin_dtor env a w) (\<lambda>_ w. csPlugin_delete a w) = Return () (retired a e (l1 @ pl_log ?q)
        (w\<lparr>ld_objs := (ld_objs w)(a := None), ld_disk := saved p (ld_disk w)\<rparr>))"
      unfolding fin [symmetric] using assms(1) by (simp only: dtor_joins_def j csPlugin_delete_def op e(1) bindO.simps)
    show "client_left a (sw_ev w) e" using e(2) by simp
  qed
qed

abbreviation plugin_at :: "string \<times> csPluginLoader \<Rightarrow> nat" where
  "plugin_at x \<equiv> ld_plugin (snd x)"

abbreviation addrs :: "(string \<times> csPluginLoader) list \<Rightarrow> nat set" where
  "addrs ps \<equiv> plugin_at ` set ps"

definition plugins_gone ::
  "(string \<times> csPluginLoader) list \<Rightarrow> ev_world \<Rightarrow> log_call list \<Rightarrow> main_world \<Rightarrow> main_world" where
  "plugins_gone ps e ls w = w\<lparr>sw_ev := e, sw_threads := (\<lambda>a. if a \<in> addrs ps then None else sw_threads w a),
     sw_joined := sw_joined w @ concat (map (\<lambda>x. thread_ids w (plugin_at x)) ps), sw_log := sw_log w @ ls,
     ld_open := fold (\<lambda>x. remove1 (ld_handle (snd x))) ps (ld_open w),
     ld_objs := (\<lambda>a. if a \<in> addrs ps then None else ld_objs w a),
     ld_disk := fold (\<lambda>x. saved (the (ld_objs w (plugin_at x)))) ps (ld_disk w)\<rparr>"

lemma plugins_gone_Cons:
  assumes "plugin_at x \<notin> addrs ps"
    "w1 = csPluginLoader_dtor (snd x) (retired (plugin_at x) e1 l1 (w\<lparr>ld_objs := (ld_objs w)(plugin_at x := None),
      ld_disk := saved (the (ld_objs w (plugin_at x))) (ld_disk w)\<rparr>))"
  shows "\<exists>l. plugins_gone ps e ls w1 = plugins_gone (x # ps) e l w"
proof -
  let ?a = "plugin_at x"
  let ?m = "(Level_Debug, ''Plugin dereferenced: %s'', [ArgS (c_str (ld_so_name (snd x)))])"
  have w1: "w1 = w\<lparr>sw_ev := e1, sw_threads := (sw_threads w)(?a := None), sw_joined := sw_joined w @ thread_ids w ?a,
      sw_log := sw_log w @ l1 @ [?m], ld_open := remove1 (ld_handle (snd x)) (ld_open w),
      ld_objs := (ld_objs w)(?a := None), ld_disk := saved (the (ld_objs w ?a)) (ld_disk w)\<rparr>"
    unfolding assms(2) by (cases w) (simp add: csPluginLoader_dtor_def retired_def sys_log_def thread_ids_def)
  have other: "plugin_at y \<noteq> ?a" if "y \<in> set ps" for y using assms(1) that by (metis image_eqI)
  have ids: "map (\<lambda>y. thread_ids w1 (plugin_at y)) ps = map (\<lambda>y. thread_ids w (plugin_at y)) ps"
    using other by (simp add: w1 thread_ids_def)
  have disk: "fold (\<lambda>y. saved (the (ld_objs w1 (plugin_at y)))) ps d =
      fold (\<lambda>y. saved (the (ld_objs w (plugin_at y)))) ps d" for d
    using other by (intro fold_cong) (simp_all add: w1)
  have maps: "(\<lambda>a. if a \<in> addrs ps then None else (f(?a := None)) a) = (\<lambda>a. if a \<in> addrs (x # ps) then None else f a)" for f
    by (auto simp: fun_eq_iff)
  have f: "sw_threads w1 = (sw_threads w)(?a := None)" "ld_objs w1 = (ld_objs w)(?a := None)" by (simp_all add: w1)
  have th: "(\<lambda>a. if a \<in> addrs ps then None else sw_threads w1 a) = (\<lambda>a. if a \<in> addrs (x # ps) then None else sw_threads w a)"
    unfolding f by (rule maps)
  have ob: "(\<lambda>a. if a \<in> addrs ps then None else ld_objs w1 a) = (\<lambda>a. if a \<in> addrs (x # ps) then None else ld_objs w a)"
    unfolding f by (rule maps)
  have "plugins_gone ps e ls w1 = plugins_gone (x # ps) e (l1 @ [?m] @ ls) w"
    unfolding plugins_gone_def ids disk th ob by (cases w) (simp add: w1)
  then show ?thesis by blast
qed

lemma delete_plugins_spec:
  assumes "ps = [] \<or> dtor_joins env" "crew T w" "ev_wf (sw_ev w)" "addrs ps \<subseteq> T" "addrs ps \<subseteq> client_set w"
    "distinct (map plugin_at ps)" "\<forall>x \<in> set ps. ld_objs w (plugin_at x) \<noteq> None"
  shows "\<exists>e ls. delete_plugins env ps w = Return () (plugins_gone ps e ls w) \<and> ev_wf e \<and>
    dom (ev_clients e) = client_set w - addrs ps \<and> crew (T - addrs ps) (plugins_gone ps e ls w)"
  using assms
proof (induction ps arbitrary: w T)
  case Nil
  have "plugins_gone [] (sw_ev w) [] w = w" by (cases w) (simp add: plugins_gone_def)
  then show ?case using Nil by (intro exI [of _ "sw_ev w"] exI [of _ "[]"]) (simp add: client_set_def)
next
  case (Cons x ps)
  let ?a = "plugin_at x"
  have dj: "dtor_joins env" using Cons.prems(1) by simp
  obtain p where p: "ld_objs w ?a = Some p" using Cons.prems(7) by auto
  obtain e1 l1 where d: "bindO (me_plugin_dtor env ?a w) (\<lambda>_ w. csPlugin_delete ?a w) = Return () (retired ?a e1 l1
      (w\<lparr>ld_objs := (ld_objs w)(?a := None), ld_disk := saved p (ld_disk w)\<rparr>))" "client_left ?a (sw_ev w) e1"
    using plugin_gone [OF dj Cons.prems(2) _ Cons.prems(3) _ p] Cons.prems(4,5) by auto
  define w1 where "w1 = csPluginLoader_dtor (snd x) (retired ?a e1 l1
      (w\<lparr>ld_objs := (ld_objs w)(?a := None), ld_disk := saved (the (ld_objs w ?a)) (ld_disk w)\<rparr>))"
  have step: "delete_plugins env (x # ps) w = delete_plugins env ps w1"
    using d(1) p by (cases x, cases "me_plugin_dtor env ?a w") (auto simp: w1_def split: outcome.splits)
  have new: "?a \<notin> addrs ps" using Cons.prems(6) by auto
  have f: "sw_ev w1 = e1" "ld_objs w1 = (ld_objs w)(?a := None)"
    by (simp_all add: w1_def csPluginLoader_dtor_def retired_def sys_log_def)
  have cs: "client_set w1 = client_set w - {?a}" "ev_wf (sw_ev w1)"
    using d(2) by (auto simp: client_set_def f client_left_def)
  have "crew (T - {?a}) (retired ?a e1 l1 w)" using Cons.prems(2,4) by (intro crew_retired) auto
  then have crew1: "crew (T - {?a}) w1"
    by (rule crew_cong [THEN iffD2, rotated 2])
      (simp_all add: w1_def csPluginLoader_dtor_def retired_def sys_log_def thread_ids_def)
  have objs: "\<forall>y \<in> set ps. ld_objs w1 (plugin_at y) \<noteq> None"
    using Cons.prems(7) new by (auto simp: f image_iff)
  have sub: "addrs ps \<subseteq> T - {?a}" "addrs ps \<subseteq> client_set w1" using Cons.prems(4,5) new unfolding cs(1) by (simp_all add: subset_Diff_insert)
  obtain e l where ih: "delete_plugins env ps w1 = Return () (plugins_gone ps e l w1)" "ev_wf e"
    "dom (ev_clients e) = client_set w1 - addrs ps" "crew (T - {?a} - addrs ps) (plugins_gone ps e l w1)"
    using Cons.IH [OF disjI2 [OF dj] crew1 cs(2) sub _ objs] Cons.prems(6) by auto
  obtain l' where "plugins_gone ps e l w1 = plugins_gone (x # ps) e l' w"
    using plugins_gone_Cons [OF new w1_def] by blast
  moreover have "T - addrs (x # ps) = T - {?a} - addrs ps" "client_set w - addrs (x # ps) = client_set w1 - addrs ps"
    using cs(1) by auto
  ultimately show ?case using ih step by (intro exI [of _ e] exI [of _ l']) simp
qed

section \<open>The threads of the daemon\<close>

text \<open>Joining a thread and leaving the registry, which every destructor of a thread class does.\<close>

lemma join_leave:
  assumes "crew T w" "a \<in> T" "ev_wf (sw_ev w)" "a \<in> client_set w"
  obtains w1 e ls where "csThread_Join env a w = Return () w1"
    "w1 = w\<lparr>sw_threads := sw_threads w1, sw_joined := sw_joined w @ thread_ids w a, sw_log := sw_log w @ ls\<rparr>"
    "(sw_threads w1)(a := None) = (sw_threads w)(a := None)"
    "\<And>v :: 'c sys_world_scheme. sw_ev v = sw_ev w1 \<Longrightarrow>
       ev_op (csEventClient_dtor a) v = Return () (v\<lparr>sw_ev := e\<rparr>)"
    "client_left a (sw_ev w) e"
proof -
  obtain ls where j: "csThread_Join env a w = Return () (w\<lparr>sw_threads := (sw_threads w)(a \<mapsto>
      (the (sw_threads w a))\<lparr>th_attr := None\<rparr>), sw_joined := sw_joined w @ thread_ids w a, sw_log := sw_log w @ ls\<rparr>)"
    using join_eq [OF assms(1,2)] by blast
  obtain e where e: "ev_op (csEventClient_dtor a) w = Return () (w\<lparr>sw_ev := e\<rparr>)" "client_left a (sw_ev w) e"
    using client_gone [OF assms(3)] assms(4) by (auto simp: client_set_def)
  have "csEventClient_dtor a (sw_ev w) = Return () e"
    using e(1) by (cases "csEventClient_dtor a (sw_ev w)"; cases w) (auto simp: ev_op_def zoomO_def)
  then show thesis using e(2) by (intro that [OF j]) (simp_all add: ev_op_Return)
qed

lemma retired_join:
  "u(a := None) = (sw_threads w)(a := None) \<Longrightarrow> set_thread a None (w\<lparr>sw_threads := u,
     sw_joined := sw_joined w @ thread_ids w a, sw_log := sw_log w @ ls, sw_ev := e\<rparr>) = retired a e ls w"
  by (cases w) (simp add: set_thread_def retired_def thread_ids_def)

lemma signal_handler_gone:
  assumes "crew T w" "a \<in> T" "ev_wf (sw_ev w)" "a \<in> client_set w"
  obtains e ls where "csSignalHandler_dtor env a w = Return () (retired a e ls
      (w\<lparr>mw_killed := mw_killed w @ [th_id (the (sw_threads w a))]\<rparr>))" "client_left a (sw_ev w) e"
proof -
  let ?w = "w\<lparr>mw_killed := mw_killed w @ [th_id (the (sw_threads w a))]\<rparr>"
  obtain t where t: "sw_threads w a = Some t" using assms(1,2) unfolding crew_def by blast
  have "crew T ?w" using assms(1) by (simp add: crew_def)
  then obtain w1 e ls where j: "csThread_Join (me_pthread env) a ?w = Return () w1"
    "w1 = ?w\<lparr>sw_threads := sw_threads w1, sw_joined := sw_joined ?w @ thread_ids ?w a, sw_log := sw_log ?w @ ls\<rparr>"
    "(sw_threads w1)(a := None) = (sw_threads ?w)(a := None)"
    "\<And>v :: main_world. sw_ev v = sw_ev w1 \<Longrightarrow> ev_op (csEventClient_dtor a) v = Return () (v\<lparr>sw_ev := e\<rparr>)"
    "client_left a (sw_ev ?w) e"
    by (rule join_leave [of T ?w a "me_pthread env"]) (use assms in \<open>auto simp: client_set_def\<close>)
  have "set_thread a None (w1\<lparr>sw_ev := e\<rparr>) = retired a e ls ?w"
    by (subst j(2)) (rule retired_join [OF j(3)])
  then show thesis using that [of e ls] t j(1,4,5) by (simp add: csSignalHandler_dtor_def)
qed

lemma thread_timer_gone:
  assumes "crew T w" "a \<in> T" "ev_wf (sw_ev w)" "a \<in> client_set w"
    "tt_objs (mw_timer w) a = Some ob" "tt_instance (mw_timer w) = Some a"
  obtains e ls v where "timer_op (csThreadTimer_dtor (me_pthread env) a) w = Return () (retired a e ls (w\<lparr>mw_timer := v\<rparr>))"
    "client_left a (sw_ev w) e" "tt_objs v = (tt_objs (mw_timer w))(a := None)"
    "tt_kernel v = (tt_kernel (mw_timer w))(tt_timer_id ob := None)" "vector_mutex v = MutexNull"
proof -
  let ?w = "with_sys w (mw_timer w)"
  have "crew T ?w" using assms(1) by (simp add: crew_def)
  then obtain w1 e ls where j: "csThread_Join (me_pthread env) a ?w = Return () w1"
    "w1 = ?w\<lparr>sw_threads := sw_threads w1, sw_joined := sw_joined ?w @ thread_ids ?w a, sw_log := sw_log ?w @ ls\<rparr>"
    "(sw_threads w1)(a := None) = (sw_threads ?w)(a := None)"
    "\<And>v :: timer_world. sw_ev v = sw_ev w1 \<Longrightarrow> ev_op (csEventClient_dtor a) v = Return () (v\<lparr>sw_ev := e\<rparr>)"
    "client_left a (sw_ev ?w) e"
    by (rule join_leave [of T ?w a "me_pthread env"]) (use assms in \<open>auto simp: client_set_def\<close>)
  let ?v = "retired a e ls (?w\<lparr>tt_kernel := (tt_kernel (mw_timer w))(tt_timer_id ob := None), vector_mutex := MutexNull,
    tt_objs := (tt_objs (mw_timer w))(a := None)\<rparr>)"
  have w1: "tt_instance w1 = Some a" "tt_kernel w1 = tt_kernel (mw_timer w)" "tt_objs w1 = tt_objs (mw_timer w)"
    by (subst j(2); simp add: assms(6) with_sys_def)+
  let ?w2 = "w1\<lparr>tt_kernel := (tt_kernel w1)(tt_timer_id ob := None), vector_mutex := MutexNull\<rparr>"
  have ev: "ev_op (csEventClient_dtor a) ?w2 = Return () (?w2\<lparr>sw_ev := e\<rparr>)" by (rule j(4)) simp
  have "set_thread a None ((?w2\<lparr>sw_ev := e\<rparr>)\<lparr>tt_objs := (tt_objs (?w2\<lparr>sw_ev := e\<rparr>))(a := None)\<rparr>) = ?v"
    by (simp only: w1, subst j(2), rule timer_world.equality) (simp_all add: set_thread_def retired_def j(3) thread_ids_def w1)
  then have "csThreadTimer_dtor (me_pthread env) a ?w = Return () ?v"
    using assms(5) j(1) w1(1) ev by (simp add: csThreadTimer_dtor_def with_sys_def)
  from timer_op_Return [where f = "csThreadTimer_dtor (me_pthread env) a", OF this]
  have "timer_op (csThreadTimer_dtor (me_pthread env) a) w = Return () (retired a e ls (w\<lparr>mw_timer := ?v\<rparr>))"
    by (cases w) (simp add: retired_def with_sys_def thread_ids_def)
  then show thesis by (rule that) (use j(5) in \<open>simp_all add: retired_def\<close>)
qed

lemma thread_netlink_gone:
  assumes "crew T w" "a \<in> T" "ev_wf (sw_ev w)" "a \<in> client_set w"
    "nt_objs (mw_netlink w) a = Some ob" "nt_instance (mw_netlink w) = Some a" "nt_fd ob \<noteq> -1"
  obtains e ls v where "netlink_op (csThreadNetlink_dtor (me_pthread env) a) w = Return () (retired a e ls (w\<lparr>mw_netlink := v\<rparr>))"
    "client_left a (sw_ev w) e" "nt_objs v = (nt_objs (mw_netlink w))(a := None)"
    "nt_open v = remove1 (nt_fd ob) (nt_open (mw_netlink w))"
proof -
  let ?w = "with_sys w (mw_netlink w)"
  have "crew T ?w" using assms(1) by (simp add: crew_def)
  then obtain w1 e ls where j: "csThread_Join (me_pthread env) a ?w = Return () w1"
    "w1 = ?w\<lparr>sw_threads := sw_threads w1, sw_joined := sw_joined ?w @ thread_ids ?w a, sw_log := sw_log ?w @ ls\<rparr>"
    "(sw_threads w1)(a := None) = (sw_threads ?w)(a := None)"
    "\<And>v :: netlink_world. sw_ev v = sw_ev w1 \<Longrightarrow> ev_op (csEventClient_dtor a) v = Return () (v\<lparr>sw_ev := e\<rparr>)"
    "client_left a (sw_ev ?w) e"
    by (rule join_leave [of T ?w a "me_pthread env"]) (use assms in \<open>auto simp: client_set_def\<close>)
  let ?v = "retired a e ls (?w\<lparr>nt_open := remove1 (nt_fd ob) (nt_open (mw_netlink w)),
    nt_objs := (nt_objs (mw_netlink w))(a := None)\<rparr>)"
  have w1: "nt_instance w1 = Some a" "nt_open w1 = nt_open (mw_netlink w)" "nt_objs w1 = nt_objs (mw_netlink w)"
    by (subst j(2); simp add: assms(6) with_sys_def)+
  let ?w2 = "w1\<lparr>nt_open := remove1 (nt_fd ob) (nt_open w1)\<rparr>"
  have ev: "ev_op (csEventClient_dtor a) ?w2 = Return () (?w2\<lparr>sw_ev := e\<rparr>)" by (rule j(4)) simp
  have "set_thread a None ((?w2\<lparr>sw_ev := e\<rparr>)\<lparr>nt_objs := (nt_objs (?w2\<lparr>sw_ev := e\<rparr>))(a := None)\<rparr>) = ?v"
    by (simp only: w1, subst j(2), rule netlink_world.equality) (simp_all add: set_thread_def retired_def j(3) thread_ids_def w1)
  then have "csThreadNetlink_dtor (me_pthread env) a ?w = Return () ?v"
    using assms(5,7) j(1) w1(1,3) ev by (simp add: csThreadNetlink_dtor_def)
  then have "netlink_op (csThreadNetlink_dtor (me_pthread env) a) w = Return () (with_sys ?v (w\<lparr>mw_netlink := ?v\<rparr>))"
    by (simp add: netlink_op_def zoomO_def Let_def)
  then have "netlink_op (csThreadNetlink_dtor (me_pthread env) a) w = Return () (retired a e ls (w\<lparr>mw_netlink := ?v\<rparr>))"
    by (cases w) (simp add: retired_def with_sys_def thread_ids_def)
  then show thesis by (rule that) (use j(5) in \<open>simp_all add: retired_def\<close>)
qed

section \<open>The daemon\<close>

text \<open>
  A daemon between start-up and shutdown: the threads are those of the plugins, the signal
  handler at \<open>s\<close>, the timer thread at \<open>t\<close> and the netlink thread at \<open>n\<close>; they and \<open>csMain\<close> are
  the event clients, and no document is being parsed.
\<close>

definition machinery :: "nat \<Rightarrow> nat \<Rightarrow> main_world \<Rightarrow> bool" where
  "machinery t n w \<longleftrightarrow> mw_timer_thread w = Some t \<and> mw_netlink_thread w = Some n \<and>
     dom (tt_objs (mw_timer w)) = {t} \<and> tt_instance (mw_timer w) = Some t \<and>
     dom (tt_kernel (mw_timer w)) = {tt_timer_id (the (tt_objs (mw_timer w) t))} \<and>
     dom (nt_objs (mw_netlink w)) = {n} \<and> nt_instance (mw_netlink w) = Some n \<and>
     nt_fd (the (nt_objs (mw_netlink w) n)) \<noteq> -1 \<and> nt_open (mw_netlink w) = [nt_fd (the (nt_objs (mw_netlink w) n))]"

abbreviation workers :: "nat \<Rightarrow> nat \<Rightarrow> nat \<Rightarrow> main_world \<Rightarrow> bool" where
  "workers s t n w \<equiv> mw_sig_handler w = Some s \<and> machinery t n w"

definition logging :: "main_world \<Rightarrow> bool" where
  "logging w \<longleftrightarrow> log_ok (mw_logger w) \<and> mw_log_stdout w \<noteq> None \<and> mw_log_syslog w \<noteq> mw_log_stdout w \<and>
     dom (lg_heap (mw_logger w)) = set_option (mw_log_stdout w) \<union> set_option (mw_log_syslog w)"

definition running :: "nat \<Rightarrow> nat \<Rightarrow> nat \<Rightarrow> conf_world \<Rightarrow> bool" where
  "running s t n x \<longleftrightarrow> (let w = xp_client x; ps = mw_plugin w; T = insert s (insert t (insert n (addrs ps))) in
     xp_stack x = [] \<and> ev_wf (sw_ev w) \<and> crew T w \<and> dom (sw_threads w) = T \<and>
     distinct (mw_this w # s # t # n # map plugin_at ps) \<and> client_set w = insert (mw_this w) T \<and>
     dom (ld_objs w) = addrs ps \<and> mset (ld_open w) = mset (map (\<lambda>x. ld_handle (snd x)) ps) \<and>
     workers s t n w \<and>
     logging w)"

text \<open>Nothing is left: no client, thread, plugin, library, kernel timer, socket or logger.\<close>

definition released :: "conf_world \<Rightarrow> bool" where
  "released x \<longleftrightarrow> (let w = xp_client x in xp_buffer x = [] \<and>
     event_client (sw_ev w) = [] \<and> ev_clients (sw_ev w) = Map.empty \<and> event_client_mutex (sw_ev w) = MutexNull \<and>
     sw_threads w = Map.empty \<and> ld_objs w = Map.empty \<and> ld_open w = [] \<and>
     tt_objs (mw_timer w) = Map.empty \<and> tt_kernel (mw_timer w) = Map.empty \<and> vector_mutex (mw_timer w) = MutexNull \<and>
     nt_objs (mw_netlink w) = Map.empty \<and> nt_open (mw_netlink w) = [] \<and>
     lg_heap (mw_logger w) = Map.empty \<and> logger (mw_logger w) = [] \<and> logger_mutex (mw_logger w) = MutexNull \<and>
     \<not> lg_syslog_open (mw_logger w))"

lemma retired_next:
  assumes "crew T w" "a \<in> T" "client_left a (sw_ev w) e"
  shows "crew (T - {a}) (retired a e ls w)" "ev_wf (sw_ev (retired a e ls w))"
    "client_set (retired a e ls w) = client_set w - {a}"
  using crew_retired [OF assms(1,2)] assms(3) by (auto simp: retired_def client_set_def client_left_def)

lemma sub_world_update [simp]:
  fixes w :: main_world
  shows "sw_threads (w\<lparr>mw_timer := v\<rparr>) = sw_threads w" "sw_threads (w\<lparr>mw_netlink := u\<rparr>) = sw_threads w"
    "sw_joined (w\<lparr>mw_timer := v\<rparr>) = sw_joined w" "sw_joined (w\<lparr>mw_netlink := u\<rparr>) = sw_joined w"
    "sw_ev (w\<lparr>mw_timer := v\<rparr>) = sw_ev w" "sw_ev (w\<lparr>mw_netlink := u\<rparr>) = sw_ev w"
    "ld_objs (w\<lparr>mw_timer := v\<rparr>) = ld_objs w" "ld_objs (w\<lparr>mw_netlink := u\<rparr>) = ld_objs w"
    "ld_disk (w\<lparr>mw_timer := v\<rparr>) = ld_disk w" "ld_disk (w\<lparr>mw_netlink := u\<rparr>) = ld_disk w"
    "ld_open (w\<lparr>mw_timer := v\<rparr>) = ld_open w" "ld_open (w\<lparr>mw_netlink := u\<rparr>) = ld_open w"
    "mw_timer (w\<lparr>mw_timer := v\<rparr>) = v" "mw_netlink (w\<lparr>mw_netlink := u\<rparr>) = u" "mw_timer (w\<lparr>mw_netlink := u\<rparr>) = mw_timer w"
    "mw_netlink (w\<lparr>mw_timer := v\<rparr>) = mw_netlink w"
    "mw_this (w\<lparr>mw_timer := v\<rparr>) = mw_this w" "mw_this (w\<lparr>mw_netlink := u\<rparr>) = mw_this w"
    "mw_log_stdout (w\<lparr>mw_timer := v\<rparr>) = mw_log_stdout w" "mw_log_stdout (w\<lparr>mw_netlink := u\<rparr>) = mw_log_stdout w"
    "mw_log_syslog (w\<lparr>mw_timer := v\<rparr>) = mw_log_syslog w" "mw_log_syslog (w\<lparr>mw_netlink := u\<rparr>) = mw_log_syslog w"
    "mw_logger (w\<lparr>mw_timer := v\<rparr>) = mw_logger w" "mw_logger (w\<lparr>mw_netlink := u\<rparr>) = mw_logger w"
    "mw_killed (w\<lparr>mw_timer := v\<rparr>) = mw_killed w" "mw_killed (w\<lparr>mw_netlink := u\<rparr>) = mw_killed w"
    "mw_netlink_thread (w\<lparr>mw_timer := v\<rparr>) = mw_netlink_thread w"
    "mw_timer (w\<lparr>mw_killed := k\<rparr>) = mw_timer w" "mw_netlink (w\<lparr>mw_killed := k\<rparr>) = mw_netlink w"
  by (cases w, simp)+

lemma retired_fields [simp]:
  fixes w :: main_world
  shows "sw_ev (retired a e ls w) = e" "sw_threads (retired a e ls w) = (sw_threads w)(a := None)" "sw_joined (retired a e ls w) = sw_joined w @ thread_ids w a"
    "ld_objs (retired a e ls w) = ld_objs w" "ld_disk (retired a e ls w) = ld_disk w" "ld_open (retired a e ls w) = ld_open w"
    "mw_timer (retired a e ls w) = mw_timer w" "mw_netlink (retired a e ls w) = mw_netlink w" "mw_this (retired a e ls w) = mw_this w"
    "mw_log_stdout (retired a e ls w) = mw_log_stdout w" "mw_log_syslog (retired a e ls w) = mw_log_syslog w" "mw_logger (retired a e ls w) = mw_logger w"
    "mw_killed (retired a e ls w) = mw_killed w" "mw_sig_handler (retired a e ls w) = mw_sig_handler w" "mw_timer_thread (retired a e ls w) = mw_timer_thread w"
    "mw_netlink_thread (retired a e ls w) = mw_netlink_thread w"
  by (cases w, simp add: retired_def)+

lemma plugins_gone_fields [simp]:
  shows "mw_timer (plugins_gone ps e ls w) = mw_timer w" "mw_netlink (plugins_gone ps e ls w) = mw_netlink w" "mw_this (plugins_gone ps e ls w) = mw_this w"
    "mw_log_stdout (plugins_gone ps e ls w) = mw_log_stdout w" "mw_log_syslog (plugins_gone ps e ls w) = mw_log_syslog w" "mw_logger (plugins_gone ps e ls w) = mw_logger w"
    "mw_killed (plugins_gone ps e ls w) = mw_killed w" "mw_sig_handler (plugins_gone ps e ls w) = mw_sig_handler w" "mw_timer_thread (plugins_gone ps e ls w) = mw_timer_thread w"
    "mw_netlink_thread (plugins_gone ps e ls w) = mw_netlink_thread w"
  by (cases w, simp add: plugins_gone_def)+

lemma crew_main [simp]:
  fixes w :: main_world
  shows "crew T (w\<lparr>mw_killed := k\<rparr>) = crew T w" "crew T (w\<lparr>mw_timer := v\<rparr>) = crew T w" "crew T (w\<lparr>mw_netlink := u\<rparr>) = crew T w"
  "client_set (w\<lparr>mw_killed := k\<rparr>) = client_set w" "client_set (w\<lparr>mw_timer := v\<rparr>) = client_set w"
  "client_set (w\<lparr>mw_netlink := u\<rparr>) = client_set w"
  by (simp_all add: crew_def client_set_def)

lemma mset_fold_remove1: "mset (fold (\<lambda>x. remove1 (f x)) xs ys) = mset ys - mset (map f xs)"
  by (induction xs arbitrary: ys) simp_all

lemma dom_single:
  assumes "dom f = {t}"
  shows "f t = Some (the (f t))" "f(t := None) = Map.empty"
  using assms by (auto simp: dom_eq_singleton_conv)

text \<open>The state from which only \<open>csMain\<close> is left as a client.\<close>

definition alone :: "main_world \<Rightarrow> bool" where
  "alone w \<longleftrightarrow> ev_wf (sw_ev w) \<and> client_set w = {mw_this w} \<and> sw_threads w = Map.empty \<and>
     tt_objs (mw_timer w) = Map.empty \<and> tt_kernel (mw_timer w) = Map.empty \<and> vector_mutex (mw_timer w) = MutexNull \<and>
     nt_objs (mw_netlink w) = Map.empty \<and> nt_open (mw_netlink w) = []"

text \<open>What the destructors of the three threads leave as it is.\<close>

definition same_rest :: "main_world \<Rightarrow> main_world \<Rightarrow> bool" where
  "same_rest w w' \<longleftrightarrow> ld_objs w' = ld_objs w \<and> ld_open w' = ld_open w \<and> ld_disk w' = ld_disk w \<and> mw_this w' = mw_this w \<and>
     mw_log_stdout w' = mw_log_stdout w \<and> mw_log_syslog w' = mw_log_syslog w \<and> mw_logger w' = mw_logger w"

lemma workers_gone:
  assumes "workers s t n w1" "crew {s, t, n} w1" "ev_wf (sw_ev w1)" "client_set w1 = {mw_this w1, s, t, n}"
    "dom (sw_threads w1) = {s, t, n}" "distinct [mw_this w1, s, t, n]"
  obtains w2 w3 w4 where "if_some (mw_sig_handler w1) (csSignalHandler_dtor env) w1 = Return () w2"
    "if_some (mw_timer_thread w2) (\<lambda>a. timer_op (csThreadTimer_dtor (me_pthread env) a)) w2 = Return () w3"
    "if_some (mw_netlink_thread w3) (\<lambda>a. netlink_op (csThreadNetlink_dtor (me_pthread env) a)) w3 = Return () w4"
    "alone w4" "same_rest w1 w4" "sw_joined w4 = sw_joined w1 @ concat (map (thread_ids w1) [s, t, n])"
    "mw_killed w4 = mw_killed w1 @ [th_id (the (sw_threads w1 s))]"
proof -
  note run = assms(1) [unfolded machinery_def]
  let ?k = "mw_killed w1 @ [th_id (the (sw_threads w1 s))]"
  obtain e1 l1 where s: "csSignalHandler_dtor env s w1 = Return () (retired s e1 l1 (w1\<lparr>mw_killed := ?k\<rparr>))"
    "client_left s (sw_ev w1) e1" using signal_handler_gone [OF assms(2) _ assms(3), of s] assms(4) by auto
  define w2 where "w2 = retired s e1 l1 (w1\<lparr>mw_killed := ?k\<rparr>)"
  have "crew ({s, t, n} - {s}) w2" "ev_wf (sw_ev w2)" "client_set w2 = client_set w1 - {s}"
    unfolding w2_def using retired_next [of "{s, t, n}" "w1\<lparr>mw_killed := ?k\<rparr>" s e1 l1] assms(2) s(2) by simp_all
  moreover have "{s, t, n} - {s} = {t, n}" "client_set w1 - {s} = {mw_this w1, t, n}" using assms(4,6) by auto
  ultimately have c2: "crew {t, n} w2" "ev_wf (sw_ev w2)" "client_set w2 = {mw_this w1, t, n}" by simp_all
  have tm: "tt_objs (mw_timer w2) t = Some (the (tt_objs (mw_timer w1) t))" "tt_instance (mw_timer w2) = Some t"
    using run dom_single(1) [of "tt_objs (mw_timer w1)" t] by (simp_all add: w2_def)
  obtain e2 l2 v where t: "timer_op (csThreadTimer_dtor (me_pthread env) t) w2 = Return () (retired t e2 l2 (w2\<lparr>mw_timer := v\<rparr>))"
    "client_left t (sw_ev w2) e2" "tt_objs v = (tt_objs (mw_timer w2))(t := None)"
    "tt_kernel v = (tt_kernel (mw_timer w2))(tt_timer_id (the (tt_objs (mw_timer w1) t)) := None)" "vector_mutex v = MutexNull"
    using thread_timer_gone [where env = env, OF c2(1) _ c2(2) _ tm] c2(3) by (metis insertCI)
  define w3 where "w3 = retired t e2 l2 (w2\<lparr>mw_timer := v\<rparr>)"
  have "crew ({t, n} - {t}) w3" "ev_wf (sw_ev w3)" "client_set w3 = client_set w2 - {t}"
    unfolding w3_def using retired_next [of "{t, n}" "w2\<lparr>mw_timer := v\<rparr>" t e2 l2] c2(1) t(2) by simp_all
  moreover have "{t, n} - {t} = {n}" "client_set w2 - {t} = {mw_this w1, n}" using assms(6) c2(3) by auto
  ultimately have c3: "crew {n} w3" "ev_wf (sw_ev w3)" "client_set w3 = {mw_this w1, n}" by simp_all
  have nl: "nt_objs (mw_netlink w3) n = Some (the (nt_objs (mw_netlink w1) n))" "nt_instance (mw_netlink w3) = Some n"
    "nt_fd (the (nt_objs (mw_netlink w1) n)) \<noteq> -1"
    using run dom_single(1) [of "nt_objs (mw_netlink w1)" n] by (simp_all add: w3_def w2_def)
  obtain e3 l3 u where n: "netlink_op (csThreadNetlink_dtor (me_pthread env) n) w3 = Return () (retired n e3 l3 (w3\<lparr>mw_netlink := u\<rparr>))"
    "client_left n (sw_ev w3) e3" "nt_objs u = (nt_objs (mw_netlink w3))(n := None)"
    "nt_open u = remove1 (nt_fd (the (nt_objs (mw_netlink w1) n))) (nt_open (mw_netlink w3))"
    using thread_netlink_gone [where env = env, OF c3(1) _ c3(2) _ nl] c3(3) by (metis insertCI)
  define w4 where "w4 = retired n e3 l3 (w3\<lparr>mw_netlink := u\<rparr>)"
  have c4: "ev_wf (sw_ev w4)" "client_set w4 = client_set w3 - {n}"
    unfolding w4_def using retired_next [of "{n}" "w3\<lparr>mw_netlink := u\<rparr>" n e3 l3] c3(1) n(2) by simp_all
  have own: "mw_this w4 = mw_this w1" by (simp add: w4_def w3_def w2_def)
  have cs: "client_set w4 = {mw_this w4}" using c4(2) c3(3) assms(6) own by auto
  have th: "sw_threads w4 = Map.empty"
    using assms(5) by (auto simp: w4_def w3_def w2_def fun_eq_iff dom_def)
  have "alone w4" using c4(1) cs th run dom_single(2) [of "tt_objs (mw_timer w1)"] dom_single(2) [of "tt_kernel (mw_timer w1)"]
      dom_single(2) [of "nt_objs (mw_netlink w1)"] t(3-5) n(3,4)
    unfolding alone_def by (simp add: w4_def w3_def w2_def)
  moreover have "sw_joined w4 = sw_joined w1 @ concat (map (thread_ids w1) [s, t, n])"
    using assms(6) by (simp add: w4_def w3_def w2_def thread_ids_def)
  moreover have "same_rest w1 w4" by (simp add: same_rest_def w4_def w3_def w2_def)
  ultimately show thesis
    using s(1) t(1) n(1) run by (intro that [of w2 w3 w4]) (simp_all add: if_some_def w2_def w3_def w4_def)
qed

lemma loggers_gone:
  assumes "log_ok l" "dom (lg_heap l) = set_option (Some a) \<union> set_option b" "b \<noteq> Some a" "mw_logger w = l"
    "mw_log_syslog w = b" "mw_log_stdout w = Some a"
  obtains l1 l' where "if_some (mw_log_syslog w) (\<lambda>a. log_op (csLog_dtor a)) w = Return () (w\<lparr>mw_logger := l1\<rparr>)"
    "if_some (mw_log_stdout (w\<lparr>mw_logger := l1\<rparr>)) (\<lambda>a. log_op (csLog_dtor a)) (w\<lparr>mw_logger := l1\<rparr>) =
      Return () (w\<lparr>mw_logger := l'\<rparr>)"
    "lg_heap l' = Map.empty" "logger l' = []" "logger_mutex l' = MutexNull" "\<not> lg_syslog_open l'"
proof -
  have op: "log_op (csLog_dtor p) v = Return () (v\<lparr>mw_logger := log_removed p (mw_logger v)\<rparr>)"
    if "log_ok (mw_logger v)" "p \<in> dom (lg_heap (mw_logger v))" for p v
    using csLog_dtor_eq [OF that] by (simp add: log_op_def zoomO_def)
  define l1 where "l1 = (case b of None \<Rightarrow> l | Some p \<Rightarrow> log_removed p l)"
  have l1: "log_ok l1" "dom (lg_heap l1) = {a}"
    using assms(1-3) log_ok_removed [of l] by (cases b; auto simp: l1_def log_removed_def Let_def)+
  have r: "log_ok (log_removed a l1)" "lg_heap (log_removed a l1) = Map.empty"
    using log_ok_removed [OF l1(1)] l1(2) by (auto simp: log_removed_def Let_def dom_eq_singleton_conv)
  show thesis
  proof (rule that)
    show "if_some (mw_log_syslog w) (\<lambda>a. log_op (csLog_dtor a)) w = Return () (w\<lparr>mw_logger := l1\<rparr>)"
      using assms op [of w] by (cases b; cases w) (auto simp: if_some_def l1_def)
    show "if_some (mw_log_stdout (w\<lparr>mw_logger := l1\<rparr>)) (\<lambda>a. log_op (csLog_dtor a)) (w\<lparr>mw_logger := l1\<rparr>) =
        Return () (w\<lparr>mw_logger := log_removed a l1\<rparr>)"
      using assms(6) l1 op [of "w\<lparr>mw_logger := l1\<rparr>" a] by (simp add: if_some_def)
  qed (use r in \<open>auto simp: log_ok_def syslog_set_def\<close>)
qed

lemma plugins_stage:
  assumes "mw_plugin w = [] \<or> dtor_joins env" "running s t n x" "w = xp_client x"
  obtains w1 where "delete_plugins env (mw_plugin w) w = Return () w1" "workers s t n w1" "crew {s, t, n} w1"
    "ev_wf (sw_ev w1)" "client_set w1 = {mw_this w1, s, t, n}" "dom (sw_threads w1) = {s, t, n}"
    "ld_objs w1 = Map.empty" "ld_open w1 = []" "mw_this w1 = mw_this w" "mw_log_stdout w1 = mw_log_stdout w"
    "mw_log_syslog w1 = mw_log_syslog w" "mw_logger w1 = mw_logger w" "mw_killed w1 = mw_killed w"
    "sw_joined w1 = sw_joined w @ concat (map (thread_ids w) (map plugin_at (mw_plugin w)))"
    "\<forall>a \<in> {s, t, n}. sw_threads w1 a = sw_threads w a"
    "ld_disk w1 = fold (\<lambda>x. saved (the (ld_objs w (plugin_at x)))) (mw_plugin w) (ld_disk w)"
proof -
  let ?ps = "mw_plugin w"
  let ?T = "insert s (insert t (insert n (addrs ?ps)))"
  note run = assms(2) [unfolded running_def Let_def, folded assms(3)]
  have wf: "crew ?T w" "ev_wf (sw_ev w)" "client_set w = insert (mw_this w) ?T" "dom (ld_objs w) = addrs ?ps"
    and dist: "distinct (mw_this w # s # t # n # map plugin_at ?ps)" and dom: "dom (sw_threads w) = ?T"
    using run by auto
  have objs: "\<forall>x \<in> set ?ps. ld_objs w (plugin_at x) \<noteq> None" using wf(4) by blast
  obtain e0 l0 where d: "delete_plugins env ?ps w = Return () (plugins_gone ?ps e0 l0 w)" "ev_wf e0"
    "dom (ev_clients e0) = client_set w - addrs ?ps" "crew (?T - addrs ?ps) (plugins_gone ?ps e0 l0 w)"
    using delete_plugins_spec [OF assms(1) wf(1,2) _ _ _ objs] wf(3) dist by auto
  let ?w1 = "plugins_gone ?ps e0 l0 w"
  have T1: "?T - addrs ?ps = {s, t, n}" "client_set w - addrs ?ps = {mw_this w, s, t, n}" using dist wf(3) by auto
  have rest: "sw_ev ?w1 = e0" "ld_disk ?w1 = fold (\<lambda>x. saved (the (ld_objs w (plugin_at x)))) ?ps (ld_disk w)"
    "sw_joined ?w1 = sw_joined w @ concat (map (thread_ids w) (map plugin_at ?ps))"
    by (simp_all add: plugins_gone_def comp_def)
  have "mset (ld_open w) = mset (map (\<lambda>x. ld_handle (snd x)) ?ps)" "workers s t n w" using run by blast+
  moreover have "ld_open ?w1 = fold (\<lambda>x. remove1 (ld_handle (snd x))) ?ps (ld_open w)" by (simp add: plugins_gone_def)
  ultimately have lib: "ld_open ?w1 = []" "workers s t n ?w1"
    using mset_fold_remove1 [of "\<lambda>x. ld_handle (snd x)" ?ps "ld_open w"] by (simp_all add: machinery_def)
  have objs1: "ld_objs ?w1 = Map.empty"
    unfolding plugins_gone_def using wf(4) by (simp add: fun_eq_iff) (metis domIff)
  have thr: "sw_threads ?w1 = (\<lambda>a. if a \<in> addrs ?ps then None else sw_threads w a)" by (simp add: plugins_gone_def)
  have keep: "\<forall>a \<in> {s, t, n}. sw_threads ?w1 a = sw_threads w a"
    using T1(1) unfolding thr by (metis DiffD2)
  have dom1: "dom (sw_threads ?w1) = {s, t, n}"
    unfolding T1(1) [symmetric] dom [symmetric] thr by (auto simp: dom_def split: if_splits)
  have cs: "client_set ?w1 = {mw_this ?w1, s, t, n}"
    using d(3) unfolding T1(2) by (simp add: client_set_def rest(1))
  show thesis using d(2,4) rest lib objs1 keep dom1 cs unfolding T1(1) by (intro that [OF d(1)]) (simp_all only: plugins_gone_fields)
qed

lemma main_op_eq: "f (xp_client x) = Return r w \<Longrightarrow> main_op f x = Return r (x\<lparr>xp_client := w\<rparr>)"
  by (simp add: main_op_def zoomO_def)

lemma main_op_at: "f w = Return r w' \<Longrightarrow> main_op f (x\<lparr>xp_client := w\<rparr>) = Return r (x\<lparr>xp_client := w'\<rparr>)"
  by (simp add: main_op_def zoomO_def)

text \<open>
  The last four steps of the destructor, from a state in which only \<open>csMain\<close> is left.
\<close>

lemma last_steps:
  assumes "alone w" "w = xp_client x" "xp_stack x = []" "ld_objs w = Map.empty" "ld_open w = []" "log_ok (mw_logger w)"
    "mw_log_stdout w \<noteq> None" "mw_log_syslog w \<noteq> mw_log_stdout w"
    "dom (lg_heap (mw_logger w)) = set_option (mw_log_stdout w) \<union> set_option (mw_log_syslog w)"
  obtains x' where "bindO (csConf_dtor (me_page env) x) (\<lambda>_ x.
     bindO (main_op (\<lambda>w. if_some (mw_log_syslog w) (\<lambda>a. log_op (csLog_dtor a)) (sys_log Level_Info ''Terminated.'' [] w)) x) (\<lambda>_ x.
     bindO (main_op (\<lambda>w. if_some (mw_log_stdout w) (\<lambda>a. log_op (csLog_dtor a)) w) x) (\<lambda>_ x.
     main_op (\<lambda>w. ev_op (csEventClient_dtor (mw_this w)) w) x))) = Return () x'"
    "released x'" "sw_joined (xp_client x') = sw_joined w" "ld_disk (xp_client x') = ld_disk w" "mw_killed (xp_client x') = mw_killed w"
proof -
  let ?x1 = "x\<lparr>xp_page_size := me_page env, xp_buffer := []\<rparr>"
  let ?w1 = "sys_log Level_Info ''Terminated.'' [] w"
  note lone = assms(1) [unfolded alone_def]
  have c: "csConf_dtor (me_page env) x = Return () ?x1"
    using assms(3) by (simp add: csConf_dtor_def csXmlParser_dtor_def Reset_def)
  have w1: "mw_logger ?w1 = mw_logger w" "mw_log_syslog ?w1 = mw_log_syslog w" "mw_log_stdout ?w1 = mw_log_stdout w"
    by (simp_all add: sys_log_def)
  obtain a where a: "mw_log_stdout w = Some a" using assms(7) by blast
  obtain l1 l' where l: "if_some (mw_log_syslog ?w1) (\<lambda>a. log_op (csLog_dtor a)) ?w1 = Return () (?w1\<lparr>mw_logger := l1\<rparr>)"
    "if_some (mw_log_stdout (?w1\<lparr>mw_logger := l1\<rparr>)) (\<lambda>a. log_op (csLog_dtor a)) (?w1\<lparr>mw_logger := l1\<rparr>) =
      Return () (?w1\<lparr>mw_logger := l'\<rparr>)"
    "lg_heap l' = Map.empty" "logger l' = []" "logger_mutex l' = MutexNull" "\<not> lg_syslog_open l'"
    by (rule loggers_gone [OF assms(6) _ _ w1(1,2), of a]) (use assms(8,9) a w1(3) in simp_all)
  let ?w3 = "?w1\<lparr>mw_logger := l'\<rparr>"
  have w3: "sw_ev ?w3 = sw_ev w" "mw_this ?w3 = mw_this w" by (simp_all add: sys_log_def)
  obtain e where e: "ev_op (csEventClient_dtor (mw_this w)) ?w3 = Return () (?w3\<lparr>sw_ev := e\<rparr>)"
    "client_left (mw_this w) (sw_ev w) e"
    using client_gone [of ?w3 "mw_this w"] lone w3 by (auto simp: client_set_def)
  have none: "ev_clients e = Map.empty" "event_client e = []" "event_client_mutex e = MutexNull"
  proof -
    show "ev_clients e = Map.empty"
      using e(2) lone dom_single(2) [of "ev_clients (sw_ev w)" "mw_this w"] by (simp add: client_left_def client_set_def)
    then show "event_client e = []" using e(2) by (simp add: client_left_def ev_wf_def ev_core_def)
    then show "event_client_mutex e = MutexNull" using e(2) by (simp add: client_left_def ev_wf_def)
  qed
  let ?w4 = "?w3\<lparr>sw_ev := e\<rparr>"
  let ?x4 = "?x1\<lparr>xp_client := ?w4\<rparr>"
  have s2: "main_op (\<lambda>w. if_some (mw_log_syslog w) (\<lambda>a. log_op (csLog_dtor a)) (sys_log Level_Info ''Terminated.'' [] w)) ?x1 =
      Return () (?x1\<lparr>xp_client := ?w1\<lparr>mw_logger := l1\<rparr>\<rparr>)"
    by (rule main_op_eq) (use l(1) w1(2) assms(2) in simp)
  have s3: "main_op (\<lambda>w. if_some (mw_log_stdout w) (\<lambda>a. log_op (csLog_dtor a)) w) (?x1\<lparr>xp_client := ?w1\<lparr>mw_logger := l1\<rparr>\<rparr>) =
      Return () (?x1\<lparr>xp_client := ?w3\<rparr>)"
    by (rule main_op_at) (rule l(2))
  have s4: "main_op (\<lambda>w. ev_op (csEventClient_dtor (mw_this w)) w) (?x1\<lparr>xp_client := ?w3\<rparr>) = Return () ?x4"
    by (rule main_op_at) (use e(1) w3(2) in simp)
  have w4: "mw_timer ?w4 = mw_timer w" "mw_netlink ?w4 = mw_netlink w" "mw_logger ?w4 = l'"
    by (cases w; simp add: sys_log_def)+
  show thesis
  proof (rule that [of ?x4])
    show "released ?x4" using lone w4 l(3-6) none assms(4,5) by (simp add: released_def Let_def sys_log_def)
  qed (simp_all only: c s2 s3 s4 bindO.simps, simp_all add: sys_log_def)
qed

lemma crew_ids_distinct:
  "crew T w \<Longrightarrow> set as \<subseteq> T \<Longrightarrow> distinct as \<Longrightarrow> distinct (concat (map (thread_ids w) as))"
proof (induction as)
  case (Cons a as)
  have "set (thread_ids w a) \<inter> set (thread_ids w b) = {}" if "b \<in> set as" for b
  proof -
    have "a \<in> T" "b \<in> T" "a \<noteq> b" using that Cons.prems by auto
    then have "th_id (the (sw_threads w a)) = th_id (the (sw_threads w b)) \<longrightarrow> th_id (the (sw_threads w a)) = invalid_id"
      using Cons.prems(1) unfolding crew_def by blast
    then show ?thesis by (auto simp: thread_ids_def joined_ids_def)
  qed
  then have "set (thread_ids w a) \<inter> set (concat (map (thread_ids w) as)) = {}" by auto
  moreover have "distinct (thread_ids w a)" by (simp add: thread_ids_def joined_ids_def)
  ultimately show ?case using Cons by simp
qed simp

lemma shutdown_complete:
  assumes "mw_plugin w = [] \<or> dtor_joins env" "running s t n x" "w = xp_client x"
  shows "\<exists>x'. csMain_dtor env x = Return () x' \<and> released x' \<and>
    sw_joined (xp_client x') = sw_joined w @ concat (map (thread_ids w) (map plugin_at (mw_plugin w) @ [s, t, n])) \<and>
    distinct (concat (map (thread_ids w) (map plugin_at (mw_plugin w) @ [s, t, n]))) \<and>
    mw_killed (xp_client x') = mw_killed w @ [th_id (the (sw_threads w s))] \<and>
    ld_disk (xp_client x') = fold (\<lambda>x. saved (the (ld_objs w (plugin_at x)))) (mw_plugin w) (ld_disk w)"
proof -
  note run = assms(2) [unfolded running_def Let_def, folded assms(3)]
  obtain w1 where w1: "delete_plugins env (mw_plugin w) w = Return () w1" "workers s t n w1" "crew {s, t, n} w1"
    "ev_wf (sw_ev w1)" "client_set w1 = {mw_this w1, s, t, n}" "dom (sw_threads w1) = {s, t, n}"
    "ld_objs w1 = Map.empty" "ld_open w1 = []" "mw_this w1 = mw_this w" "mw_log_stdout w1 = mw_log_stdout w"
    "mw_log_syslog w1 = mw_log_syslog w" "mw_logger w1 = mw_logger w" "mw_killed w1 = mw_killed w"
    "sw_joined w1 = sw_joined w @ concat (map (thread_ids w) (map plugin_at (mw_plugin w)))"
    "\<forall>a \<in> {s, t, n}. sw_threads w1 a = sw_threads w a"
    "ld_disk w1 = fold (\<lambda>x. saved (the (ld_objs w (plugin_at x)))) (mw_plugin w) (ld_disk w)"
    by (rule plugins_stage [OF assms])
  have dist: "distinct [mw_this w1, s, t, n]" using run by (simp add: w1(9))
  obtain w2 w3 w4 where w4: "if_some (mw_sig_handler w1) (csSignalHandler_dtor env) w1 = Return () w2"
    "if_some (mw_timer_thread w2) (\<lambda>a. timer_op (csThreadTimer_dtor (me_pthread env) a)) w2 = Return () w3"
    "if_some (mw_netlink_thread w3) (\<lambda>a. netlink_op (csThreadNetlink_dtor (me_pthread env) a)) w3 = Return () w4"
    "alone w4" "same_rest w1 w4" "sw_joined w4 = sw_joined w1 @ concat (map (thread_ids w1) [s, t, n])"
    "mw_killed w4 = mw_killed w1 @ [th_id (the (sw_threads w1 s))]"
    by (rule workers_gone [OF w1(2-6) dist])
  have ids: "map (thread_ids w1) [s, t, n] = map (thread_ids w) [s, t, n]" "th_id (the (sw_threads w1 s)) = th_id (the (sw_threads w s))"
    using w1(15) by (simp_all add: thread_ids_def)
  note rest = w4(5) [unfolded same_rest_def]
  have logs: "log_ok (mw_logger w4)" "mw_log_stdout w4 \<noteq> None" "mw_log_syslog w4 \<noteq> mw_log_stdout w4"
    "dom (lg_heap (mw_logger w4)) = set_option (mw_log_stdout w4) \<union> set_option (mw_log_syslog w4)"
    using run rest w1(10-12) by (simp_all add: logging_def)
  let ?x4 = "x\<lparr>xp_client := w4\<rparr>"
  obtain x' where x': "bindO (csConf_dtor (me_page env) ?x4) (\<lambda>_ x.
     bindO (main_op (\<lambda>w. if_some (mw_log_syslog w) (\<lambda>a. log_op (csLog_dtor a)) (sys_log Level_Info ''Terminated.'' [] w)) x) (\<lambda>_ x.
     bindO (main_op (\<lambda>w. if_some (mw_log_stdout w) (\<lambda>a. log_op (csLog_dtor a)) w) x) (\<lambda>_ x.
     main_op (\<lambda>w. ev_op (csEventClient_dtor (mw_this w)) w) x))) = Return () x'"
    "released x'" "sw_joined (xp_client x') = sw_joined w4" "ld_disk (xp_client x') = ld_disk w4" "mw_killed (xp_client x') = mw_killed w4"
    by (rule last_steps [OF w4(4) _ _ _ _ logs, of ?x4 env]) (use run rest w1(7,8) in simp_all)
  have "csMain_dtor env x = Return () x'"
    unfolding csMain_dtor_def main_op_eq [of "\<lambda>w. delete_plugins env (mw_plugin w) w" x, folded assms(3), OF w1(1)] bindO.simps
      main_op_at [of "\<lambda>w. if_some (mw_sig_handler w) (csSignalHandler_dtor env) w", OF w4(1)]
      main_op_at [of "\<lambda>w. if_some (mw_timer_thread w) (\<lambda>a. timer_op (csThreadTimer_dtor (me_pthread env) a)) w", OF w4(2)]
      main_op_at [of "\<lambda>w. if_some (mw_netlink_thread w) (\<lambda>a. netlink_op (csThreadNetlink_dtor (me_pthread env) a)) w", OF w4(3)]
    by (rule x'(1))
  moreover have "distinct (concat (map (thread_ids w) (map plugin_at (mw_plugin w) @ [s, t, n])))"
    by (rule crew_ids_distinct [of "insert s (insert t (insert n (addrs (mw_plugin w))))"]) (use run in auto)
  ultimately show ?thesis using x'(2-) w4(6,7) w1(13,14,16) ids rest by simp
qed

text \<open>
  C7. Shutting down releases everything. For a daemon that runs, with any plugins whose own
  destructors join their threads, the destructor of \<open>csMain\<close> returns: it does not block, throw
  or run into undefined behaviour. Afterwards there is no event client, and the mutex of the
  registry is gone; there is no thread object, plugin, library, kernel timer, netlink socket or
  logger. The signal handler was the only thread that got a signal. Every thread that had been started is
  joined exactly once, the plugins in the order of their names, then the signal handler, the
  timer thread and the netlink thread; and every plugin has saved its variables to its state
  file, in that order.
\<close>

theorem shutdown_releases_everything:
  assumes "dtor_joins env" "running s t n x" "w = xp_client x"
  shows "\<exists>x'. csMain_dtor env x = Return () x' \<and> released x' \<and>
    sw_joined (xp_client x') = sw_joined w @ concat (map (thread_ids w) (map plugin_at (mw_plugin w) @ [s, t, n])) \<and>
    distinct (concat (map (thread_ids w) (map plugin_at (mw_plugin w) @ [s, t, n]))) \<and>
    mw_killed (xp_client x') = mw_killed w @ [th_id (the (sw_threads w s))] \<and>
    ld_disk (xp_client x') = fold (\<lambda>x. saved (the (ld_objs w (plugin_at x)))) (mw_plugin w) (ld_disk w)"
  using shutdown_complete [OF disjI2 [OF assms(1)] assms(2,3)] .

section \<open>Instances\<close>

text \<open>The daemon at 0 with the plugin \<open>FileWatch\<close> at 1, the signal handler at 2, the timer thread
  at 3 and the netlink thread at 4.\<close>

definition worker :: "nat \<Rightarrow> csThread" where
  "worker a = \<lparr>th_id = 1000 + of_nat a, th_attr = Some 32768\<rparr>"

definition up_world :: main_world where
  "up_world = idle_main\<lparr>sw_ev := ev_init\<lparr>ev_clients := [0 \<mapsto> idle_client, 1 \<mapsto> idle_client, 2 \<mapsto> idle_client,
       3 \<mapsto> idle_client, 4 \<mapsto> idle_client], event_client := [0, 1, 2, 3, 4], event_client_mutex := MutexFree\<rparr>,
     sw_threads := [1 \<mapsto> worker 1, 2 \<mapsto> worker 2, 3 \<mapsto> worker 3, 4 \<mapsto> worker 4], sw_joined := [],
     ld_objs := [1 \<mapsto> plugin_named ''FileWatch''], ld_open := [9],
     mw_plugin := [(''FileWatch'', \<lparr>ld_so_name = ''libfw.so'', ld_handle = 9, ld_plugin = 1\<rparr>)],
     mw_sig_handler := Some 2, mw_timer_thread := Some 3, mw_netlink_thread := Some 4,
     mw_timer := (mw_timer idle_main)\<lparr>tt_instance := Some 3, vector_mutex := MutexFree,
       tt_objs := [3 \<mapsto> \<lparr>tt_parent = ClientAt 0, tt_timer_id = 8\<rparr>], tt_kernel := [8 \<mapsto> True]\<rparr>,
     mw_netlink := (mw_netlink idle_main)\<lparr>nt_instance := Some 4, nt_open := [5],
       nt_objs := [4 \<mapsto> \<lparr>nt_parent = ClientAt 0, nt_events = [], nt_fd = 5, nt_buffer = [], nt_seq = 0\<rparr>]\<rparr>,
     mw_logger := stdout_world, mw_log_stdout := Some 1, mw_log_syslog := None\<rparr>"

lemma up_world_simps [simp]:
  "sw_threads up_world = [1 \<mapsto> worker 1, 2 \<mapsto> worker 2, 3 \<mapsto> worker 3, 4 \<mapsto> worker 4]" "sw_joined up_world = []"
  "mw_plugin up_world = [(''FileWatch'', \<lparr>ld_so_name = ''libfw.so'', ld_handle = 9, ld_plugin = 1\<rparr>)]"
  "mw_this up_world = 0" "mw_logger up_world = stdout_world" "mw_log_stdout up_world = Some 1" "mw_log_syslog up_world = None"
  "mw_killed up_world = []" "ld_open up_world = [9]" "ld_objs up_world = [1 \<mapsto> plugin_named ''FileWatch'']"
  "ld_disk up_world = ld_disk idle_main"
  by (simp_all add: up_world_def idle_main_def)

lemma up_world_workers: "workers 2 3 4 up_world"
  by (simp add: machinery_def up_world_def)

lemma up_world_clients: "ev_wf (sw_ev up_world)" "client_set up_world = {0, 1, 2, 3, 4}"
  by (auto simp: up_world_def idle_main_def client_set_def ev_wf_def ev_core_def ev_init_def critical_init_def
      critical_free_def idle_client_def split: if_splits)

lemma up_world_crew: "crew {1, 2, 3, 4} up_world"
  by (simp add: crew_def worker_def invalid_id_def)

lemma up_world_log: "log_ok stdout_world" "dom (lg_heap stdout_world) = {1}"
  using log_reachable_ok [OF stdout_world_reachable] by (simp_all add: stdout_world_def log_added_def log_init_def)

lemma up_world_running: "running 2 3 4 (conf_start up_world)"
  using up_world_workers up_world_clients up_world_crew up_world_log
  by (auto simp: running_def logging_def Let_def insert_commute)

definition joining_env :: main_env where
  "joining_env = (sample_env [] None)\<lparr>me_plugin_dtor := csThread_Join good_pthreads\<rparr>"

theorem shutdown_releases_everything_witness:
  "\<exists>x'. csMain_dtor joining_env (conf_start up_world) = Return () x' \<and> released x' \<and>
    sw_joined (xp_client x') = [1001, 1002, 1003, 1004] \<and> mw_killed (xp_client x') = [1002]"
proof -
  have "dtor_joins joining_env" by (simp add: dtor_joins_def joining_env_def sample_env_def)
  from shutdown_releases_everything [OF this up_world_running refl] show ?thesis
    by (simp add: thread_ids_def joined_ids_def worker_def invalid_id_def) blast
qed

end
