(* ===== verification/Cs_Lifecycle.thy ===== *)
theory Cs_Lifecycle
  imports Cs_Shutdown
begin

text \<open>
  A whole run of the daemon: \<open>main\<close> from the start of the process, through the constructor of
  \<open>csMain\<close>, the wait of the main loop for the quit event and the destructor, to the exit code.
\<close>

section \<open>Before and during start-up\<close>

text \<open>The process has just started: nothing has been created yet.\<close>

definition fresh_process :: "main_world \<Rightarrow> bool" where
  "fresh_process w \<longleftrightarrow> ev_wf (sw_ev w) \<and> event_client (sw_ev w) = [] \<and> sw_threads w = Map.empty \<and> sw_joined w = [] \<and>
     ld_objs w = Map.empty \<and> ld_open w = [] \<and> mw_plugin w = [] \<and> mw_filter w = [] \<and> mw_this w < ld_next w \<and>
     log_ok (mw_logger w) \<and> lg_heap (mw_logger w) = Map.empty \<and> mw_log_stdout w = None \<and> mw_log_syslog w = None \<and>
     tt_instance (mw_timer w) = None \<and> vector_mutex (mw_timer w) = MutexNull \<and>
     tt_objs (mw_timer w) = Map.empty \<and> tt_kernel (mw_timer w) = Map.empty \<and>
     nt_instance (mw_netlink w) = None \<and> nt_objs (mw_netlink w) = Map.empty \<and> nt_open (mw_netlink w) = []"

text \<open>The kernel grants what the daemon asks for; \<open>ids\<close> gives the ids of the threads it makes.\<close>

definition kernel_ok :: "main_env \<Rightarrow> (nat \<Rightarrow> u64) \<Rightarrow> bool" where
  "kernel_ok env ids \<longleftrightarrow> pt_attr_init (me_pthread env) = 0 \<and>
     pt_attr_setstacksize (me_pthread env) CS_THREAD_STACK_SIZE = 0 \<and>
     (\<forall>a. pt_create (me_pthread env) a = Inr (ids a)) \<and>
     (\<exists>i. me_timer_create env = Inr i) \<and> (\<exists>fd. me_nl_socket env = Inr fd \<and> fd \<noteq> -1) \<and> me_nl_bind env = None \<and>
     me_sigmask env = 0 \<and> me_daemon env = None"

text \<open>The clients and threads while the daemon starts: \<open>T\<close> has the threads, plugins included.\<close>

definition staff :: "nat set \<Rightarrow> main_world \<Rightarrow> bool" where
  "staff T w \<longleftrightarrow> ev_wf (sw_ev w) \<and> client_set w = insert (mw_this w) T \<and> dom (sw_threads w) = T \<and> mw_this w \<notin> T \<and>
     (\<forall>a \<in> T. th_attr (the (sw_threads w a)) \<noteq> None) \<and> ev_clients (sw_ev w) (mw_this w) = Some idle_client \<and>
     sw_joined w = [] \<and> (\<forall>a \<in> insert (mw_this w) T. a < ld_next w)"

lemma staff_frame:
  assumes "staff T w" "sw_ev w' = sw_ev w" "sw_threads w' = sw_threads w" "sw_joined w' = sw_joined w"
    "mw_this w' = mw_this w" "ld_next w \<le> ld_next w'"
  shows "staff T w'"
  using assms unfolding staff_def client_set_def by (auto intro: less_le_trans)

text \<open>What the steps of the constructor leave alone; \<open>plugs\<close>: the plugin objects, the open libraries
  and the plugin map.\<close>

definition plugs :: "main_world \<Rightarrow> (nat \<rightharpoonup> csPlugin) \<times> nat list \<times> (string, csPluginLoader) omap" where
  "plugs w = (ld_objs w, ld_open w, mw_plugin w)"

definition parts :: "main_world \<Rightarrow> timer_world \<times> netlink_world \<times> nat option \<times> nat option \<times> u64 list \<times>
   (nat \<rightharpoonup> csPlugin) \<times> nat list \<times> (string, csPluginLoader) omap" where
  "parts w = (mw_timer w, mw_netlink w, mw_timer_thread w, mw_netlink_thread w, mw_killed w, plugs w)"

section \<open>Loggers and options\<close>

lemma base_class:
  assumes "fresh_process w"
  obtains e where "ev_op (csEventClient_ctor (mw_this w)) w = Return () (w\<lparr>sw_ev := e\<rparr>)" "staff {} (w\<lparr>sw_ev := e\<rparr>)"
proof -
  have wf: "ev_wf (sw_ev w)" "mw_this w \<notin> set (event_client (sw_ev w))" using assms by (simp_all add: fresh_process_def)
  obtain e where e: "csEventClient_ctor (mw_this w) (sw_ev w) = Return () e" "ev_wf e"
    "ev_clients e = (ev_clients (sw_ev w))(mw_this w \<mapsto> idle_client)"
    using client_ctor_dtor [OF wf] by (auto simp: idle_client_def)
  have "dom (ev_clients (sw_ev w)) = {}" using assms by (simp add: fresh_process_def ev_wf_def ev_core_def)
  then show thesis using that [of e] e assms by (simp add: ev_op_Return staff_def client_set_def fresh_process_def)
qed

definition stdout_log :: "main_world \<Rightarrow> (main_world, unit) outcome" where
  "stdout_log = fresh (\<lambda>a w. bindO (log_op (csLog_ctor_stdout a) w) (\<lambda>_ w.
     Return () (w\<lparr>mw_log_stdout := Some a, mw_logger := SetMask (Level_Info OR Level_Warning OR Level_Error) (mw_logger w)\<rparr>)))"

lemma SetMask_frame [simp]: "log_ok (SetMask m g) = log_ok g" "lg_heap (SetMask m g) = lg_heap g"
  by (simp_all add: SetMask_def log_ok_def)

lemma stdout_log_up:
  assumes "staff {} w" "log_ok (mw_logger w)" "lg_heap (mw_logger w) = Map.empty" "mw_log_syslog w = None"
  obtains w' where "stdout_log w = Return () w'" "staff {} w'" "logging w'" "parts w' = parts w"
    "mw_log_syslog w' = None" "\<not> lg_syslog_open (mw_logger w')" "\<forall>a \<in> dom (lg_heap (mw_logger w')). a < ld_next w'"
    "ld_next w' = Suc (ld_next w)"
proof -
  let ?a = "ld_next w"
  obtain l where l: "lg_type l = StdOut" "lg_fh l = None"
    "csLog_ctor_stdout ?a (mw_logger w) = Return () (log_added ?a l (mw_logger w))"
    using csLog_ctor_stdout_eq [OF assms(2)] by blast
  let ?w = "w\<lparr>ld_next := Suc ?a, mw_logger := SetMask (Level_Info OR Level_Warning OR Level_Error) (log_added ?a l (mw_logger w)),
    mw_log_stdout := Some ?a\<rparr>"
  have a: "0 < ?a" using assms(1) by (auto simp: staff_def)
  have ok: "log_ok (log_added ?a l (mw_logger w))"
    using log_ok_added [OF assms(2), of ?a l] l a assms(3) by simp
  have eq: "stdout_log w = Return () ?w"
    using l(3) by (cases w) (simp add: stdout_log_def fresh_def log_op_def zoomO_def)
  show thesis
  proof (rule that [OF eq])
    show "staff {} ?w" by (rule staff_frame [OF assms(1)]) simp_all
    show "logging ?w" using ok assms(3,4) by (simp add: logging_def log_added_def)
    show "parts ?w = parts w" by (cases w) (simp add: parts_def plugs_def)
    show "\<not> lg_syslog_open (mw_logger ?w)"
      using l(1) assms(2,3) by (simp add: log_added_def SetMask_def log_ok_def syslog_set_def)
  qed (use assms(3,4) in \<open>simp_all add: log_added_def\<close>)
qed

text \<open>The options that only set something.\<close>

fun setting :: "char \<times> string \<Rightarrow> options \<Rightarrow> options" where
  "setting (rc, optarg) st = (if rc = CHR ''c'' then st\<lparr>op_conf_filename := optarg\<rparr>
     else if rc = CHR ''d'' then st\<lparr>op_debug := True\<rparr>
     else if rc = CHR ''l'' then st\<lparr>op_log_file := optarg\<rparr> else st)"

definition default_options :: options where
  "default_options = \<lparr>op_debug = False, op_conf_filename = CS_MAIN_CONF, op_log_file = []\<rparr>"

lemma option_loop_fold:
  assumes "\<forall>o' \<in> set opts. fst o' \<in> {CHR ''c'', CHR ''d'', CHR ''l''}"
  shows "\<exists>g. option_loop env argv0 opts st w = Return (fold setting opts st) (w\<lparr>mw_logger := g\<rparr>) \<and>
    log_ok g = log_ok (mw_logger w) \<and> lg_heap g = lg_heap (mw_logger w) \<and> lg_syslog_open g = lg_syslog_open (mw_logger w)"
  using assms
proof (induction opts arbitrary: st w)
  case Nil
  then show ?case by (intro exI [of _ "mw_logger w"]) simp
next
  case (Cons o' opts)
  obtain rc arg where o': "o' = (rc, arg)" by (cases o')
  define g0 where "g0 = (if rc = CHR ''d'' then SetMask (Level_Info OR Level_Warning OR Level_Error OR Level_Debug) (mw_logger w)
    else mw_logger w)"
  have step: "option_loop env argv0 (o' # opts) st w = option_loop env argv0 opts (setting o' st) (w\<lparr>mw_logger := g0\<rparr>)"
    using Cons.prems by (auto simp: o' g0_def)
  obtain g where "option_loop env argv0 opts (setting o' st) (w\<lparr>mw_logger := g0\<rparr>) =
      Return (fold setting opts (setting o' st)) ((w\<lparr>mw_logger := g0\<rparr>)\<lparr>mw_logger := g\<rparr>)"
    "log_ok g = log_ok g0" "lg_heap g = lg_heap g0" "lg_syslog_open g = lg_syslog_open g0"
    using Cons.IH [of "setting o' st" "w\<lparr>mw_logger := g0\<rparr>"] Cons.prems by auto
  moreover have "log_ok g0 = log_ok (mw_logger w)" "lg_heap g0 = lg_heap (mw_logger w)" "lg_syslog_open g0 = lg_syslog_open (mw_logger w)"
    by (simp_all add: g0_def SetMask_def log_ok_def)
  ultimately show ?case using step by (intro exI [of _ g]) simp
qed

lemma save_pid_frame:
  "\<exists>d l. save_pid env w = w\<lparr>ld_disk := d, sw_log := l\<rparr>"
proof -
  obtain r d where f: "fopen CS_PID_FILE ''w+'' (ld_disk w) = (r, d)" by (cases "fopen CS_PID_FILE ''w+'' (ld_disk w)")
  show ?thesis
  proof (cases r)
    case (Inl e)
    then show ?thesis using f by (intro exI [of _ "ld_disk w"]) (auto simp: save_pid_def sys_log_def)
  next
    case (Inr h)
    obtain ok h' d' where "fwrite (key_bytes (show_int (me_pid env) @ [CHR 0x0A])) h d = (ok, h', d')"
      by (metis prod_cases3)
    then show ?thesis using f Inr
      by (intro exI [of _ d']) (cases w; auto simp: save_pid_def sys_log_def)
  qed
qed

lemma become_daemon_up:
  assumes "staff {} w" "logging w" "mw_log_syslog w = None" "\<not> lg_syslog_open (mw_logger w)" "me_daemon env = None"
    "\<forall>a \<in> dom (lg_heap (mw_logger w)). a < ld_next w"
  obtains w' where "become_daemon env w = Return () w'" "staff {} w'" "logging w'" "parts w' = parts w"
    "ld_next w' = Suc (ld_next w)"
proof -
  let ?a = "ld_next w"
  have ok: "log_ok (mw_logger w)" using assms(2) by (simp add: logging_def)
  have a: "0 < ?a" "?a \<notin> dom (lg_heap (mw_logger w))" using assms(1,6) by (auto simp: staff_def)
  obtain l where l: "lg_type l = Syslog" "lg_fh l = None"
    "csLog_ctor_syslog ''clearsyncd'' 1 24 ?a (mw_logger w) = Return () (log_added ?a l (mw_logger w))"
    using csLog_ctor_syslog_eq(2) [OF ok assms(4)] by blast
  let ?w = "w\<lparr>ld_next := Suc ?a, mw_logger := log_added ?a l (mw_logger w), mw_log_syslog := Some ?a\<rparr>"
  have ok': "log_ok (log_added ?a l (mw_logger w))" using log_ok_added [OF ok, of ?a l] l a assms(4) by simp
  obtain d g where pid: "save_pid env ?w = ?w\<lparr>ld_disk := d, sw_log := g\<rparr>" using save_pid_frame by blast
  have eq: "become_daemon env w = Return () (?w\<lparr>ld_disk := d, sw_log := g\<rparr>)"
    using l(3) assms(5) unfolding pid [symmetric] by (cases w) (simp add: become_daemon_def fresh_def log_op_def zoomO_def)
  show thesis
  proof (rule that [OF eq])
    show "staff {} (?w\<lparr>ld_disk := d, sw_log := g\<rparr>)" by (rule staff_frame [OF assms(1)]) simp_all
    show "logging (?w\<lparr>ld_disk := d, sw_log := g\<rparr>)"
      using ok' assms(2,3) a(2) by (auto simp: logging_def log_added_def)
    show "parts (?w\<lparr>ld_disk := d, sw_log := g\<rparr>) = parts w" by (cases w) (simp add: parts_def plugs_def)
  qed simp
qed

section \<open>The timer and the netlink thread\<close>

definition new_thread :: csThread where
  "new_thread = \<lparr>th_id = invalid_id, th_attr = Some CS_THREAD_STACK_SIZE\<rparr>"

lemma hired:
  assumes "ev_wf (sw_ev w)" "a \<notin> client_set w" "kernel_ok env ids"
  obtains e where "csThread_ctor (me_pthread env) a CS_THREAD_STACK_SIZE w = Return () (set_thread a (Some new_thread) (w\<lparr>sw_ev := e\<rparr>))"
    "ev_wf e" "ev_clients e = (ev_clients (sw_ev w))(a \<mapsto> idle_client)"
proof -
  have "a \<notin> set (event_client (sw_ev w))" using assms(1,2) by (simp add: client_set_def ev_wf_def ev_core_def)
  from csThread_ctor_ok [OF assms(1) this, of "me_pthread env" CS_THREAD_STACK_SIZE] show thesis
    using that assms(3) by (auto simp: kernel_ok_def new_thread_def idle_client_def)
qed

text \<open>A thread at a fresh address joins the staff.\<close>

lemma staff_hired:
  assumes "staff T w" "a = ld_next w" "ev_wf e" "ev_clients e = (ev_clients (sw_ev w))(a \<mapsto> c)"
    "sw_ev w' = e" "sw_threads w' = (sw_threads w)(a \<mapsto> t)" "th_attr t \<noteq> None" "sw_joined w' = sw_joined w"
    "mw_this w' = mw_this w" "ld_next w' = Suc (ld_next w)"
  shows "staff (insert a T) w'"
proof -
  have new: "a \<notin> T" "a \<noteq> mw_this w" using assms(1,2) by (auto simp: staff_def)
  then show ?thesis using assms unfolding staff_def client_set_def by (auto simp: less_Suc_eq)
qed

lemma timer_made:
  assumes "staff T w" "kernel_ok env ids" "tt_instance (mw_timer w) = None" "vector_mutex (mw_timer w) = MutexNull"
    "tt_objs (mw_timer w) = Map.empty" "tt_kernel (mw_timer w) = Map.empty"
  obtains w' v where "fresh (\<lambda>a w. bindO (timer_op (csThreadTimer_ctor (me_pthread env) (me_timer_create env) (ClientAt (mw_this w)) a) w)
      (\<lambda>_ w. Return () (w\<lparr>mw_timer_thread := Some a\<rparr>))) w = Return () w'" "staff (insert (ld_next w) T) w'"
    "parts w' = (v, mw_netlink w, Some (ld_next w), mw_netlink_thread w, mw_killed w, plugs w)" "logging w' = logging w"
    "ld_next w' = Suc (ld_next w)" "dom (tt_objs v) = {ld_next w}" "tt_instance v = Some (ld_next w)"
    "dom (tt_kernel v) = {tt_timer_id (the (tt_objs v (ld_next w)))}"
proof -
  let ?a = "ld_next w" and ?w0 = "w\<lparr>ld_next := Suc (ld_next w)\<rparr>"
  let ?t = "with_sys ?w0 (mw_timer ?w0)"
  have w0: "mw_timer ?w0 = mw_timer w" by (cases w) simp
  obtain i where i: "me_timer_create env = Inr i" using assms(2) by (auto simp: kernel_ok_def)
  have pre: "ev_wf (sw_ev ?t)" "?a \<notin> client_set ?t" using assms(1) by (auto simp: staff_def client_set_def)
  obtain e where e: "csThread_ctor (me_pthread env) ?a CS_THREAD_STACK_SIZE ?t = Return () (set_thread ?a (Some new_thread) (?t\<lparr>sw_ev := e\<rparr>))"
    "ev_wf e" "ev_clients e = (ev_clients (sw_ev ?t))(?a \<mapsto> idle_client)"
    using hired [OF pre assms(2)] by blast
  let ?v = "(set_thread ?a (Some new_thread) (?t\<lparr>sw_ev := e\<rparr>))\<lparr>vector_mutex := MutexFree, tt_instance := Some ?a,
    tt_objs := [?a \<mapsto> \<lparr>tt_parent = ClientAt (mw_this w), tt_timer_id = i\<rparr>], tt_kernel := [i \<mapsto> False]\<rparr>"
  have "csThreadTimer_ctor (me_pthread env) (me_timer_create env) (ClientAt (mw_this w)) ?a ?t = Return () ?v"
    using e(1) i assms(3-6) by (simp add: csThreadTimer_ctor_def set_thread_def with_sys_def w0)
  from timer_op_Return [where f = "csThreadTimer_ctor (me_pthread env) (me_timer_create env) (ClientAt (mw_this w)) ?a", OF this]
  have op: "fresh (\<lambda>a w. bindO (timer_op (csThreadTimer_ctor (me_pthread env) (me_timer_create env) (ClientAt (mw_this w)) a) w)
      (\<lambda>_ w. Return () (w\<lparr>mw_timer_thread := Some a\<rparr>))) w = Return () ((with_sys ?v (?w0\<lparr>mw_timer := ?v\<rparr>))\<lparr>mw_timer_thread := Some ?a\<rparr>)"
    by (simp add: fresh_def)
  let ?w' = "(with_sys ?v (?w0\<lparr>mw_timer := ?v\<rparr>))\<lparr>mw_timer_thread := Some ?a\<rparr>"
  show thesis
  proof (rule that [OF op])
    show "staff (insert ?a T) ?w'"
      by (rule staff_hired [OF assms(1) refl e(2), where c = idle_client and t = new_thread])
        (use e(3) in \<open>cases w; simp add: with_sys_def set_thread_def new_thread_def\<close>)+
    show "parts ?w' = (?v, mw_netlink w, Some ?a, mw_netlink_thread w, mw_killed w, plugs w)" "logging ?w' = logging w" "ld_next ?w' = Suc ?a"
      by (cases w; simp add: parts_def plugs_def with_sys_def logging_def)+
  qed (simp_all add: set_thread_def)
qed

lemma netlink_made:
  assumes "staff T w" "kernel_ok env ids" "nt_instance (mw_netlink w) = None" "nt_objs (mw_netlink w) = Map.empty"
    "nt_open (mw_netlink w) = []"
  obtains w' u where "fresh (\<lambda>a w. bindO (netlink_op (csThreadNetlink_ctor (me_pthread env) (me_nl_socket env) (me_nl_bind env)
      (me_page env) (ClientAt (mw_this w)) a) w) (\<lambda>_ w. Return () (w\<lparr>mw_netlink_thread := Some a\<rparr>))) w = Return () w'"
    "staff (insert (ld_next w) T) w'" "parts w' = (mw_timer w, u, mw_timer_thread w, Some (ld_next w), mw_killed w, plugs w)"
    "logging w' = logging w" "ld_next w' = Suc (ld_next w)" "dom (nt_objs u) = {ld_next w}" "nt_instance u = Some (ld_next w)"
    "nt_fd (the (nt_objs u (ld_next w))) \<noteq> -1" "nt_open u = [nt_fd (the (nt_objs u (ld_next w)))]"
proof -
  let ?a = "ld_next w" and ?w0 = "w\<lparr>ld_next := Suc (ld_next w)\<rparr>"
  let ?t = "with_sys ?w0 (mw_netlink ?w0)"
  have w0: "mw_netlink ?w0 = mw_netlink w" by (cases w) simp
  obtain fd where fd: "me_nl_socket env = Inr fd" "fd \<noteq> -1" "me_nl_bind env = None" using assms(2) by (auto simp: kernel_ok_def)
  have pre: "ev_wf (sw_ev ?t)" "?a \<notin> client_set ?t" using assms(1) by (auto simp: staff_def client_set_def)
  obtain e where e: "csThread_ctor (me_pthread env) ?a CS_THREAD_STACK_SIZE ?t = Return () (set_thread ?a (Some new_thread) (?t\<lparr>sw_ev := e\<rparr>))"
    "ev_wf e" "ev_clients e = (ev_clients (sw_ev ?t))(?a \<mapsto> idle_client)"
    using hired [OF pre assms(2)] by blast
  let ?v = "sys_log Level_Debug ''%s: Initialized.'' [nt_name] ((set_thread ?a (Some new_thread) (?t\<lparr>sw_ev := e\<rparr>))\<lparr>nt_instance := Some ?a,
    nt_open := [fd], nt_objs := [?a \<mapsto> \<lparr>nt_parent = ClientAt (mw_this w), nt_events = [], nt_fd = fd,
      nt_buffer = replicate (me_page env) 0, nt_seq = 0\<rparr>]\<rparr>)"
  let ?f = "csThreadNetlink_ctor (me_pthread env) (me_nl_socket env) (me_nl_bind env) (me_page env) (ClientAt (mw_this w)) ?a"
  have "?f ?t = Return () ?v"
    using e(1) fd(1,3) assms(3-5) by (simp add: csThreadNetlink_ctor_def set_thread_def with_sys_def w0)
  then have "netlink_op ?f ?w0 = Return () (with_sys ?v (?w0\<lparr>mw_netlink := ?v\<rparr>))"
    by (simp add: netlink_op_def zoomO_def Let_def)
  then have op: "fresh (\<lambda>a w. bindO (netlink_op (csThreadNetlink_ctor (me_pthread env) (me_nl_socket env) (me_nl_bind env)
      (me_page env) (ClientAt (mw_this w)) a) w) (\<lambda>_ w. Return () (w\<lparr>mw_netlink_thread := Some a\<rparr>))) w =
      Return () ((with_sys ?v (?w0\<lparr>mw_netlink := ?v\<rparr>))\<lparr>mw_netlink_thread := Some ?a\<rparr>)"
    by (simp add: fresh_def)
  let ?w' = "(with_sys ?v (?w0\<lparr>mw_netlink := ?v\<rparr>))\<lparr>mw_netlink_thread := Some ?a\<rparr>"
  show thesis
  proof (rule that [OF op])
    show "staff (insert ?a T) ?w'"
      by (rule staff_hired [OF assms(1) refl e(2), where c = idle_client and t = new_thread])
        (use e(3) in \<open>cases w; simp add: with_sys_def set_thread_def new_thread_def sys_log_def\<close>)+
    show "parts ?w' = (mw_timer w, ?v, mw_timer_thread w, Some ?a, mw_killed w, plugs w)" "logging ?w' = logging w" "ld_next ?w' = Suc ?a"
      by (cases w; simp add: parts_def plugs_def with_sys_def logging_def)+
  qed (use fd(2) in \<open>simp_all add: set_thread_def sys_log_def\<close>)
qed

lemma make_threads_up:
  assumes "staff {} w" "kernel_ok env ids" "tt_instance (mw_timer w) = None" "vector_mutex (mw_timer w) = MutexNull"
    "tt_objs (mw_timer w) = Map.empty" "tt_kernel (mw_timer w) = Map.empty" "nt_instance (mw_netlink w) = None"
    "nt_objs (mw_netlink w) = Map.empty" "nt_open (mw_netlink w) = []" "logging w"
  obtains w' t n where "make_threads env w = Return () w'" "staff {t, n} w'" "t \<noteq> n" "machinery t n w'" "logging w'"
    "mw_killed w' = mw_killed w" "ld_next w' = ld_next w + 2" "plugs w' = plugs w"
proof -
  obtain w1 v where w1: "fresh (\<lambda>a w. bindO (timer_op (csThreadTimer_ctor (me_pthread env) (me_timer_create env) (ClientAt (mw_this w)) a) w)
      (\<lambda>_ w. Return () (w\<lparr>mw_timer_thread := Some a\<rparr>))) w = Return () w1" "staff {ld_next w} w1"
    "parts w1 = (v, mw_netlink w, Some (ld_next w), mw_netlink_thread w, mw_killed w, plugs w)" "logging w1 = logging w"
    "ld_next w1 = Suc (ld_next w)" "dom (tt_objs v) = {ld_next w}" "tt_instance v = Some (ld_next w)"
    "dom (tt_kernel v) = {tt_timer_id (the (tt_objs v (ld_next w)))}"
    by (rule timer_made [OF assms(1-6)])
  have nl: "nt_instance (mw_netlink w1) = None" "nt_objs (mw_netlink w1) = Map.empty" "nt_open (mw_netlink w1) = []"
    using w1(3) assms(7-9) by (simp_all add: parts_def)
  obtain w2 u where w2: "fresh (\<lambda>a w. bindO (netlink_op (csThreadNetlink_ctor (me_pthread env) (me_nl_socket env) (me_nl_bind env)
      (me_page env) (ClientAt (mw_this w)) a) w) (\<lambda>_ w. Return () (w\<lparr>mw_netlink_thread := Some a\<rparr>))) w1 = Return () w2"
    "staff {ld_next w1, ld_next w} w2" "parts w2 = (mw_timer w1, u, mw_timer_thread w1, Some (ld_next w1), mw_killed w1, plugs w1)"
    "logging w2 = logging w1" "ld_next w2 = Suc (ld_next w1)" "dom (nt_objs u) = {ld_next w1}" "nt_instance u = Some (ld_next w1)"
    "nt_fd (the (nt_objs u (ld_next w1))) \<noteq> -1" "nt_open u = [nt_fd (the (nt_objs u (ld_next w1)))]"
    by (rule netlink_made [OF w1(2) assms(2) nl])
  show thesis
  proof (rule that [of w2 "ld_next w" "ld_next w1"])
    show "make_threads env w = Return () w2" unfolding make_threads_def w1(1) bindO.simps by (rule w2(1))
    show "staff {ld_next w, ld_next w1} w2" using w2(2) by (simp add: insert_commute)
  qed (use w1 w2 assms(10) in \<open>auto simp: machinery_def parts_def\<close>)
qed

section \<open>The configuration\<close>

definition engine :: "main_world \<Rightarrow> timer_world \<times> netlink_world \<times> nat option \<times> nat option \<times> u64 list" where
  "engine w = (mw_timer w, mw_netlink w, mw_timer_thread w, mw_netlink_thread w, mw_killed w)"

text \<open>The plugin objects and the open libraries are those of the plugin map.\<close>

definition loaded :: "main_world \<Rightarrow> bool" where
  "loaded w \<longleftrightarrow> dom (ld_objs w) = addrs (mw_plugin w) \<and> distinct (map plugin_at (mw_plugin w)) \<and>
     distinct (map fst (mw_plugin w)) \<and> mset (ld_open w) = mset (map (\<lambda>x. ld_handle (snd x)) (mw_plugin w))"

lemma omap_update_new: "omap_lookup m k = None \<Longrightarrow> mset (omap_update k v m) = add_mset (k, v) (mset m)"
  by (induction m) (auto split: if_splits)

lemma loaded_update:
  assumes "loaded w" "omap_lookup (mw_plugin w) n = None" "ld_plugin l \<notin> addrs (mw_plugin w)"
    "plugs w' = ((ld_objs w)(ld_plugin l \<mapsto> p), ld_handle l # ld_open w, omap_update n l (mw_plugin w))"
  shows "loaded w'" "addrs (mw_plugin w') = insert (ld_plugin l) (addrs (mw_plugin w))"
proof -
  have m: "mset (mw_plugin w') = add_mset (n, l) (mset (mw_plugin w))"
    using assms(4) omap_update_new [OF assms(2)] by (simp add: plugs_def)
  have set: "set (mw_plugin w') = insert (n, l) (set (mw_plugin w))" using arg_cong [OF m, of set_mset] by simp
  then show ad: "addrs (mw_plugin w') = insert (ld_plugin l) (addrs (mw_plugin w))" by simp
  have "mset (map plugin_at (mw_plugin w')) = mset (ld_plugin l # map plugin_at (mw_plugin w))" using m by simp
  then have "distinct (map plugin_at (mw_plugin w'))" using assms(1,3) mset_eq_imp_distinct_iff
    by (metis distinct.simps(2) list.set_map loaded_def)
  moreover have "mset (map fst (mw_plugin w')) = mset (n # map fst (mw_plugin w))" using m by simp
  then have "distinct (map fst (mw_plugin w')) = distinct (n # map fst (mw_plugin w))" by (rule mset_eq_imp_distinct_iff)
  then have "distinct (map fst (mw_plugin w'))" using assms(1,2) by (simp add: loaded_def omap_lookup_def map_of_eq_None_iff)
  moreover have "mset (map (\<lambda>x. ld_handle (snd x)) (mw_plugin w')) = add_mset (ld_handle l) (mset (ld_open w))"
    using m assms(1) by (simp add: loaded_def)
  moreover have "dom (ld_objs w') = insert (ld_plugin l) (dom (ld_objs w))" "ld_open w' = ld_handle l # ld_open w"
    using assms(4) by (auto simp: plugs_def)
  ultimately show "loaded w'" using assms(1) ad unfolding loaded_def by simp
qed

lemma load_plugin_up:
  assumes "staff T w" "kernel_ok env ids" "me_dlopen env (c_str lib) = Inr h" "me_dlsym_error env h = None" "\<not> me_null env h"
  obtains w' l p where "load_plugin env lib n CS_THREAD_STACK_SIZE w = Return (Some l) w'" "ld_plugin l = ld_next w"
    "staff (insert (ld_next w) T) w'" "engine w' = engine w" "logging w' = logging w" "ld_next w' = Suc (ld_next w)"
    "plugs w' = ((ld_objs w)(ld_plugin l \<mapsto> p), ld_handle l # ld_open w, mw_plugin w)"
    "mw_filename w' = mw_filename w" "mw_plugin_dir w' = mw_plugin_dir w"
proof -
  let ?a = "ld_next w" and ?w0 = "w\<lparr>ld_open := h # ld_open w, ld_next := Suc (ld_next w)\<rparr>"
  have pre: "ev_wf (sw_ev ?w0)" "?a \<notin> client_set ?w0" using assms(1) by (auto simp: staff_def client_set_def)
  obtain e where e: "csThread_ctor (me_pthread env) ?a CS_THREAD_STACK_SIZE ?w0 = Return () (set_thread ?a (Some new_thread) (?w0\<lparr>sw_ev := e\<rparr>))"
    "ev_wf e" "ev_clients e = (ev_clients (sw_ev ?w0))(?a \<mapsto> idle_client)"
    using hired [OF pre assms(2)] by blast
  let ?p = "csPlugin_ctor n (mw_this w) CS_THREAD_STACK_SIZE (ld_disk w)"
  let ?w1 = "sys_log Level_Debug ''Plugin loaded: %s'' [ArgS (c_str lib)] ((set_thread ?a (Some new_thread) (?w0\<lparr>sw_ev := e\<rparr>))
    \<lparr>ld_objs := (ld_objs w)(?a \<mapsto> ?p\<lparr>pl_log := []\<rparr>), sw_log := sw_log w @ pl_log ?p\<rparr>)"
  let ?l = "\<lparr>ld_so_name = lib, ld_handle = h, ld_plugin = ?a\<rparr>"
  have eq: "load_plugin env lib n CS_THREAD_STACK_SIZE w = Return (Some ?l) ?w1"
    using e(1) assms(3-5) by (simp add: load_plugin_def csPluginLoader_ctor_def csPluginInit_def set_thread_def Let_def)
  show thesis
  proof (rule that [OF eq])
    show "staff (insert ?a T) ?w1"
      by (rule staff_hired [OF assms(1) refl e(2), where c = idle_client and t = new_thread])
        (use e(3) in \<open>cases w; simp add: set_thread_def new_thread_def sys_log_def\<close>)+
    show "engine ?w1 = engine w" "logging ?w1 = logging w"
      by (cases w; simp add: engine_def set_thread_def sys_log_def logging_def)+
  qed (simp_all add: set_thread_def sys_log_def plugs_def)
qed

text \<open>A file of the plugin directory that is read, and a file that defines the plugin \<open>n\<close> with the
  library \<open>lib\<close>, which can be loaded, and the event filter \<open>f\<close>.\<close>

definition taken :: "main_env \<Rightarrow> string \<times> dirent_type \<Rightarrow> bool" where
  "taken env e \<longleftrightarrow> snd e \<in> {DT_REG, DT_LNK, DT_UNKNOWN} \<and> me_regexec env (fst e) \<noteq> REG_NOMATCH"

definition plugin_file :: "main_env \<Rightarrow> string \<Rightarrow> string \<times> string \<times> bytes \<Rightarrow> bool" where
  "plugin_file env path d \<longleftrightarrow> (case d of (n, lib, f) \<Rightarrow> text_filter f \<noteq> [] \<and>
     (\<exists>reads evs. me_fopen env path (me_page env) = Inr reads \<and> expat_events (me_expat env) [] reads = Some evs \<and>
       map fst evs = node_events (XElem ''plugin'' [(''name'', n), (''library'', lib)] [XElem ''event-filter'' [] [XText f]])) \<and>
     (\<exists>h. me_dlopen env (c_str lib) = Inr h \<and> me_dlsym_error env h = None \<and> \<not> me_null env h))"

text \<open>The hypothesis on a plugin's own \<open>SetConfigurationFile\<close>: it accepts its file, and its effects
  are its own; it may log.\<close>

definition conf_quiet :: "main_env \<Rightarrow> bool" where
  "conf_quiet env \<longleftrightarrow> (\<forall>a f w. \<exists>l. me_set_conf env a f w = Return () (w\<lparr>sw_log := l\<rparr>))"

lemma engine_frame:
  "engine (sys_log l f args w) = engine w" "engine (w\<lparr>sw_log := g\<rparr>) = engine w" "engine (w\<lparr>mw_plugin := m\<rparr>) = engine w"
  "engine (w\<lparr>mw_filter := q\<rparr>) = engine w" "engine (w\<lparr>mw_filename := d\<rparr>) = engine w"
  "logging (w\<lparr>sw_log := g\<rparr>) = logging w" "logging (w\<lparr>mw_plugin := m\<rparr>) = logging w" "logging (w\<lparr>mw_filter := q\<rparr>) = logging w"
  "logging (w\<lparr>mw_filename := d\<rparr>) = logging w" "logging (sys_log l f args w) = logging w"
  by (cases w; simp add: engine_def logging_def sys_log_def)+

lemma scan_file_up:
  assumes "staff T w" "kernel_ok env ids" "conf_quiet env" "w = xp_client x" "mw_plugin_dir w = CS_PLUGIN_CONF" "xml_ok x" "xp_stack x = []"
    "plugin_file env (CS_PLUGIN_CONF @ ''/'' @ name) (n, lib, f)" "omap_lookup (mw_plugin w) n = None"
  obtains x' l p where "scan_file env name x = Return () x'" "xml_ok x'" "xp_stack x' = []" "ld_plugin l = ld_next w"
    "staff (insert (ld_next w) T) (xp_client x')" "engine (xp_client x') = engine w" "logging (xp_client x') = logging w"
    "ld_next (xp_client x') = Suc (ld_next w)" "mw_plugin_dir (xp_client x') = CS_PLUGIN_CONF"
    "plugs (xp_client x') = ((ld_objs w)(ld_plugin l \<mapsto> p), ld_handle l # ld_open w, omap_update n l (mw_plugin w))"
proof -
  obtain reads evs h where c: "text_filter f \<noteq> []" "me_fopen env (CS_PLUGIN_CONF @ ''/'' @ name) (me_page env) = Inr reads"
    "expat_events (me_expat env) [] reads = Some evs"
    "map fst evs = node_events (XElem ''plugin'' [(''name'', n), (''library'', lib)] [XElem ''event-filter'' [] [XText f]])"
    "me_dlopen env (c_str lib) = Inr h" "me_dlsym_error env h = None" "\<not> me_null env h"
    using assms(8) unfolding plugin_file_def by auto
  let ?w0 = "reading name x"
  have w0: "?w0 = w\<lparr>mw_filename := CS_PLUGIN_CONF @ ''/'' @ name\<rparr>" using assms(4,5) by (simp add: reading_def)
  have st0: "staff T ?w0" unfolding w0 by (rule staff_frame [OF assms(1)]) simp_all
  obtain w1 l p where w1: "load_plugin env lib n CS_THREAD_STACK_SIZE ?w0 = Return (Some l) w1" "ld_plugin l = ld_next ?w0"
    "staff (insert (ld_next ?w0) T) w1" "engine w1 = engine ?w0" "logging w1 = logging ?w0" "ld_next w1 = Suc (ld_next ?w0)"
    "plugs w1 = ((ld_objs ?w0)(ld_plugin l \<mapsto> p), ld_handle l # ld_open ?w0, mw_plugin ?w0)"
    "mw_filename w1 = mw_filename ?w0" "mw_plugin_dir w1 = mw_plugin_dir ?w0"
    by (rule load_plugin_up [OF st0 assms(2) c(5-7)])
  obtain g where g: "me_set_conf env (ld_plugin l) (mw_filename w1) w1 = Return () (w1\<lparr>sw_log := g\<rparr>)"
    using assms(3) unfolding conf_quiet_def by blast
  have ob: "ld_objs (w1\<lparr>sw_log := g\<rparr>) (ld_plugin l) = Some p" using w1(7) by (simp add: plugs_def)
  have look: "omap_lookup (mw_plugin ?w0) n = None" using assms(9) by (simp add: w0)
  have path: "me_fopen env (mw_filename ?w0) (me_page env) = Inr reads" using c(2) by (simp add: w0)
  obtain x' m v where x': "scan_file env name x = Return () x'" "xml_ok x'" "xp_stack x' = []"
    "xp_client x' = (sys_log Level_Debug ''Plugin: %s (%s), stack size: %ld'' [ArgS (c_str n), ArgS (c_str lib), ArgI (sint CS_THREAD_STACK_SIZE)]
      ((w1\<lparr>sw_log := g\<rparr>)\<lparr>mw_plugin := omap_update n l (mw_plugin (w1\<lparr>sw_log := g\<rparr>))\<rparr>))\<lparr>mw_filter := m, sw_log := v\<rparr>"
    using plugin_file_read [OF assms(6,7) refl path c(3,4) look w1(1) g ob c(1)] unfolding filter_frame_def by blast
  have fr: "sw_ev (xp_client x') = sw_ev w1" "sw_threads (xp_client x') = sw_threads w1" "sw_joined (xp_client x') = sw_joined w1"
    "mw_this (xp_client x') = mw_this w1" "ld_next (xp_client x') = ld_next w1" "mw_plugin_dir (xp_client x') = mw_plugin_dir w1"
    "plugs (xp_client x') = (ld_objs w1, ld_open w1, omap_update n l (mw_plugin w1))"
    unfolding x'(4) by (simp_all add: sys_log_def plugs_def)
  have eng: "engine (xp_client x') = engine w1" "logging (xp_client x') = logging w1" unfolding x'(4) by (simp_all add: engine_frame)
  show thesis
  proof (rule that [of x' l p])
    show "staff (insert (ld_next w) T) (xp_client x')"
      by (rule staff_frame [of _ w1]) (use w1(3) fr in \<open>simp_all add: w0\<close>)
  qed (use x'(1-3) w1 fr eng assms(5) in \<open>simp_all add: w0 engine_frame plugs_def\<close>)
qed

definition scanned :: "nat set \<Rightarrow> conf_world \<Rightarrow> bool" where
  "scanned W x \<longleftrightarrow> xml_ok x \<and> xp_stack x = [] \<and> staff (W \<union> addrs (mw_plugin (xp_client x))) (xp_client x) \<and>
     W \<inter> addrs (mw_plugin (xp_client x)) = {} \<and> loaded (xp_client x) \<and> mw_plugin_dir (xp_client x) = CS_PLUGIN_CONF"

abbreviation plugin_name :: "(string \<Rightarrow> string \<times> string \<times> bytes) \<Rightarrow> string \<times> dirent_type \<Rightarrow> string" where
  "plugin_name d e \<equiv> fst (d (fst e))"

abbreviation plugin_names :: "main_world \<Rightarrow> string set" where
  "plugin_names w \<equiv> fst ` set (mw_plugin w)"

lemma scan_skip: "\<not> taken env e \<Longrightarrow> scan_loop env (Inr e # es) x = scan_loop env es x"
  by (cases e) (auto simp: taken_def)

lemma scan_take:
  "taken env e \<Longrightarrow> scan_loop env (Inr e # es) x = bindO (scan_file env (fst e) x) (\<lambda>_ x. scan_loop env es x)"
  by (cases e) (auto simp: taken_def)

text \<open>One file of the plugin directory adds its plugin.\<close>

lemma scanned_step:
  assumes "scanned W x" "kernel_ok env ids" "conf_quiet env" "plugin_file env (CS_PLUGIN_CONF @ ''/'' @ name) d"
    "fst d \<notin> plugin_names (xp_client x)"
  obtains x' where "scan_file env name x = Return () x'" "scanned W x'" "engine (xp_client x') = engine (xp_client x)"
    "logging (xp_client x') = logging (xp_client x)" "ld_next (xp_client x') = Suc (ld_next (xp_client x))"
    "plugin_names (xp_client x') = insert (fst d) (plugin_names (xp_client x))"
proof -
  let ?w = "xp_client x" and ?a = "ld_next (xp_client x)"
  obtain n lib f where d: "d = (n, lib, f)" by (cases d)
  note sc = assms(1) [unfolded scanned_def]
  have st: "staff (W \<union> addrs (mw_plugin ?w)) ?w" "W \<inter> addrs (mw_plugin ?w) = {}" "loaded ?w" using sc by blast+
  have look: "omap_lookup (mw_plugin ?w) n = None" using assms(5) d by (simp add: omap_lookup_def map_of_eq_None_iff)
  obtain x' l p where x': "scan_file env name x = Return () x'" "xml_ok x'" "xp_stack x' = []" "ld_plugin l = ?a"
    "staff (insert ?a (W \<union> addrs (mw_plugin ?w))) (xp_client x')" "engine (xp_client x') = engine ?w" "logging (xp_client x') = logging ?w"
    "ld_next (xp_client x') = Suc ?a" "mw_plugin_dir (xp_client x') = CS_PLUGIN_CONF"
    "plugs (xp_client x') = ((ld_objs ?w)(ld_plugin l \<mapsto> p), ld_handle l # ld_open ?w, omap_update n l (mw_plugin ?w))"
    by (rule scan_file_up [OF st(1) assms(2,3) refl _ _ _ assms(4) [unfolded d] look]) (use sc in simp_all)
  have new: "?a \<notin> W \<union> addrs (mw_plugin ?w)" using st(1) unfolding staff_def by blast
  have new': "ld_plugin l \<notin> addrs (mw_plugin ?w)" using new by (simp add: x'(4))
  note up = loaded_update [OF st(3) look new' x'(10)]
  have "plugin_names (xp_client x') = insert (fst d) (plugin_names ?w)"
    using x'(10) by (simp add: plugs_def keys_omap_update d)
  moreover have "W \<union> addrs (mw_plugin (xp_client x')) = insert ?a (W \<union> addrs (mw_plugin ?w))" using up(2) x'(4) by simp
  moreover have "W \<inter> addrs (mw_plugin (xp_client x')) = {}" using up(2) x'(4) new st(2) by simp
  ultimately show thesis using that [OF x'(1)] x' up(1) by (simp add: scanned_def)
qed

lemma scan_loop_up:
  assumes "kernel_ok env ids" "conf_quiet env"
  shows "scanned W x \<Longrightarrow> \<forall>e \<in> set es. taken env e \<longrightarrow> plugin_file env (CS_PLUGIN_CONF @ ''/'' @ fst e) (d (fst e)) \<Longrightarrow>
    distinct (map (plugin_name d) (filter (taken env) es)) \<Longrightarrow>
    plugin_name d ` set (filter (taken env) es) \<inter> plugin_names (xp_client x) = {} \<Longrightarrow>
    \<exists>x'. scan_loop env (map Inr es) x = Return () x' \<and> scanned W x' \<and> engine (xp_client x') = engine (xp_client x) \<and>
      logging (xp_client x') = logging (xp_client x) \<and> ld_next (xp_client x') \<le> ld_next (xp_client x) + length es \<and>
      plugin_names (xp_client x') = plugin_names (xp_client x) \<union> plugin_name d ` set (filter (taken env) es)"
proof (induction es arbitrary: x)
  case (Cons e es)
  show ?case
  proof (cases "taken env e")
    case False
    then show ?thesis using Cons.IH [of x] Cons.prems scan_skip [OF False, of "map Inr es" x] by force
  next
    case True
    obtain x1 where x1: "scan_file env (fst e) x = Return () x1" "scanned W x1" "engine (xp_client x1) = engine (xp_client x)"
      "logging (xp_client x1) = logging (xp_client x)" "ld_next (xp_client x1) = Suc (ld_next (xp_client x))"
      "plugin_names (xp_client x1) = insert (plugin_name d e) (plugin_names (xp_client x))"
      by (rule scanned_step [OF Cons.prems(1) assms, of "fst e" "d (fst e)"]) (use Cons.prems(2,4) True in auto)
    have rest: "\<forall>e \<in> set es. taken env e \<longrightarrow> plugin_file env (CS_PLUGIN_CONF @ ''/'' @ fst e) (d (fst e))"
      "distinct (map (plugin_name d) (filter (taken env) es))"
      "plugin_name d ` set (filter (taken env) es) \<inter> plugin_names (xp_client x1) = {}"
      using Cons.prems(2-4) True x1(6) by auto
    obtain x2 where "scan_loop env (map Inr es) x1 = Return () x2" "scanned W x2" "engine (xp_client x2) = engine (xp_client x1)"
      "logging (xp_client x2) = logging (xp_client x1)" "ld_next (xp_client x2) \<le> ld_next (xp_client x1) + length es"
      "plugin_names (xp_client x2) = plugin_names (xp_client x1) \<union> plugin_name d ` set (filter (taken env) es)"
      using Cons.IH [OF x1(2) rest] by blast
    then show ?thesis using x1 True scan_take [OF True, of "map Inr es" x] by (intro exI [of _ x2]) simp
  qed
qed simp

text \<open>A configuration that is well-formed: an empty \<open>csconf\<close> element of a version that is not too
  new, and in the plugin directory, if it can be read, the entries \<open>es\<close>, of which those that
  are taken define plugins of different names.\<close>

definition good_conf :: "main_env \<Rightarrow> string \<Rightarrow> (string \<times> dirent_type) list \<Rightarrow> (string \<Rightarrow> string \<times> string \<times> bytes) \<Rightarrow> bool" where
  "good_conf env name es d \<longleftrightarrow> (\<exists>reads evs v. me_fopen env name (me_page env) = Inr reads \<and>
     expat_events (me_expat env) [] reads = Some evs \<and> map fst evs = node_events (XElem ''csconf'' [(''version'', v)] []) \<and>
     atoi (c_str v) \<le> CS_CONF_VERSION) \<and>
     (case me_readdir env (c_str CS_PLUGIN_CONF) of Inl err \<Rightarrow> es = [] | Inr ds \<Rightarrow> ds = map Inr es) \<and>
     (\<forall>e \<in> set es. taken env e \<longrightarrow> plugin_file env (CS_PLUGIN_CONF @ ''/'' @ fst e) (d (fst e))) \<and>
     distinct (map (plugin_name d) (filter (taken env) es))"

lemma csconf_visit:
  assumes "atoi (c_str v) \<le> CS_CONF_VERSION"
  shows "\<exists>l. visit_node (main_handlers env) [] (XElem ''csconf'' [(''version'', v)] []) w =
    Some ([], w\<lparr>mw_version := atoi (c_str v), sw_log := l\<rparr>)"
  using assms
  by (simp add: main_handlers_def main_ParseElementOpen_def main_ParseElementClose_def csXmlTag_ctor_def tag_is_def
      sys_log_def Let_def) blast

text \<open>Changes that do not matter to the plugins.\<close>

definition aside :: "main_world \<Rightarrow> main_world \<Rightarrow> bool" where
  "aside w w' \<longleftrightarrow> (\<exists>v f l. w' = w\<lparr>mw_version := v, mw_filename := f, sw_log := l\<rparr>)"

lemma aside_frame:
  assumes "aside w w'"
  shows "engine w' = engine w" "logging w' = logging w" "plugs w' = plugs w" "ld_next w' = ld_next w"
    "mw_plugin_dir w' = mw_plugin_dir w" "staff T w \<Longrightarrow> staff T w'" "mw_plugin w' = mw_plugin w"
proof -
  obtain v f l where w': "w' = w\<lparr>mw_version := v, mw_filename := f, sw_log := l\<rparr>" using assms unfolding aside_def by blast
  show "engine w' = engine w" "logging w' = logging w" unfolding w' by (cases w; simp add: engine_def logging_def)+
  show "staff T w'" if "staff T w" unfolding w' by (rule staff_frame [OF that]) simp_all
  show "plugs w' = plugs w" "ld_next w' = ld_next w" "mw_plugin_dir w' = mw_plugin_dir w" "mw_plugin w' = mw_plugin w"
    unfolding w' by (simp_all add: plugs_def)
qed

lemma scanned_aside:
  assumes "scanned W x" "aside (xp_client x) (xp_client x')" "xml_ok x'" "xp_stack x' = []"
  shows "scanned W x'"
proof -
  note f = aside_frame [OF assms(2)]
  have "loaded (xp_client x') = loaded (xp_client x)" using f(3) by (simp add: loaded_def plugs_def)
  then show ?thesis using assms(1,3,4) f(5-7) by (simp add: scanned_def)
qed

lemma main_conf_read:
  assumes "good_conf env name es d" "xml_ok x" "xp_stack x = []" "xp_conf x = Some name"
  obtains x' where "bindO (csConf_Reload (me_page env) (conf_log Level_Debug ''Reload configuration.'' [] x)) (\<lambda>_ x.
      Parse (main_handlers env) (me_expat env) (me_fopen env) (me_page env) None x) = Return () x'"
    "xml_ok x'" "xp_stack x' = []" "aside (xp_client x) (xp_client x')"
proof -
  obtain reads evs v where c: "me_fopen env name (me_page env) = Inr reads"
    "expat_events (me_expat env) [] reads = Some evs" "map fst evs = node_events (XElem ''csconf'' [(''version'', v)] [])"
    "atoi (c_str v) \<le> CS_CONF_VERSION" using assms(1) unfolding good_conf_def by blast
  let ?x1 = "(conf_log Level_Debug ''Reload configuration.'' [] x)\<lparr>xp_page_size := me_page env, xp_buffer := replicate (me_page env) 0\<rparr>"
  have x1: "xml_ok ?x1" "xp_stack ?x1 = []" "xp_conf ?x1 = Some name" using assms(2-4) by (simp_all add: conf_log_def xml_ok_def)
  obtain l where l: "visit_node (main_handlers env) [] (XElem ''csconf'' [(''version'', v)] []) (xp_client ?x1) =
      Some ([], (xp_client ?x1)\<lparr>mw_version := atoi (c_str v), sw_log := l\<rparr>)" using csconf_visit [OF c(4)] by blast
  obtain x2 where x2: "Parse (main_handlers env) (me_expat env) (me_fopen env) (me_page env) None ?x1 = Return () x2"
    "xp_client x2 = (xp_client ?x1)\<lparr>mw_version := atoi (c_str v), sw_log := l\<rparr>" "xp_stack x2 = []" "xml_ok x2"
    using Parse_document [where fopen = "me_fopen env" and page = "me_page env", OF x1 c(1-3) l] by blast
  have "aside (xp_client x) (xp_client x2)"
    unfolding aside_def x2(2) by (intro exI [of _ "atoi (c_str v)"] exI [of _ "mw_filename (xp_client x)"] exI [of _ l])
      (simp add: conf_log_def sys_log_def)
  then show thesis using that [of x2] x2 assms(3) by (simp add: Reset_empty conf_log_def)
qed

lemma reload_up:
  assumes "good_conf env name es d" "kernel_ok env ids" "conf_quiet env" "scanned W x" "xp_conf x = Some name" "mw_plugin (xp_client x) = []"
  obtains x' where "Reload env x = Return () x'" "scanned W x'" "engine (xp_client x') = engine (xp_client x)"
    "logging (xp_client x') = logging (xp_client x)" "ld_next (xp_client x') \<le> ld_next (xp_client x) + length es"
    "plugin_names (xp_client x') = plugin_name d ` set (filter (taken env) es)"
proof -
  obtain x1 where x1: "bindO (csConf_Reload (me_page env) (conf_log Level_Debug ''Reload configuration.'' [] x)) (\<lambda>_ x.
      Parse (main_handlers env) (me_expat env) (me_fopen env) (me_page env) None x) = Return () x1"
    "xml_ok x1" "xp_stack x1 = []" "aside (xp_client x) (xp_client x1)"
    using main_conf_read [OF assms(1) _ _ assms(5)] assms(4) unfolding scanned_def by blast
  note f1 = aside_frame [OF x1(4)] and s1 = scanned_aside [OF assms(4) x1(4,2,3)]
  have dir: "mw_plugin_dir (xp_client x1) = CS_PLUGIN_CONF" using s1 by (simp add: scanned_def)
  let ?r = "case me_readdir env (c_str CS_PLUGIN_CONF) of
      Inl err \<Rightarrow> Return () (conf_log Level_Warning ''Error opening plugin-dir: %s: %s''
        [ArgS (c_str CS_PLUGIN_CONF), ArgS (me_strerror env err)] x1)
    | Inr entries \<Rightarrow> scan_loop env entries x1"
  have empty: "mw_plugin (xp_client x1) = []" using f1(7) assms(6) by simp
  have "\<exists>x2. ?r = Return () x2 \<and> scanned W x2 \<and> engine (xp_client x2) = engine (xp_client x1) \<and>
    logging (xp_client x2) = logging (xp_client x1) \<and> ld_next (xp_client x2) \<le> ld_next (xp_client x1) + length es \<and>
    plugin_names (xp_client x2) = plugin_name d ` set (filter (taken env) es)"
  proof (cases "me_readdir env (c_str CS_PLUGIN_CONF)")
    case (Inl err)
    let ?x2 = "conf_log Level_Warning ''Error opening plugin-dir: %s: %s'' [ArgS (c_str CS_PLUGIN_CONF), ArgS (me_strerror env err)] x1"
    have a: "aside (xp_client x1) (xp_client ?x2)"
      unfolding aside_def conf_log_def sys_log_def
      by (intro exI [of _ "mw_version (xp_client x1)"] exI [of _ "mw_filename (xp_client x1)"]) (cases "xp_client x1", simp)
    have "scanned W ?x2" by (rule scanned_aside [OF s1 a]) (use x1(2,3) in \<open>simp_all add: conf_log_def xml_ok_def\<close>)
    moreover have "es = []" using assms(1) Inl by (simp add: good_conf_def)
    ultimately show ?thesis using aside_frame(1,2,4,7) [OF a] empty Inl by (intro exI [of _ ?x2]) simp
  next
    case (Inr ds)
    then show ?thesis using scan_loop_up [OF assms(2,3) s1, of es d] assms(1) empty by (simp add: good_conf_def)
  qed
  then obtain x2 where x2: "?r = Return () x2" "scanned W x2" "engine (xp_client x2) = engine (xp_client x1)"
    "logging (xp_client x2) = logging (xp_client x1)" "ld_next (xp_client x2) \<le> ld_next (xp_client x1) + length es"
    "plugin_names (xp_client x2) = plugin_name d ` set (filter (taken env) es)" by blast
  let ?x3 = "set_filename (mw_filename (xp_client x1)) x2"
  have a: "aside (xp_client x2) (xp_client ?x3)"
    unfolding aside_def set_filename_def by (intro exI [of _ "mw_version (xp_client x2)"] exI [of _ "mw_filename (xp_client x1)"]
      exI [of _ "sw_log (xp_client x2)"]) (cases "xp_client x2", simp)
  have s3: "scanned W ?x3" by (rule scanned_aside [OF x2(2) a]) (use x2(2) in \<open>simp_all add: scanned_def set_filename_def xml_ok_def\<close>)
  have "ScanPlugins env x1 = Return () ?x3" unfolding ScanPlugins_def Let_def dir x2(1) by simp
  then have "Reload env x = Return () ?x3"
    using x1(1) unfolding Reload_def by (cases "csConf_Reload (me_page env) (conf_log Level_Debug ''Reload configuration.'' [] x)") auto
  then show thesis using that s3 aside_frame [OF a] x2 f1 by simp
qed

section \<open>Starting the threads\<close>

lemma start_eq:
  assumes "kernel_ok env ids" "sw_threads w a = Some t" "th_attr t \<noteq> None"
  shows "csThread_Start (me_pthread env) a w = Return () (set_thread a (Some (t\<lparr>th_id := ids a\<rparr>)) w)"
  using assms by (auto simp: csThread_Start_def kernel_ok_def split: option.splits)

lemma staff_started:
  assumes "staff T w" "a \<in> T"
  shows "staff T (set_thread a (Some ((the (sw_threads w a))\<lparr>th_id := i\<rparr>)) w)"
  using assms unfolding staff_def client_set_def by (auto simp: set_thread_def)

lemma started:
  assumes "staff T w" "a \<in> T" "kernel_ok env ids"
  shows "csThread_Start (me_pthread env) a w = Return () (set_thread a (Some ((the (sw_threads w a))\<lparr>th_id := ids a\<rparr>)) w)"
proof -
  have "a \<in> dom (sw_threads w)" "th_attr (the (sw_threads w a)) \<noteq> None" using assms(1,2) unfolding staff_def by blast+
  then obtain t where t: "sw_threads w a = Some t" "th_attr t \<noteq> None" by auto
  then show ?thesis using start_eq [where w = w, OF assms(3) t] by simp
qed

lemma ev_wf_enable:
  assumes "ev_wf e" "ev_clients e c = Some ob"
  shows "ev_wf (e\<lparr>ev_clients := (ev_clients e)(c \<mapsto> ob\<lparr>event_enable := on\<rparr>)\<rparr>)"
proof -
  have "set (event_queue o1) \<inter> set (event_queue o2) = {}"
    if "((ev_clients e)(c \<mapsto> ob\<lparr>event_enable := on\<rparr>)) x = Some o1" "((ev_clients e)(c \<mapsto> ob\<lparr>event_enable := on\<rparr>)) y = Some o2" "x \<noteq> y"
    for x y o1 o2
  proof -
    have "\<exists>p. ev_clients e z = Some p \<and> event_queue o' = event_queue p"
      if "((ev_clients e)(c \<mapsto> ob\<lparr>event_enable := on\<rparr>)) z = Some o'" for z o'
      using that assms(2) by (auto split: if_splits)
    then show ?thesis using that ev_core_disjoint [of e] assms(1) unfolding ev_wf_def by metis
  qed
  then show ?thesis using assms unfolding ev_wf_def ev_core_def by (auto split: if_splits)
qed

lemma handler_made:
  assumes "staff T w" "kernel_ok env ids"
  obtains w' where "fresh (\<lambda>a w. bindO (csThread_ctor (me_pthread env) a CS_THREAD_STACK_SIZE w) (\<lambda>_ w.
      bindO (ev_op (EventsEnable a False) w) (\<lambda>_ w. csThread_Start (me_pthread env) a (w\<lparr>mw_sig_handler := Some a\<rparr>)))) w = Return () w'"
    "staff (insert (ld_next w) T) w'" "parts w' = parts w" "logging w' = logging w" "mw_sig_handler w' = Some (ld_next w)"
    "th_id (the (sw_threads w' (ld_next w))) = ids (ld_next w)"
proof -
  let ?a = "ld_next w" and ?w0 = "w\<lparr>ld_next := Suc (ld_next w)\<rparr>"
  have pre: "ev_wf (sw_ev ?w0)" "?a \<notin> client_set ?w0" using assms(1) by (auto simp: staff_def client_set_def)
  obtain e where e: "csThread_ctor (me_pthread env) ?a CS_THREAD_STACK_SIZE ?w0 = Return () (set_thread ?a (Some new_thread) (?w0\<lparr>sw_ev := e\<rparr>))"
    "ev_wf e" "ev_clients e = (ev_clients (sw_ev ?w0))(?a \<mapsto> idle_client)"
    using hired [OF pre assms(2)] by blast
  let ?e = "e\<lparr>ev_clients := (ev_clients e)(?a \<mapsto> idle_client\<lparr>event_enable := False\<rparr>)\<rparr>"
  have wf: "ev_wf ?e" "ev_clients ?e = (ev_clients (sw_ev w))(?a \<mapsto> idle_client\<lparr>event_enable := False\<rparr>)"
    using ev_wf_enable [OF e(2), of ?a idle_client False] e(3) by simp_all
  let ?w1 = "(set_thread ?a (Some new_thread) (?w0\<lparr>sw_ev := e\<rparr>))\<lparr>sw_ev := ?e\<rparr>\<lparr>mw_sig_handler := Some ?a\<rparr>"
  have en: "ev_op (EventsEnable ?a False) (set_thread ?a (Some new_thread) (?w0\<lparr>sw_ev := e\<rparr>)) =
      Return () ((set_thread ?a (Some new_thread) (?w0\<lparr>sw_ev := e\<rparr>))\<lparr>sw_ev := ?e\<rparr>)"
    using e(3) by (simp add: ev_op_def zoomO_def EventsEnable_def ev_client_def set_thread_def)
  have "sw_threads ?w1 ?a = Some new_thread" "th_attr new_thread \<noteq> None" by (simp_all add: set_thread_def new_thread_def)
  note st = start_eq [where w = ?w1, OF assms(2) this]
  let ?w' = "set_thread ?a (Some (new_thread\<lparr>th_id := ids ?a\<rparr>)) ?w1"
  have eq: "fresh (\<lambda>a w. bindO (csThread_ctor (me_pthread env) a CS_THREAD_STACK_SIZE w) (\<lambda>_ w.
      bindO (ev_op (EventsEnable a False) w) (\<lambda>_ w. csThread_Start (me_pthread env) a (w\<lparr>mw_sig_handler := Some a\<rparr>)))) w = Return () ?w'"
    unfolding fresh_def e(1) bindO.simps en st ..
  show thesis
  proof (rule that [OF eq])
    show "staff (insert ?a T) ?w'"
      by (rule staff_hired [OF assms(1) refl wf, where t = "new_thread\<lparr>th_id := ids ?a\<rparr>"])
        (cases w; simp add: set_thread_def new_thread_def)+
    show "parts ?w' = parts w" "logging ?w' = logging w" by (cases w; simp add: set_thread_def parts_def plugs_def logging_def)+
  qed (simp_all add: set_thread_def)
qed

lemma parts_frame [simp]:
  "parts (set_thread a x w) = parts w" "logging (set_thread a x w) = logging w" "ld_next (set_thread a x w) = ld_next w"
  "parts (sys_log l f args w) = parts w" "logging (sys_log l f args w) = logging w" "ld_next (sys_log l f args w) = ld_next w"
  "mw_sig_handler (set_thread a x w) = mw_sig_handler w" "mw_plugin (set_thread a x w) = mw_plugin w"
  "staff T (sys_log l f args w) = staff T w" "mw_sig_handler (sys_log l f args w) = mw_sig_handler w"
  by (cases w; simp add: set_thread_def sys_log_def parts_def plugs_def logging_def staff_def client_set_def)+

lemma machinery_parts: "parts w' = parts w \<Longrightarrow> machinery t n w' = machinery t n w"
  by (simp add: machinery_def parts_def)

lemma start_plugins_up:
  assumes "kernel_ok env ids"
  shows "staff T w \<Longrightarrow> addrs ps \<subseteq> T \<Longrightarrow> \<exists>w'. start_plugins env ps w = Return () w' \<and> staff T w' \<and> parts w' = parts w \<and>
    logging w' = logging w \<and> mw_sig_handler w' = mw_sig_handler w \<and>
    (\<forall>a. th_id (the (sw_threads w' a)) = (if a \<in> addrs ps then ids a else th_id (the (sw_threads w a))))"
proof (induction ps arbitrary: w)
  case (Cons x ps)
  let ?a = "plugin_at x"
  let ?w = "set_thread ?a (Some ((the (sw_threads w ?a))\<lparr>th_id := ids ?a\<rparr>)) w"
  have a: "?a \<in> T" "addrs ps \<subseteq> T" using Cons.prems(2) by auto
  have step: "start_plugins env (x # ps) w = start_plugins env ps ?w"
    using started [OF Cons.prems(1) a(1) assms] by (cases x) simp
  obtain w' where w': "start_plugins env ps ?w = Return () w'" "staff T w'" "parts w' = parts ?w"
    "logging w' = logging ?w" "mw_sig_handler w' = mw_sig_handler ?w"
    "\<forall>b. th_id (the (sw_threads w' b)) = (if b \<in> addrs ps then ids b else th_id (the (sw_threads ?w b)))"
    using Cons.IH [OF staff_started [OF Cons.prems(1) a(1)] a(2)] by blast
  have "th_id (the (sw_threads w' b)) = (if b \<in> addrs (x # ps) then ids b else th_id (the (sw_threads w b)))" for b
    using w'(6) [rule_format, of b] by (simp add: set_thread_def)
  then show ?case using step w' by (intro exI [of _ w']) simp
qed simp

lemma start_all_up:
  assumes "staff T w" "kernel_ok env ids" "machinery t n w" "t \<in> T" "n \<in> T" "addrs (mw_plugin w) \<subseteq> T" "s = ld_next w"
  obtains w' where "start_all env w = Return () w'" "staff (insert s T) w'" "parts w' = parts w" "logging w' = logging w"
    "mw_sig_handler w' = Some s" "\<forall>a \<in> {s, t, n} \<union> addrs (mw_plugin w). th_id (the (sw_threads w' a)) = ids a"
proof -
  obtain w1 where w1: "fresh (\<lambda>a w. bindO (csThread_ctor (me_pthread env) a CS_THREAD_STACK_SIZE w) (\<lambda>_ w.
      bindO (ev_op (EventsEnable a False) w) (\<lambda>_ w. csThread_Start (me_pthread env) a (w\<lparr>mw_sig_handler := Some a\<rparr>)))) w = Return () w1"
    "staff (insert s T) w1" "parts w1 = parts w" "logging w1 = logging w" "mw_sig_handler w1 = Some s" "th_id (the (sw_threads w1 s)) = ids s"
    using handler_made [OF assms(1,2)] assms(7) by blast
  define w2 where "w2 = set_thread t (Some ((the (sw_threads w1 t))\<lparr>th_id := ids t\<rparr>)) w1"
  define w3 where "w3 = set_thread n (Some ((the (sw_threads w2 n))\<lparr>th_id := ids n\<rparr>)) w2"
  have s2: "csThread_Start (me_pthread env) t w1 = Return () w2" "staff (insert s T) w2"
    using started [OF w1(2) _ assms(2), of t] staff_started [OF w1(2), of t] assms(4) by (simp_all add: w2_def)
  have s3: "csThread_Start (me_pthread env) n w2 = Return () w3" "staff (insert s T) w3"
    using started [OF s2(2) _ assms(2), of n] staff_started [OF s2(2), of n] assms(5) by (simp_all add: w3_def)
  have p: "parts w2 = parts w" "parts w3 = parts w" using w1(3) by (simp_all add: w2_def w3_def)
  have "machinery t n w1" "machinery t n w2" using machinery_parts [OF w1(3)] machinery_parts [OF p(1)] assms(3) by simp_all
  then have m: "mw_timer_thread w1 = Some t" "mw_netlink_thread w2 = Some n" by (simp_all add: machinery_def)
  have pl: "mw_plugin w3 = mw_plugin w" using p(2) by (simp add: parts_def plugs_def)
  obtain w4 where w4: "start_plugins env (mw_plugin w) w3 = Return () w4" "staff (insert s T) w4" "parts w4 = parts w3"
    "logging w4 = logging w3" "mw_sig_handler w4 = mw_sig_handler w3"
    "\<forall>a. th_id (the (sw_threads w4 a)) = (if a \<in> addrs (mw_plugin w) then ids a else th_id (the (sw_threads w3 a)))"
    using start_plugins_up [OF assms(2) s3(2), of "mw_plugin w"] assms(6) by blast
  have i3: "th_id (the (sw_threads w3 a)) = ids a" if "a \<in> {s, t, n}" for a
    using that w1(6) by (auto simp: w3_def w2_def set_thread_def)
  let ?w5 = "sys_log Level_Info ''ClearSync initialized.'' [] w4"
  show thesis
  proof (rule that [of ?w5])
    show "start_all env w = Return () ?w5"
      using assms(2) by (simp add: start_all_def kernel_ok_def w1(1) start_at_def m s2(1) s3(1) pl w4(1))
    show "\<forall>a \<in> {s, t, n} \<union> addrs (mw_plugin w). th_id (the (sw_threads ?w5 a)) = ids a"
    proof
      fix a assume a: "a \<in> {s, t, n} \<union> addrs (mw_plugin w)"
      have "sw_threads ?w5 = sw_threads w4" by (simp add: sys_log_def)
      then show "th_id (the (sw_threads ?w5 a)) = ids a" using w4(6) [rule_format, of a] i3 [of a] a by (simp split: if_splits)
    qed
  qed (use w1 w4 p in \<open>simp_all add: w3_def w2_def\<close>)
qed

lemma ValidateConfiguration_log: "\<exists>l. ValidateConfiguration w = w\<lparr>sw_log := l\<rparr>"
proof -
  let ?P = "\<lambda>v. \<exists>l. v = w\<lparr>sw_log := l\<rparr>"
  have start: "?P w" by (intro exI [of _ "sw_log w"]) simp
  have inner: "?P (fold (\<lambda>n w. if omap_lookup (mw_plugin w) n \<noteq> None then w
      else sys_log Level_Warning ''Event filter plugin not found: %s'' [ArgS (c_str n)] w) names v)" if "?P v" for names v
    by (rule fold_invariant [where Q = "\<lambda>_. True"]) (use that in \<open>auto simp: sys_log_def\<close>)
  show ?thesis unfolding ValidateConfiguration_def
    by (rule fold_invariant [where Q = "\<lambda>_. True" and P = ?P]) (use start inner in \<open>auto split: prod.splits\<close>)
qed

section \<open>The constructor\<close>

lemma loggers_up:
  assumes "fresh_process w" "me_daemon env = None" "\<forall>o' \<in> set opts. fst o' \<in> {CHR ''c'', CHR ''d'', CHR ''l''}"
    "st = fold setting opts default_options"
  obtains e w1 w2 w3 where "ev_op (csEventClient_ctor (mw_this w)) w = Return () (w\<lparr>sw_ev := e\<rparr>)"
    "stdout_log (w\<lparr>sw_ev := e\<rparr>) = Return () w1" "option_loop env argv0 opts default_options w1 = Return st w2"
    "(if \<not> op_debug st then become_daemon env w2 else Return () w2) = Return () w3"
    "staff {} w3" "logging w3" "parts w3 = parts w" "ld_next w3 \<le> ld_next w + 2"
proof -
  obtain e where e: "ev_op (csEventClient_ctor (mw_this w)) w = Return () (w\<lparr>sw_ev := e\<rparr>)" "staff {} (w\<lparr>sw_ev := e\<rparr>)"
    using base_class [OF assms(1)] by blast
  have lg: "log_ok (mw_logger (w\<lparr>sw_ev := e\<rparr>))" "lg_heap (mw_logger (w\<lparr>sw_ev := e\<rparr>)) = Map.empty" "mw_log_syslog (w\<lparr>sw_ev := e\<rparr>) = None"
    using assms(1) by (simp_all add: fresh_process_def)
  obtain w1 where w1: "stdout_log (w\<lparr>sw_ev := e\<rparr>) = Return () w1" "staff {} w1" "logging w1" "parts w1 = parts (w\<lparr>sw_ev := e\<rparr>)"
    "mw_log_syslog w1 = None" "\<not> lg_syslog_open (mw_logger w1)" "\<forall>a \<in> dom (lg_heap (mw_logger w1)). a < ld_next w1"
    "ld_next w1 = Suc (ld_next (w\<lparr>sw_ev := e\<rparr>))"
    using stdout_log_up [OF e(2) lg] by blast
  obtain g where g: "option_loop env argv0 opts default_options w1 = Return st (w1\<lparr>mw_logger := g\<rparr>)"
    "log_ok g = log_ok (mw_logger w1)" "lg_heap g = lg_heap (mw_logger w1)" "lg_syslog_open g = lg_syslog_open (mw_logger w1)"
    using option_loop_fold [OF assms(3)] assms(4) by blast
  let ?w2 = "w1\<lparr>mw_logger := g\<rparr>"
  have w2: "staff {} ?w2" "logging ?w2" "parts ?w2 = parts w"
  proof -
    show "staff {} ?w2" by (rule staff_frame [OF w1(2)]) simp_all
    show "logging ?w2" using w1(3) g(2,3) by (simp add: logging_def)
    have "parts (w\<lparr>sw_ev := e\<rparr>) = parts w" "parts ?w2 = parts w1" by (cases w; simp add: parts_def plugs_def) (cases w1; simp add: parts_def plugs_def)
    then show "parts ?w2 = parts w" using w1(4) by simp
  qed
  show thesis
  proof (cases "op_debug st")
    case True
    then show ?thesis using that [OF e(1) w1(1) g(1), of ?w2] w2 w1(8) by simp
  next
    case False
    have "mw_log_syslog ?w2 = None" "\<not> lg_syslog_open (mw_logger ?w2)" "\<forall>a \<in> dom (lg_heap (mw_logger ?w2)). a < ld_next ?w2"
      using w1(5-7) g(3,4) by simp_all
    then obtain w3 where "become_daemon env ?w2 = Return () w3" "staff {} w3" "logging w3" "parts w3 = parts ?w2"
      "ld_next w3 = Suc (ld_next ?w2)" using become_daemon_up [OF w2(1,2) _ _ assms(2)] by blast
    then show ?thesis using that [OF e(1) w1(1) g(1), of w3] w2(3) w1(8) False by simp
  qed
qed

lemma crypto_init_frame [simp]:
  "staff T (crypto_init env w) = staff T w" "ld_next (crypto_init env w) = ld_next w" "parts (crypto_init env w) = parts w" "logging (crypto_init env w) = logging w"
  by (cases w; simp add: crypto_init_def sys_log_def staff_def client_set_def parts_def plugs_def logging_def)+

lemma conf_up:
  assumes "good_conf env f es d" "kernel_ok env ids" "conf_quiet env" "staff W w" "plugs w = (Map.empty, [], [])"
  obtains x5 x7 where "csXmlParser_ctor (me_page env) w = Return () x5" "Reload env (SetConf f (csMainConf_ctor f x5)) = Return () x7"
    "scanned W x7" "engine (xp_client x7) = engine w" "logging (xp_client x7) = logging w"
    "ld_next (xp_client x7) \<le> ld_next w + length es" "plugin_names (xp_client x7) = plugin_name d ` set (filter (taken env) es)"
proof -
  obtain x5 where x5: "csXmlParser_ctor (me_page env) w = Return () x5" "xp_client x5 = w" "xml_ok x5" "xp_stack x5 = []"
    by (simp add: csXmlParser_ctor_def Reset_def xml_ok_def)
  let ?x6 = "SetConf f (csMainConf_ctor f x5)"
  have w6: "xp_client ?x6 = w\<lparr>mw_filename := f, mw_version := -1, mw_plugin_dir := CS_PLUGIN_CONF\<rparr>"
    using x5(2) by (simp add: SetConf_def csMainConf_ctor_def)
  have pl: "mw_plugin w = []" "ld_objs w = Map.empty" "ld_open w = []" using assms(5) by (simp_all add: plugs_def)
  have "staff W (xp_client ?x6)" unfolding w6 by (rule staff_frame [OF assms(4)]) simp_all
  then have "scanned W ?x6"
    using x5(3,4) pl by (simp add: scanned_def loaded_def w6) (simp add: SetConf_def csMainConf_ctor_def xml_ok_def)
  moreover have "xp_conf ?x6 = Some f" by (simp add: SetConf_def)
  moreover have "mw_plugin (xp_client ?x6) = []" using pl by (simp add: w6)
  ultimately obtain x7 where x7: "Reload env ?x6 = Return () x7" "scanned W x7" "engine (xp_client x7) = engine (xp_client ?x6)"
    "logging (xp_client x7) = logging (xp_client ?x6)" "ld_next (xp_client x7) \<le> ld_next (xp_client ?x6) + length es"
    "plugin_names (xp_client x7) = plugin_name d ` set (filter (taken env) es)"
    using reload_up [OF assms(1-3)] by blast
  have "engine (xp_client ?x6) = engine w" "logging (xp_client ?x6) = logging w"
    unfolding w6 by (cases w; simp add: engine_def logging_def)+
  then show thesis using that [OF x5(1) x7(1,2)] x7(3-) by (simp add: w6)
qed

lemma machinery_engine: "engine w' = engine w \<Longrightarrow> machinery t n w' = machinery t n w"
  by (simp add: machinery_def engine_def)

text \<open>The daemon is up: its workers, its plugins and nothing else.\<close>

definition up :: "(nat \<Rightarrow> u64) \<Rightarrow> nat \<Rightarrow> nat \<Rightarrow> nat \<Rightarrow> main_world \<Rightarrow> bool" where
  "up ids s t n w \<longleftrightarrow> staff ({s, t, n} \<union> addrs (mw_plugin w)) w \<and> distinct [s, t, n] \<and> {s, t, n} \<inter> addrs (mw_plugin w) = {} \<and>
     loaded w \<and> machinery t n w \<and> logging w \<and> mw_sig_handler w = Some s \<and>
     (\<forall>a \<in> {s, t, n} \<union> addrs (mw_plugin w). th_id (the (sw_threads w a)) = ids a)"

lemma started_up:
  assumes "scanned {t, n} x" "kernel_ok env ids" "machinery t n (xp_client x)" "logging (xp_client x)" "t \<noteq> n"
  obtains w' where "start_all env (ValidateConfiguration (xp_client x)) = Return () w'" "up ids (ld_next (xp_client x)) t n w'"
    "mw_killed w' = mw_killed (xp_client x)" "mw_plugin w' = mw_plugin (xp_client x)"
    "{ld_next (xp_client x), t, n} \<union> addrs (mw_plugin w') \<subseteq> {.. ld_next (xp_client x)}"
proof -
  let ?w = "xp_client x" and ?s = "ld_next (xp_client x)"
  let ?T = "{t, n} \<union> addrs (mw_plugin ?w)"
  obtain l where v: "ValidateConfiguration ?w = ?w\<lparr>sw_log := l\<rparr>" using ValidateConfiguration_log by blast
  note sc = assms(1) [unfolded scanned_def]
  have st: "staff ?T ?w" "loaded ?w" "{t, n} \<inter> addrs (mw_plugin ?w) = {}" using sc by blast+
  have st': "staff ?T (?w\<lparr>sw_log := l\<rparr>)" by (rule staff_frame [OF st(1)]) simp_all
  have fr: "parts (?w\<lparr>sw_log := l\<rparr>) = parts ?w" "logging (?w\<lparr>sw_log := l\<rparr>) = logging ?w"
    by (cases ?w; simp add: parts_def plugs_def logging_def)+
  have m: "machinery t n (?w\<lparr>sw_log := l\<rparr>)" using machinery_parts [OF fr(1)] assms(3) by simp
  obtain w' where w': "start_all env (?w\<lparr>sw_log := l\<rparr>) = Return () w'" "staff (insert ?s ?T) w'" "parts w' = parts (?w\<lparr>sw_log := l\<rparr>)"
    "logging w' = logging (?w\<lparr>sw_log := l\<rparr>)" "mw_sig_handler w' = Some ?s"
    "\<forall>a \<in> {?s, t, n} \<union> addrs (mw_plugin ?w). th_id (the (sw_threads w' a)) = ids a"
    using start_all_up [OF st' assms(2) m, of ?s] by auto
  have p: "mw_plugin w' = mw_plugin ?w" "mw_killed w' = mw_killed ?w" "loaded w' = loaded ?w"
    using w'(3) fr(1) by (simp_all add: parts_def plugs_def loaded_def)
  have lt: "\<forall>a \<in> ?T. a < ?s" using st(1) unfolding staff_def by blast
  show thesis
  proof (rule that)
    show "start_all env (ValidateConfiguration ?w) = Return () w'" using w'(1) v by simp
    have out: "?s \<notin> ?T" using lt by blast
    then have "distinct [?s, t, n]" "{?s, t, n} \<inter> addrs (mw_plugin ?w) = {}" using assms(5) st(3) by simp_all
    moreover have "machinery t n w'" "logging w'" using machinery_parts [of w' ?w] w'(3,4) fr assms(3,4) by simp_all
    ultimately show "up ids ?s t n w'" using w'(2,5,6) p(1,3) st(2) by (simp add: up_def)
    show "{?s, t, n} \<union> addrs (mw_plugin w') \<subseteq> {.. ?s}" unfolding p(1) using lt by (auto intro: less_imp_le)
  qed (use p in simp_all)
qed

text \<open>The constructor of \<open>csMain\<close> brings up a daemon that runs.\<close>

lemma csMain_ctor_up:
  assumes "fresh_process w" "w = xp_client x" "kernel_ok env ids" "conf_quiet env"
    "\<forall>o' \<in> set opts. fst o' \<in> {CHR ''c'', CHR ''d'', CHR ''l''}"
    "good_conf env (op_conf_filename (fold setting opts default_options)) es d"
  obtains x' s t n where "csMain_ctor env argv0 opts x = Return () x'" "xp_stack x' = []" "up ids s t n (xp_client x')"
    "mw_killed (xp_client x') = mw_killed w" "plugin_names (xp_client x') = plugin_name d ` set (filter (taken env) es)"
    "{s, t, n} \<union> addrs (mw_plugin (xp_client x')) \<subseteq> {.. ld_next w + 4 + length es}"
proof -
  define st where "st = fold setting opts default_options"
  let ?f = "op_conf_filename st"
  have dm: "me_daemon env = None" using assms(3) by (simp add: kernel_ok_def)
  obtain e w1 w2 w3 where l: "ev_op (csEventClient_ctor (mw_this w)) w = Return () (w\<lparr>sw_ev := e\<rparr>)"
    "stdout_log (w\<lparr>sw_ev := e\<rparr>) = Return () w1" "option_loop env argv0 opts default_options w1 = Return st w2"
    "(if \<not> op_debug st then become_daemon env w2 else Return () w2) = Return () w3"
    "staff {} w3" "logging w3" "parts w3 = parts w" "ld_next w3 \<le> ld_next w + 2"
    using loggers_up [OF assms(1) dm assms(5) st_def] by blast
  let ?w3 = "sys_log Level_Debug ''Real-time signals: %d'' [ArgI (me_rt_signals env)] (crypto_init env w3)"
  have w3: "staff {} ?w3" "logging ?w3" "parts ?w3 = parts w" using l(5-7) by simp_all
  have clean: "tt_instance (mw_timer ?w3) = None" "vector_mutex (mw_timer ?w3) = MutexNull" "tt_objs (mw_timer ?w3) = Map.empty"
    "tt_kernel (mw_timer ?w3) = Map.empty" "nt_instance (mw_netlink ?w3) = None" "nt_objs (mw_netlink ?w3) = Map.empty"
    "nt_open (mw_netlink ?w3) = []"
    using w3(3) assms(1) unfolding parts_def prod.inject fresh_process_def by metis+
  obtain w4 t n where w4: "make_threads env ?w3 = Return () w4" "staff {t, n} w4" "t \<noteq> n" "machinery t n w4" "logging w4"
    "mw_killed w4 = mw_killed ?w3" "ld_next w4 = ld_next ?w3 + 2" "plugs w4 = plugs ?w3"
    using make_threads_up [OF w3(1) assms(3) clean w3(2)] by blast
  have k: "mw_killed ?w3 = mw_killed w" "plugs w4 = (Map.empty, [], [])"
    using w3(3) w4(8) assms(1) by (simp_all add: parts_def plugs_def fresh_process_def)
  obtain x5 x7 where x7: "csXmlParser_ctor (me_page env) w4 = Return () x5" "Reload env (SetConf ?f (csMainConf_ctor ?f x5)) = Return () x7"
    "scanned {t, n} x7" "engine (xp_client x7) = engine w4" "logging (xp_client x7) = logging w4"
    "ld_next (xp_client x7) \<le> ld_next w4 + length es" "plugin_names (xp_client x7) = plugin_name d ` set (filter (taken env) es)"
    by (rule conf_up [OF assms(6) [folded st_def] assms(3,4) w4(2) k(2)])
  have m7: "machinery t n (xp_client x7)" "logging (xp_client x7)" using machinery_engine [OF x7(4)] w4(4,5) x7(5) by simp_all
  obtain w8 where w8: "start_all env (ValidateConfiguration (xp_client x7)) = Return () w8" "up ids (ld_next (xp_client x7)) t n w8"
    "mw_killed w8 = mw_killed (xp_client x7)" "mw_plugin w8 = mw_plugin (xp_client x7)"
    "{ld_next (xp_client x7), t, n} \<union> addrs (mw_plugin w8) \<subseteq> {.. ld_next (xp_client x7)}"
    by (rule started_up [OF x7(3) assms(3) m7 w4(3)])
  have body: "csMain_body env argv0 opts (x\<lparr>xp_client := w\<lparr>sw_ev := e\<rparr>\<rparr>) = Return () (x7\<lparr>xp_client := w8\<rparr>)"
    unfolding csMain_body_def stdout_log_def [symmetric] default_options_def [symmetric] bindO.simps xml_world.select_convs
      xml_world.update_convs main_op_at [where f = stdout_log, OF l(2)]
      main_op_at [where f = "option_loop env argv0 opts default_options", OF l(3)]
      main_op_at [where f = "\<lambda>w. if \<not> op_debug st then become_daemon env w else Return () w", OF l(4)]
      main_op_at [where f = "\<lambda>w. make_threads env (sys_log Level_Debug ''Real-time signals: %d'' [ArgI (me_rt_signals env)] (crypto_init env w))",
        OF w4(1)]
    by (simp add: x7(1,2) main_op_eq [where f = "\<lambda>w. start_all env (ValidateConfiguration w)"] w8(1))
  have ctor: "csMain_ctor env argv0 opts x = Return () (x7\<lparr>xp_client := w8\<rparr>)"
    using main_op_eq [of "\<lambda>w. ev_op (csEventClient_ctor (mw_this w)) w" x, folded assms(2), OF l(1)] body
    by (simp add: csMain_ctor_def)
  show thesis
  proof (rule that [OF ctor])
    have "ld_next (xp_client x7) \<le> ld_next w + 4 + length es" using l(8) w4(7) x7(6) by simp
    then show "{ld_next (xp_client x7), t, n} \<union> addrs (mw_plugin (xp_client (x7\<lparr>xp_client := w8\<rparr>))) \<subseteq> {.. ld_next w + 4 + length es}"
      using subset_trans [OF w8(5), of "{.. ld_next w + 4 + length es}"] by simp
    show "mw_killed (xp_client (x7\<lparr>xp_client := w8\<rparr>)) = mw_killed w" using w8(3) x7(4) w4(6) k(1) by (simp add: engine_def)
  qed (use x7(3,7) w8(2,4) in \<open>simp_all add: scanned_def\<close>)
qed

lemma up_running:
  assumes "xp_stack x = []" "up ids s t n (xp_client x)" "inj_on ids ({s, t, n} \<union> addrs (mw_plugin (xp_client x)))"
  shows "running s t n x"
proof -
  let ?w = "xp_client x"
  let ?T = "{s, t, n} \<union> addrs (mw_plugin ?w)"
  note u = assms(2) [unfolded up_def]
  have sf: "staff ?T ?w" and id: "\<forall>a \<in> ?T. th_id (the (sw_threads ?w a)) = ids a" using u by blast+
  have st: "dom (sw_threads ?w) = ?T" "sw_joined ?w = []" "client_set ?w = insert (mw_this ?w) ?T" "ev_wf (sw_ev ?w)"
    using sf by (simp_all only: staff_def)
  have at: "\<forall>a \<in> ?T. th_attr (the (sw_threads ?w a)) \<noteq> None" using sf unfolding staff_def by (elim conjE)
  have out: "mw_this ?w \<notin> ?T" using sf unfolding staff_def by (elim conjE)
  have "\<exists>th. sw_threads ?w a = Some th \<and> th_attr th \<noteq> None \<and> (th_id th \<noteq> invalid_id \<longrightarrow> th_id th \<notin> set (sw_joined ?w))"
    if "a \<in> ?T" for a
  proof -
    have "a \<in> dom (sw_threads ?w)" unfolding st(1) by (rule that)
    then obtain th where "sw_threads ?w a = Some th" by blast
    then show ?thesis using at [rule_format, OF that] st(2) by simp
  qed
  moreover have "th_id (the (sw_threads ?w a)) \<noteq> th_id (the (sw_threads ?w b))" if "a \<in> ?T" "b \<in> ?T" "a \<noteq> b" for a b
    using id [rule_format, OF that(1)] id [rule_format, OF that(2)] inj_onD [OF assms(3) _ that(1,2)] that(3) by auto
  ultimately have crew: "crew ?T ?w" unfolding crew_def by blast
  have T: "?T = insert s (insert t (insert n (addrs (mw_plugin ?w))))" by simp
  have dist: "distinct (mw_this ?w # s # t # n # map plugin_at (mw_plugin ?w))"
    using out u by (simp add: loaded_def)
  show ?thesis unfolding running_def Let_def
    using assms(1) u dist crew st(1,3,4) unfolding T by (simp only: loaded_def simp_thms)
qed

section \<open>The quit event\<close>

text \<open>What the signal handler at \<open>s\<close> does to the event system when a signal arrives.\<close>

definition signal_arrives :: "nat \<Rightarrow> int \<Rightarrow> ev_world \<Rightarrow> ev_world" where
  "signal_arrives s sig v = (case signal_turn (\<lambda>_. []) (\<lambda>_. []) s (Inr sig, [])
       \<lparr>sw_ev = v, sw_threads = Map.empty, sw_joined = [], sw_log = []\<rparr> of Return _ w \<Rightarrow> sw_ev w | _ \<Rightarrow> v)"

lemma quit_arrives:
  assumes "ev_wf v" "event_client v \<noteq> []" "sig = SIGINT \<or> sig = SIGTERM"
  shows "ev_wf (signal_arrives s sig v)" "event_client (signal_arrives s sig v) = event_client v"
    "abs_queue (signal_arrives s sig v) = broadcast_spec (quit_mail s) (enabled v) (abs_queue v)"
proof -
  obtain v' where v': "bindO (ev_new quit_broadcast v) (\<lambda>a v. EventBroadcast s a v) = Return () v'" "ev_wf v'"
    "event_client v' = event_client v" "abs_queue v' = broadcast_spec (quit_mail s) (enabled v) (abs_queue v)"
    using quit_broadcast_spec [OF assms(1,2)] by blast
  have "signal_arrives s sig v = v'"
    using assms(3) v'(1) by (auto simp: signal_arrives_def signal_turn_def broadcast_new_def Let_def ev_op_def zoomO_def sys_log_def)
  then show "ev_wf (signal_arrives s sig v)" "event_client (signal_arrives s sig v) = event_client v"
    "abs_queue (signal_arrives s sig v) = broadcast_spec (quit_mail s) (enabled v) (abs_queue v)" using v' by simp_all
qed

text \<open>The main loop waits on an empty queue until the signal handler has broadcast the quit event.\<close>

definition wait_for :: "nat \<Rightarrow> int \<Rightarrow> timespec \<Rightarrow> wait_input" where
  "wait_for s sig now = \<lparr>wi_now = now, wi_waits = (\<lambda>_. [(0, signal_arrives s sig)])\<rparr>"

lemma quit_turn:
  assumes "staff T w" "sig = SIGINT \<or> sig = SIGTERM"
  obtains e l where "main_turn (wait_for s sig now) w = Return False (w\<lparr>sw_ev := e, sw_log := l\<rparr>)" "ev_wf e"
    "dom (ev_clients e) = client_set w"
proof -
  let ?m = "mw_this w" and ?v = "sw_ev w"
  have wf: "ev_wf ?v" "ev_clients ?v ?m = Some idle_client" using assms(1) by (simp_all add: staff_def)
  have dom: "dom (ev_clients e) = set (event_client e)" if "ev_wf e" for e using that by (simp add: ev_wf_def ev_core_def)
  have ne: "event_client ?v \<noteq> []" using dom [OF wf(1)] wf(2) by auto
  note q = quit_arrives [OF wf(1) ne assms(2), of s]
  have "EventPop ?m ?v = Return None ?v" using EventPop_eq(1) [OF _ wf(2)] wf(1) by (simp add: ev_wf_def idle_client_def)
  moreover have "abs_queue (signal_arrives s sig ?v) ?m = Some [quit_mail s]"
    using q(3) wf(2) by (simp add: broadcast_spec_def enabled_def abs_queue_def idle_client_def)
  then obtain a e y where e: "EventPop ?m (signal_arrives s sig ?v) = Return (Some a) e" "ev_wf e" "ev_heap e a = Some y"
    "a \<notin> queued e" "ev_id y = csEVENT_QUIT" "event_client e = event_client ?v"
    using pop_front [OF q(1), of ?m "quit_mail s" "[]"] q(2) by auto
  ultimately have "EventPopWait ?m 0 now (wi_waits (wait_for s sig now)) ?v = Return (Some a) e"
    by (simp add: EventPopWait_def wait_for_def)
  then have "main_turn (wait_for s sig now) w = Return False (w\<lparr>sw_ev := e\<lparr>ev_heap := kill a (ev_heap e)\<rparr>,
      sw_log := sw_log w @ [(Level_Debug, ''Terminating...'', [])]\<rparr>)"
    using EventDestroy_eq [OF e(3)] e(3,5)
    by (cases w) (simp add: main_turn_def handle_event_def ev_op_def zoomO_def ev_read_def sys_log_def wait_for_def)
  moreover have wf': "ev_wf (e\<lparr>ev_heap := kill a (ev_heap e)\<rparr>)" using kill_loose(1) [OF _ e(4)] e(2) by (simp add: ev_wf_def)
  moreover have "dom (ev_clients (e\<lparr>ev_heap := kill a (ev_heap e)\<rparr>)) = client_set w"
    using dom [OF wf'] dom [OF wf(1)] e(6) by (simp add: client_set_def)
  ultimately show thesis by (rule that)
qed

lemma running_frame:
  assumes "running s t n x" "ev_wf e" "dom (ev_clients e) = client_set (xp_client x)"
  shows "running s t n (x\<lparr>xp_client := (xp_client x)\<lparr>sw_ev := e, sw_log := l\<rparr>\<rparr>)"
proof -
  let ?w = "(xp_client x)\<lparr>sw_ev := e, sw_log := l\<rparr>"
  have "workers s t n ?w = workers s t n (xp_client x)" "logging ?w = logging (xp_client x)"
    by (cases "xp_client x"; simp add: machinery_def logging_def)+
  moreover have "crew T ?w = crew T (xp_client x)" for T by (rule crew_cong) simp_all
  moreover have "client_set ?w = client_set (xp_client x)" using assms(3) by (simp add: client_set_def)
  ultimately show ?thesis using assms(1,2) by (simp add: running_def Let_def)
qed

section \<open>From start to exit\<close>

section \<open>An instance\<close>

text \<open>The daemon in the foreground with a configuration of version 1 and, in the plugin directory,
  one file that defines a plugin and one subdirectory; the two files differ in their first byte.\<close>

definition main_doc :: xnode where
  "main_doc = XElem ''csconf'' [(''version'', ''1'')] []"

definition one_plugin_env :: main_env where
  "one_plugin_env = joining_env\<lparr>
     me_fopen := (\<lambda>path n. Inr [Chunk (if path = CS_MAIN_CONF then [0x3C] else [0x20]) True]),
     me_expat := (\<lambda>fed fin. (map (\<lambda>s. (s, pos0)) (node_events (if fed = [[0x3C]] then main_doc else filewatch_doc)), None)),
     me_readdir := (\<lambda>_. Inr [Inr (''old'', DT_DIR), Inr (''fw.conf'', DT_REG)])\<rparr>"

definition one_plugin_conf :: "string \<Rightarrow> string \<times> string \<times> bytes" where
  "one_plugin_conf _ = (''FileWatch'', ''libfw.so'', map byte_of_char ''Example'')"

abbreviation thread_number :: "nat \<Rightarrow> u64" where
  "thread_number a \<equiv> 1000 + of_nat a"

lemma idle_main_fresh: "fresh_process idle_main"
  by (simp add: fresh_process_def idle_main_def log_init_def log_ok_def syslog_set_def)

lemma one_plugin_env_ok:
  "kernel_ok one_plugin_env thread_number" "conf_quiet one_plugin_env" "dtor_joins one_plugin_env"
proof -
  show "kernel_ok one_plugin_env thread_number"
    by (simp add: one_plugin_env_def joining_env_def kernel_ok_def sample_env_def good_pthreads_def CS_THREAD_STACK_SIZE_def)
  show "conf_quiet one_plugin_env" unfolding conf_quiet_def
  proof (intro allI)
    fix a f and w :: main_world
    show "\<exists>l. me_set_conf one_plugin_env a f w = Return () (w\<lparr>sw_log := l\<rparr>)"
      by (rule exI [of _ "sw_log w"]) (simp add: one_plugin_env_def joining_env_def)
  qed
  show "dtor_joins one_plugin_env" by (simp add: one_plugin_env_def joining_env_def dtor_joins_def sample_env_def)
qed

lemma one_plugin_taken:
  "filter (taken one_plugin_env) [(''old'', DT_DIR), (''fw.conf'', DT_REG)] = [(''fw.conf'', DT_REG)]"
  by (simp add: taken_def one_plugin_env_def joining_env_def REG_NOMATCH_def)

lemma one_plugin_good:
  "good_conf one_plugin_env CS_MAIN_CONF [(''old'', DT_DIR), (''fw.conf'', DT_REG)] one_plugin_conf"
proof -
  have v: "atoi (c_str ''1'') \<le> CS_CONF_VERSION" by code_simp
  have f: "text_filter (map byte_of_char ''Example'') \<noteq> []"
    by (simp add: text_filter_def byte_of_char_def isprint_def)
  have p: "CS_PLUGIN_CONF @ ''/fw.conf'' \<noteq> CS_MAIN_CONF" by code_simp
  have main: "\<exists>reads evs v. me_fopen one_plugin_env CS_MAIN_CONF (me_page one_plugin_env) = Inr reads \<and>
     expat_events (me_expat one_plugin_env) [] reads = Some evs \<and> map fst evs = node_events (XElem ''csconf'' [(''version'', v)] []) \<and>
     atoi (c_str v) \<le> CS_CONF_VERSION"
    by (intro exI [of _ "[Chunk [0x3C] True]"] exI [of _ "map (\<lambda>s. (s, pos0)) (node_events main_doc)"] exI [of _ "''1''"])
      (simp add: one_plugin_env_def main_doc_def v)
  have plugin: "plugin_file one_plugin_env (CS_PLUGIN_CONF @ ''/fw.conf'') (one_plugin_conf ''fw.conf'')"
    unfolding plugin_file_def one_plugin_conf_def prod.case
    by (intro conjI f exI [of _ "[Chunk [0x20] True]"] exI [of _ "map (\<lambda>s. (s, pos0)) (node_events filewatch_doc)"] exI [of _ 1])
      (use p in \<open>simp_all add: one_plugin_env_def joining_env_def filewatch_doc_def\<close>)
  show ?thesis unfolding good_conf_def one_plugin_taken
    by (intro conjI main) (use plugin one_plugin_taken in \<open>auto simp: one_plugin_env_def taken_def\<close>)
qed


end
