(* ===== verification/Spec2Isabelle.thy ===== *)
theory Spec2Isabelle
  imports Cs_Event_Properties Cs_Plugin_File Cs_Timer_Properties Cs_Conf_Properties Cs_HexDump Cs_Sysutil Cs_Netlink_Properties Cs_Socket_Properties Cs_Lifecycle
begin

text \<open>
  ClearSync: a verification library for the daemon \<open>clearsyncd\<close>, its support library and its
  example plugin.

  \<^bold>\<open>The program.\<close> \<open>clearsyncd\<close> (\<open>src/csmain.cpp\<close>) reads an XML configuration, loads plugins from
  shared libraries and passes events between them. Every thread of the process is an event
  client with a queue of its own (\<open>src/csevent.cpp\<close>): the main loop, the signal handler, the
  timer thread (\<open>src/cstimer.cpp\<close>), the netlink thread (\<open>src/csnetlink.cpp\<close>) and one thread for
  each plugin (\<open>src/csplugin.cpp\<close>, \<open>src/csthread.cpp\<close>). A plugin sends an event to the main loop,
  which marks it with the name of its source and sends a copy to every plugin whose event
  filter has that name. Timers post an event when they expire, and the netlink thread answers
  queries about the network. A plugin keeps variables that survive a restart in a state file.
  A signal turns into a quit event for every client; the destructor of \<open>csMain\<close> then joins the
  threads and closes everything. Logging (\<open>src/cslog.cpp\<close>), sockets (\<open>src/cssocket.cpp\<close>), the
  parser behind the configuration classes (\<open>src/csconf.cpp\<close>) and the utilities
  (\<open>src/csutil.cpp\<close>) serve the daemon and the plugins.

  \<^bold>\<open>How the code is modelled.\<close> Definitions have the names of the C++ functions; a
  constructor or destructor has \<open>_ctor\<close> or \<open>_dtor\<close> after the name of its class. A C++ object is a record, its
  address a natural number, and the objects of one class are a map from addresses to records in
  the state of the component, so that aliasing, dangling pointers and ownership can be stated.
  The static members of a class (registries, mutexes, instance pointers) are fields of that
  state. The states are records that extend each other: \<open>ev_world\<close> (clients, queues and events),
  \<open>sys_world\<close> (\<open>ev_world\<close>, thread objects, joined threads and the calls of the log), and on it
  \<open>timer_world\<close>, \<open>netlink_world\<close> and \<open>loader_world\<close>; \<open>main_world\<close> extends the last, and
  \<open>conf_world\<close> is the parser with a \<open>main_world\<close> as its client. An operation maps a state to an
  \<open>outcome\<close>: \<open>Return\<close> with a value and a state, \<open>Throw\<close> with an exception and the state at that
  point, \<open>Block\<close> for a thread that waits for ever on a mutex, \<open>Undef\<close> for undefined behaviour (a
  null or dangling pointer, a read out of bounds, a signed overflow, a thread joined twice).
  Integers have the widths of the x86-64 Linux build. The state is sequential; the interleavings
  that matter are explicit: the ownership of events by threads is a step relation over the
  operations of all threads, and the wait for a condition variable has a step relation of one
  consumer and one producer.

  \<^bold>\<open>Inputs and bounds.\<close> The kernel, the C library, expat, libcrypto's digest and the code of
  plugins are parameters: results of calls are fields of \<open>pthread_env\<close>, \<open>main_env\<close>, \<open>log_env\<close> and
  \<open>netlink_env\<close>, or arguments. A loop that waits for the outside world takes the list of the
  answers it gets (signals, datagrams, results of \<open>select\<close>, what other threads do during a
  wait); when the list ends the loop is still waiting, and the result says so (\<open>None\<close> or
  \<open>Block\<close>). There is no fuel: every other loop is a recursion over its data, or a \<open>function\<close> with
  a measure (the chunks of a file, the split of a filter).

  \<^bold>\<open>The theories.\<close>
  \<^item> \<open>ClearSync_Prelude\<close>: machine types, exceptions (\<open>include/clearsync/csexception.h\<close>), outcomes
    and their rewriting, strings and bytes. \<open>Cs_Containers\<close>: \<open>std::map\<close> as a sorted association
    list and the search-and-erase of vectors, with the contracts \<open>std_map\<close> and \<open>registry\<close>.
    \<open>Cs_Text\<close>: the printf directives that the sources use. \<open>Cs_Sync\<close>: mutexes,
    \<open>csCriticalSection\<close> and the contract \<open>singleton\<close> of the classes with an instance pointer.
  \<^item> \<open>Cs_Event\<close>: \<open>csEvent\<close> and its subclasses, \<open>csEventClient\<close>. \<open>Cs_Event_Queue\<close>: the ownership
    invariant \<open>ev_wf\<close> and one equation for each operation; the abstract queues that dispatch,
    broadcast and pop refine. \<open>Cs_Event_System\<close>: clients that come and go, \<open>EventPopWait\<close>, the
    system of all threads as a step relation: no event is used after it was freed or freed
    twice, and no call blocks or throws. \<open>Cs_Event_Properties\<close>: delivery, order, sticky and
    exclusive events, deadlines; the lost wake-up and the mutex that an exception leaves locked.
    \<open>Cs_Event_Types\<close>: the contract \<open>event_invariant\<close> of properties that every event keeps, and
    with it that the casts of the receivers agree with the dynamic classes of the events.
  \<^item> \<open>Cs_Log\<close>: \<open>csLog\<close>, its registry and formatted output; which logger writes what.
  \<^item> \<open>Cs_Thread\<close>: \<open>csThread\<close>. \<open>Cs_Timer\<close> and \<open>Cs_Timer_Properties\<close>: \<open>csTimer\<close> and \<open>csThreadTimer\<close>; one
    tick, many ticks, the single instance.
  \<^item> \<open>Cs_Plugin\<close>, \<open>Cs_Plugin_State\<close>, \<open>Cs_Plugin_File\<close>: \<open>csPlugin\<close> with its state variables (the
    contract \<open>var_store\<close>) and the state file with its format: saving and loading, also of
    truncated and arbitrary files. \<open>Cs_Loader\<close>: plugin objects and \<open>csPluginLoader\<close>.
  \<^item> \<open>Cs_Conf\<close>, \<open>Cs_Conf_Properties\<close>: \<open>csXmlTag\<close>, \<open>csXmlParser\<close>, \<open>csConf\<close>; parsing as the traversal of
    a document; the contract \<open>conf_client\<close> of a client whose handlers keep an invariant.
  \<^item> \<open>Cs_Netlink\<close>, \<open>Cs_Netlink_Properties\<close>: \<open>csEventNetlink\<close>, \<open>csThreadNetlink\<close>, the messages of a
    datagram, queries and replies. \<open>Cs_Socket\<close>, \<open>Cs_Socket_Properties\<close>: \<open>csSocket\<close> and its
    subclasses; the contract \<open>transfer\<close> of the two transfer loops, the state machine of a client.
  \<^item> \<open>Cs_Util\<close>, \<open>Cs_HexDump\<close>, \<open>Cs_Sysutil\<close>: hex and binary, the hex dump, regular expressions,
    commands, accounts, digests, the locale.
  \<^item> \<open>Cs_Main_Conf\<close>, \<open>Cs_Main\<close>: \<open>csMain\<close> with its configuration classes, \<open>csSignalHandler\<close>,
    \<open>csPluginStateLoader\<close> and \<open>main\<close>. \<open>Cs_Filter_Properties\<close>, \<open>Cs_Main_Invariant\<close>,
    \<open>Cs_Main_Properties\<close>: what configuration files do, the invariant of the plugin map and the
    filters, the delivery of plugin events, signals, the command line, the dump of a state file.
    \<open>Cs_Shutdown\<close>: the destructor with all the objects that the daemon owns. \<open>Cs_Lifecycle\<close>: the
    composition of all of it, from the start of the process to its exit code.
  \<^item> \<open>Cs_Example\<close>: the plugin of \<open>src/plugin/csplugin-example.cpp\<close> on the daemon's state.

  \<^bold>\<open>Contracts.\<close> Each is a locale whose laws are proved for the model's own definitions:
  \<open>std_map\<close> (\<open>om\<close>), \<open>registry\<close> (\<open>ec_vec\<close> for event clients, \<open>lg_vec\<close> for loggers, \<open>tm_vec\<close> for
  timers), \<open>singleton\<close> (\<open>crit_single\<close>, \<open>timer_single\<close>, \<open>netlink_single\<close>), \<open>var_store\<close> (\<open>var_ulong\<close>,
  \<open>var_float\<close>, \<open>var_string\<close>, \<open>var_event\<close>), \<open>conf_client\<close> (\<open>daemon_conf\<close>), \<open>transfer\<close> (\<open>rd\<close>, \<open>wr\<close>)
  and \<open>event_invariant\<close> (\<open>casts\<close>).

  \<^bold>\<open>Hypotheses on parameters.\<close> \<open>conf_local\<close>: a plugin's own handling of its configuration file
  leaves the daemon's tables alone; \<open>conf_quiet\<close>: it accepts the file and at most logs.
  \<open>dtor_joins\<close>: the destructor of a plugin's class joins its thread. \<open>threads_work\<close> and
  \<open>kernel_ok\<close>: the kernel grants what is asked for, and live threads have different ids. The
  digest functions satisfy that updating with two blocks is updating with their concatenation.
  Each is met by a concrete instance in the theory that uses it.

  \<^bold>\<open>Not modelled.\<close> Destructors that only give memory back (\<open>csRegEx\<close>, \<open>csEventNetlink\<close>,
  \<open>csMainConf\<close>), and memory that is never given back, have no counterpart: a freed object that
  can still be reached is removed from its map, other memory is not counted. The two
  \<open>LogException\<close> functions of \<open>src/cslog.cpp\<close> have empty bodies. \<open>csSocketConnecting\<close> is never
  thrown. Output that is compiled in only with a debugging macro is left out. The trampoline
  \<open>cs_thread_entry\<close> is the call of \<open>Entry\<close>; a thread's \<open>Entry\<close> is a function of its inputs, and
  \<open>pthread_join\<close> returns when the kernel says so. The parser part of \<open>conf_world\<close> is a
  placeholder until the constructor of \<open>csMain\<close> makes the parser. Build files, packaging, init
  scripts and configuration data hold no program logic.
\<close>

end
